(* ===== verification/Prelude.thy ===== *)
theory Prelude
  imports Main "HOL-Library.Word" "HOL-Library.Char_ord" "HOL-Library.List_Lexorder"
    "HOL-Library.AList"
begin

text \<open>
  Shared types, helper functions and automation of the development.

  \<^item> Rust's \<^verbatim>\<open>u8\<close> is \<open>8 word\<close>, \<^verbatim>\<open>u32\<close> is \<open>32 word\<close>; a \<^verbatim>\<open>Bytes\<close>, \<^verbatim>\<open>BytesMut\<close> or
    \<^verbatim>\<open>Vec<u8>\<close> is the list of its bytes. A \<^verbatim>\<open>usize\<close> is a \<open>nat\<close>, and every saturating or
    checked operation the source performs on it is written out against \<open>usize_MAX\<close>
    (a 64-bit target).
  \<^item> A Rust \<^verbatim>\<open>str\<close> is the sequence of its UTF-8 bytes, written as an Isabelle \<open>string\<close>
    (a \<open>char\<close> is one byte), so \<open>length\<close> is Rust's \<^verbatim>\<open>len()\<close>.
  \<^item> \<^verbatim>\<open>Result<T, E>\<close> is the datatype \<open>result\<close> with the source's constructors; \<^verbatim>\<open>?\<close> is
    \<open>result_bind\<close>.
  \<^item> A \<^verbatim>\<open>HashMap\<close> is an association list with distinct keys, updated by \<open>AList.update\<close>
    and read by \<open>map_of\<close>.
\<close>

named_theorems wire_simps \<open>equations that evaluate encoders and decoders of the wire formats\<close>
named_theorems inv_intros \<open>introduction rules for the components' invariants\<close>

section \<open>Types\<close>

type_synonym byte = "8 word"
type_synonym bytes = "byte list"
type_synonym u32 = "32 word"
type_synonym usize = nat

definition usize_MAX :: usize where
  "usize_MAX = 18446744073709551615"

definition u32_MAX :: nat where
  "u32_MAX = 4294967295"

definition u64_MAX :: nat where
  "u64_MAX = 18446744073709551615"

definition saturating_add :: "usize \<Rightarrow> usize \<Rightarrow> usize" where
  "saturating_add a b = min (a + b) usize_MAX"

definition saturating_mul :: "usize \<Rightarrow> usize \<Rightarrow> usize" where
  "saturating_mul a b = min (a * b) usize_MAX"

datatype ('a, 'e) result = Ok 'a | Err 'e

fun result_bind :: "('a, 'e) result \<Rightarrow> ('a \<Rightarrow> ('b, 'e) result) \<Rightarrow> ('b, 'e) result" where
  "result_bind (Ok x) f = f x"
| "result_bind (Err e) f = Err e"

fun result_map :: "('a \<Rightarrow> 'b) \<Rightarrow> ('a, 'e) result \<Rightarrow> ('b, 'e) result" where
  "result_map f (Ok x) = Ok (f x)"
| "result_map f (Err e) = Err e"

fun is_ok :: "('a, 'e) result \<Rightarrow> bool" where
  "is_ok (Ok x) = True"
| "is_ok (Err e) = False"

fun ok_or :: "'a option \<Rightarrow> 'e \<Rightarrow> ('a, 'e) result" where
  "ok_or (Some x) e = Ok x"
| "ok_or None e = Err e"

section \<open>Strings\<close>

definition as_bytes :: "string \<Rightarrow> bytes" where
  "as_bytes s = map (\<lambda>c. word_of_nat (of_char c)) s"

definition from_bytes :: "bytes \<Rightarrow> string" where
  "from_bytes bs = map (\<lambda>b. char_of (unat b)) bs"

definition digit_char :: "nat \<Rightarrow> char" where
  "digit_char d = char_of (48 + d)"

text \<open>Decimal text of a number, as \<^verbatim>\<open>format!("{n}")\<close> prints it.\<close>

fun show_nat :: "nat \<Rightarrow> string" where
  "show_nat n = (if n < 10 then [digit_char n] else show_nat (n div 10) @ [digit_char (n mod 10)])"

declare show_nat.simps [simp del]

text \<open>\<^verbatim>\<open>str::strip_prefix\<close>, \<^verbatim>\<open>str::starts_with\<close>.\<close>

fun strip_prefix :: "'a list \<Rightarrow> 'a list \<Rightarrow> 'a list option" where
  "strip_prefix [] s = Some s"
| "strip_prefix (p # ps) [] = None"
| "strip_prefix (p # ps) (c # cs) = (if p = c then strip_prefix ps cs else None)"

definition starts_with :: "'a list \<Rightarrow> 'a list \<Rightarrow> bool" where
  "starts_with s p \<longleftrightarrow> strip_prefix p s \<noteq> None"

text \<open>\<^verbatim>\<open>str::split\<close> on one separator: always at least one piece.\<close>

fun split_on :: "'a \<Rightarrow> 'a list \<Rightarrow> 'a list list" where
  "split_on sep [] = [[]]"
| "split_on sep (c # cs) =
     (if c = sep then [] # split_on sep cs
      else (case split_on sep cs of [] \<Rightarrow> [[c]] | p # ps \<Rightarrow> (c # p) # ps))"

text \<open>
  \<^verbatim>\<open>str::trim\<close> on the text of a header value. A header value that converts to \<^verbatim>\<open>&str\<close> holds
  visible ASCII, space and tab only, so the white space it can trim is ASCII white space.
\<close>

definition is_ascii_space :: "char \<Rightarrow> bool" where
  "is_ascii_space c \<longleftrightarrow> (of_char c :: nat) \<in> {9, 10, 11, 12, 13, 32}"

definition trim :: "string \<Rightarrow> string" where
  "trim s = rev (dropWhile is_ascii_space (rev (dropWhile is_ascii_space s)))"

definition is_ascii_digit :: "char \<Rightarrow> bool" where
  "is_ascii_digit c \<longleftrightarrow> 48 \<le> (of_char c :: nat) \<and> (of_char c :: nat) \<le> 57"

definition is_ascii_alpha :: "char \<Rightarrow> bool" where
  "is_ascii_alpha c \<longleftrightarrow> (65 \<le> (of_char c :: nat) \<and> (of_char c :: nat) \<le> 90) \<or>
     (97 \<le> (of_char c :: nat) \<and> (of_char c :: nat) \<le> 122)"

definition is_ascii_alphanumeric :: "char \<Rightarrow> bool" where
  "is_ascii_alphanumeric c \<longleftrightarrow> is_ascii_alpha c \<or> is_ascii_digit c"

text \<open>\<^verbatim>\<open>[&str]::join\<close>.\<close>

fun join_with :: "'a list \<Rightarrow> 'a list list \<Rightarrow> 'a list" where
  "join_with sep [] = []"
| "join_with sep [x] = x"
| "join_with sep (x # y # ys) = x @ sep @ join_with sep (y # ys)"

section \<open>Big-endian 32-bit integers\<close>

definition u32_to_be_bytes :: "u32 \<Rightarrow> bytes" where
  "u32_to_be_bytes w = [ucast (drop_bit 24 w), ucast (drop_bit 16 w), ucast (drop_bit 8 w), ucast w]"

definition u32_from_be_bytes :: "byte \<Rightarrow> byte \<Rightarrow> byte \<Rightarrow> byte \<Rightarrow> u32" where
  "u32_from_be_bytes a b c d = word_of_nat (((unat a * 256 + unat b) * 256 + unat c) * 256 + unat d)"

text \<open>\<^verbatim>\<open>u32::try_from(usize)\<close>.\<close>

definition u32_try_from :: "usize \<Rightarrow> u32 option" where
  "u32_try_from n = (if n \<le> u32_MAX then Some (word_of_nat n) else None)"

section \<open>Lemmas\<close>

lemma strip_prefix_append [simp]: "strip_prefix p (p @ s) = Some s"
  by (induction p) auto

lemma strip_prefix_Some_iff: "strip_prefix p s = Some r \<longleftrightarrow> s = p @ r"
  by (induction p s rule: strip_prefix.induct) auto

lemma starts_with_append [simp]: "starts_with (p @ s) p"
  by (simp add: starts_with_def)

lemma split_on_nonempty [simp]: "split_on c s \<noteq> []"
  by (induction s) (auto split: list.splits)

lemma split_on_notin [simp]: "sep \<notin> set s \<Longrightarrow> split_on sep s = [s]"
  by (induction s) auto

lemma split_on_append_sep:
  "sep \<notin> set s \<Longrightarrow> split_on sep (s @ sep # t) = s # split_on sep t"
  by (induction s) auto

lemma split_on_pieces: "p \<in> set (split_on sep s) \<Longrightarrow> sep \<notin> set p"
proof (induction s arbitrary: p)
  case Nil
  then show ?case by simp
next
  case (Cons c cs)
  then show ?case by (auto split: if_splits list.splits)
qed

lemma length_as_bytes [simp]: "length (as_bytes s) = length s"
  by (simp add: as_bytes_def)

lemma length_from_bytes [simp]: "length (from_bytes bs) = length bs"
  by (simp add: from_bytes_def)

lemma as_bytes_append [simp]: "as_bytes (s @ t) = as_bytes s @ as_bytes t"
  by (simp add: as_bytes_def)

lemma from_bytes_append [simp]: "from_bytes (s @ t) = from_bytes s @ from_bytes t"
  by (simp add: from_bytes_def)

lemma from_bytes_as_bytes [simp]: "from_bytes (as_bytes s) = s"
proof -
  have "char_of (unat (word_of_nat (of_char c) :: byte)) = c" for c
  proof -
    have "(of_char c :: nat) < 256" by (rule nat_of_char_less_256)
    then have "unat (word_of_nat (of_char c) :: byte) = of_char c"
      by (simp add: unat_of_nat)
    then show ?thesis by simp
  qed
  then show ?thesis by (simp add: from_bytes_def as_bytes_def map_idI)
qed

lemma as_bytes_from_bytes [simp]: "as_bytes (from_bytes bs) = bs"
proof -
  have "(word_of_nat (of_char (char_of (unat b) :: char)) :: byte) = b" for b :: byte
  proof -
    have "unat b < 256" using unsigned_less [where 'a = nat, of b] by simp
    then show ?thesis by (simp add: of_char_of)
  qed
  then show ?thesis by (simp add: from_bytes_def as_bytes_def map_idI)
qed

lemma as_bytes_inject [simp]: "as_bytes s = as_bytes t \<longleftrightarrow> s = t"
  by (metis from_bytes_as_bytes)

lemma u32_be_nat_bound:
  fixes a b c d :: byte
  shows "((unat a * 256 + unat b) * 256 + unat c) * 256 + unat d < 2 ^ 32"
  using unsigned_less [where 'a = nat, of a] unsigned_less [where 'a = nat, of b] unsigned_less [where 'a = nat, of c] unsigned_less [where 'a = nat, of d] by simp

lemma unat_u32_from_be_bytes:
  "unat (u32_from_be_bytes a b c d) = ((unat a * 256 + unat b) * 256 + unat c) * 256 + unat d"
  unfolding u32_from_be_bytes_def
  by (subst unat_of_nat, rule mod_less) (use u32_be_nat_bound [of a b c d] in simp)

lemma length_u32_to_be_bytes [simp]: "length (u32_to_be_bytes w) = 4"
  by (simp add: u32_to_be_bytes_def)

lemma nat_base256:
  fixes n :: nat
  assumes "n < 4294967296"
  shows "(((n div 16777216 mod 256) * 256 + n div 65536 mod 256) * 256 + n div 256 mod 256) * 256
    + n mod 256 = n"
proof -
  have step: "m div 256 * 256 + m mod 256 = m" for m :: nat
    by (rule div_mult_mod_eq)
  have d2: "n div 65536 = n div 256 div 256" and d3: "n div 16777216 = n div 256 div 256 div 256"
    by (simp_all flip: div_mult2_eq)
  have "n div 256 div 256 div 256 < 256"
    using assms by (simp flip: div_mult2_eq add: less_mult_imp_div_less)
  then show ?thesis
    by (simp add: d2 d3 step del: div_mult_mod_eq)
qed

lemma u32_be_roundtrip [wire_simps]:
  "u32_from_be_bytes (ucast (drop_bit 24 w)) (ucast (drop_bit 16 w)) (ucast (drop_bit 8 w)) (ucast w) = w"
proof -
  let ?n = "unat w"
  have n: "?n < 4294967296" using unsigned_less [where 'a = nat, of w] by simp
  have b: "unat (ucast (drop_bit k w) :: byte) = (?n div 2 ^ k) mod 256" for k
  proof -
    have "unat (ucast (drop_bit k w) :: byte) = take_bit 8 (drop_bit k ?n)"
      by (simp add: unsigned_ucast_eq unsigned_take_bit_eq unat_drop_bit_eq)
    then show ?thesis by (simp add: take_bit_eq_mod drop_bit_eq_div)
  qed
  have p: "(2::nat) ^ 24 = 16777216" "(2::nat) ^ 16 = 65536" "(2::nat) ^ 8 = 256"
    by simp_all
  have b0: "unat (ucast w :: byte) = ?n mod 256"
    by (simp add: unsigned_ucast_eq unsigned_take_bit_eq take_bit_eq_mod)
  have "unat (u32_from_be_bytes (ucast (drop_bit 24 w)) (ucast (drop_bit 16 w))
      (ucast (drop_bit 8 w)) (ucast w)) = ?n"
    by (simp only: unat_u32_from_be_bytes b b0 p nat_base256 [OF n])
  then show ?thesis by (rule word_unat_eq_iff [THEN iffD2])
qed

lemma u32_try_from_Some:
  assumes "u32_try_from n = Some w"
  shows "unat w = n" and "n \<le> u32_MAX"
  using assms by (auto simp: u32_try_from_def u32_MAX_def unat_of_nat split: if_splits)

lemma u32_try_from_small: "n \<le> u32_MAX \<Longrightarrow> \<exists>w. u32_try_from n = Some w \<and> unat w = n"
  by (auto simp: u32_try_from_def u32_MAX_def unat_of_nat)

lemma unat_u32_le: "unat (w :: u32) \<le> u32_MAX"
  using unsigned_less [where 'a = nat, of w] by (simp add: u32_MAX_def)

lemma u32_try_from_unat [simp]: "u32_try_from (unat (w :: u32)) = Some w"
  using unat_u32_le [of w] by (simp add: u32_try_from_def)

lemma result_bind_Ok_iff:
  "result_bind r f = Ok y \<longleftrightarrow> (\<exists>x. r = Ok x \<and> f x = Ok y)"
  by (cases r) auto

lemma result_bind_Err_iff:
  "result_bind r f = Err e \<longleftrightarrow> r = Err e \<or> (\<exists>x. r = Ok x \<and> f x = Err e)"
  by (cases r) auto

lemma result_map_bind: "result_map g (result_bind r f) = result_bind r (\<lambda>x. result_map g (f x))"
  by (cases r) auto

lemma result_bind_Ok_right [simp]: "result_bind r Ok = r"
  by (cases r) auto

lemma result_bind_assoc: "result_bind (result_bind r f) g = result_bind r (\<lambda>x. result_bind (f x) g)"
  by (cases r) auto

lemma result_map_Ok_iff: "result_map f r = Ok y \<longleftrightarrow> (\<exists>x. r = Ok x \<and> y = f x)"
  by (cases r) auto

lemma result_map_cong_Ok: "(\<And>x. r = Ok x \<Longrightarrow> f x = g x) \<Longrightarrow> result_map f r = result_map g r"
  by (cases r) auto

lemma saturating_add_le_iff:
  "n \<le> usize_MAX \<Longrightarrow> a + b \<le> n \<Longrightarrow> saturating_add a b = a + b"
  by (simp add: saturating_add_def)

lemma find_SomeD: "find P xs = Some x \<Longrightarrow> x \<in> set xs \<and> P x"
  by (induction xs) (auto split: if_splits)

lemma map_of_update_same [simp]: "map_of (AList.update k v m) k = Some v"
  by (simp add: update_conv')

lemma map_of_update_other [simp]: "k \<noteq> k' \<Longrightarrow> map_of (AList.update k v m) k' = map_of m k'"
  by (simp add: update_conv')

section \<open>Partial inverses\<close>

text \<open>
  The interface that every pair of an encoder and a parser of a closed vocabulary (error
  codes, numeric status codes, codec names, serving states) promises: the parser recovers
  what the encoder wrote, and accepts nothing else.
\<close>

locale wire_code =
  fixes enc :: "'a \<Rightarrow> 'w" and dec :: "'w \<Rightarrow> 'a option"
  assumes dec_enc: "dec (enc x) = Some x"
begin

lemma enc_injective: "enc x = enc y \<longleftrightarrow> x = y"
  using dec_enc by (metis option.inject)

lemma dec_range: "dec w = None \<Longrightarrow> w \<notin> range enc"
  using dec_enc by auto

end

locale exact_wire_code = wire_code +
  assumes enc_dec: "dec w = Some x \<Longrightarrow> w = enc x"
begin

lemma dec_Some_iff: "dec w = Some x \<longleftrightarrow> w = enc x"
  using enc_dec dec_enc by blast

lemma dec_None_iff: "dec w = None \<longleftrightarrow> w \<notin> range enc"
proof
  assume "dec w = None"
  then show "w \<notin> range enc" by (rule dec_range)
next
  assume "w \<notin> range enc"
  then show "dec w = None" using dec_Some_iff by (cases "dec w") auto
qed

end

end
