(* ===== verification/Headers.thy ===== *)
theory Headers
  imports Prelude
begin

text \<open>
  The header map the code passes around (\<^verbatim>\<open>http::HeaderMap\<close>) as data: a multimap from
  lower-case names to the values of that name in the order they were appended, held as an
  association list in iteration order. \<open>hm_get\<close> is the first value, \<open>hm_insert\<close> replaces
  every value of the name, \<open>hm_append\<close> adds one more value, \<open>hm_iter\<close> lists the pairs
  with the values of one name together.
\<close>

type_synonym headers = "(string \<times> string list) list"

definition hm_new :: headers where
  "hm_new = []"

definition hm_values :: "headers \<Rightarrow> string \<Rightarrow> string list" where
  "hm_values h k = (case map_of h k of None \<Rightarrow> [] | Some vs \<Rightarrow> vs)"

definition hm_get :: "headers \<Rightarrow> string \<Rightarrow> string option" where
  "hm_get h k = (case hm_values h k of [] \<Rightarrow> None | v # vs \<Rightarrow> Some v)"

definition hm_insert :: "string \<Rightarrow> string \<Rightarrow> headers \<Rightarrow> headers" where
  "hm_insert k v h = AList.update k [v] h"

definition hm_append :: "string \<Rightarrow> string \<Rightarrow> headers \<Rightarrow> headers" where
  "hm_append k v h = AList.update k (hm_values h k @ [v]) h"

definition hm_iter :: "headers \<Rightarrow> (string \<times> string) list" where
  "hm_iter h = concat (map (\<lambda>(k, vs). map (Pair k) vs) h)"

definition hm_is_empty :: "headers \<Rightarrow> bool" where
  "hm_is_empty h \<longleftrightarrow> h = []"

definition hm_contains :: "headers \<Rightarrow> string \<Rightarrow> bool" where
  "hm_contains h k \<longleftrightarrow> hm_values h k \<noteq> []"

definition hm_append_all :: "(string \<times> string) list \<Rightarrow> headers \<Rightarrow> headers" where
  "hm_append_all kvs h = fold (\<lambda>(k, v). hm_append k v) kvs h"

text \<open>
  \<^verbatim>\<open>HeaderValue::to_str\<close>: the text of a value whose bytes are all visible ASCII or tab.
\<close>

definition header_to_str :: "string \<Rightarrow> string option" where
  "header_to_str v =
     (if list_all (\<lambda>c. (32 \<le> (of_char c :: nat) \<and> (of_char c :: nat) < 127) \<or> (of_char c :: nat) = 9) v
      then Some v else None)"

definition hm_get_str :: "headers \<Rightarrow> string \<Rightarrow> string option" where
  "hm_get_str h k = Option.bind (hm_get h k) header_to_str"

section \<open>Well-formed maps\<close>

definition hm_wf :: "headers \<Rightarrow> bool" where
  "hm_wf h \<longleftrightarrow> distinct (map fst h) \<and> (\<forall>(k, vs) \<in> set h. vs \<noteq> [])"

lemma hm_wf_new [simp, inv_intros]: "hm_wf hm_new"
  by (simp add: hm_wf_def hm_new_def)

lemma set_alist_update: "p \<in> set (AList.update k v m) \<Longrightarrow> p = (k, v) \<or> p \<in> set m"
  by (induction m) (auto split: if_splits)

lemma hm_wf_insert [inv_intros]: "hm_wf h \<Longrightarrow> hm_wf (hm_insert k v h)"
  by (auto simp: hm_wf_def hm_insert_def distinct_update dest!: set_alist_update)

lemma hm_wf_append [inv_intros]: "hm_wf h \<Longrightarrow> hm_wf (hm_append k v h)"
  by (auto simp: hm_wf_def hm_append_def distinct_update dest!: set_alist_update)

lemma hm_wf_append_all [inv_intros]: "hm_wf h \<Longrightarrow> hm_wf (hm_append_all kvs h)"
  unfolding hm_append_all_def
  by (induction kvs arbitrary: h) (auto intro: hm_wf_append)

lemma hm_values_insert [simp]:
  "hm_values (hm_insert k v h) k' = (if k' = k then [v] else hm_values h k')"
  by (simp add: hm_values_def hm_insert_def)

lemma hm_values_append [simp]:
  "hm_values (hm_append k v h) k' = (if k' = k then hm_values h k @ [v] else hm_values h k')"
  by (simp add: hm_values_def hm_append_def)

lemma hm_values_new [simp]: "hm_values hm_new k = []"
  by (simp add: hm_values_def hm_new_def)

lemma hm_values_append_all:
  "hm_values (hm_append_all kvs h) k = hm_values h k @ map snd (filter (\<lambda>p. fst p = k) kvs)"
  unfolding hm_append_all_def
  by (induction kvs arbitrary: h) (auto simp: case_prod_beta)

lemma hm_values_iter:
  assumes "distinct (map fst h)"
  shows "map snd (filter (\<lambda>p. fst p = k) (hm_iter h)) = hm_values h k"
  using assms
proof (induction h)
  case Nil
  then show ?case by (simp add: hm_iter_def hm_values_def)
next
  case (Cons p h)
  obtain k' vs where p: "p = (k', vs)" by (cases p)
  have eq: "hm_iter ((k', vs) # h) = map (Pair k') vs @ hm_iter h"
    by (simp add: hm_iter_def)
  have f: "filter (\<lambda>q. fst q = k) (map (Pair k') vs) = (if k' = k then map (Pair k') vs else [])"
    by (induction vs) auto
  have "map snd (filter (\<lambda>q. fst q = k) (hm_iter (p # h))) = (if k' = k then vs else []) @ hm_values h k"
    using Cons by (simp add: p eq f comp_def)
  moreover have "hm_values h k = []" if "k' = k"
    using Cons.prems p that by (auto simp: hm_values_def map_of_eq_None_iff [THEN iffD2])
  moreover have "hm_values (p # h) k = (if k' = k then vs else hm_values h k)"
    by (simp add: p hm_values_def)
  ultimately show ?case by simp
qed

lemma hm_get_insert [simp]:
  "hm_get (hm_insert k v h) k' = (if k' = k then Some v else hm_get h k')"
  by (simp add: hm_get_def)

lemma hm_get_append_other [simp]: "k' \<noteq> k \<Longrightarrow> hm_get (hm_append k v h) k' = hm_get h k'"
  by (simp add: hm_get_def)

lemma hm_get_append_all:
  "hm_get (hm_append_all kvs h) k =
     (case hm_get h k of Some v \<Rightarrow> Some v | None \<Rightarrow> map_of kvs k)"
proof -
  have "(case map snd (filter (\<lambda>p. fst p = k) kvs) of [] \<Rightarrow> None | v # vs \<Rightarrow> Some v) = map_of kvs k"
    by (induction kvs) auto
  then show ?thesis
    by (auto simp: hm_get_def hm_values_append_all split: list.splits)
qed

lemma hm_append_all_iter:
  assumes "hm_wf h"
  shows "hm_values (hm_append_all (hm_iter h) h0) k = hm_values h0 k @ hm_values h k"
  using assms by (simp add: hm_values_append_all hm_values_iter hm_wf_def)

end
