(* ===== verification/ErrorModel.thy ===== *)
theory ErrorModel
  imports Headers
begin

text \<open>
  Error codes and the error value of \<^verbatim>\<open>connectrpc/src/error.rs\<close>: the sixteen codes with
  their three vocabularies (snake-case name, HTTP status, gRPC number), the parsers of two of
  them, and \<^verbatim>\<open>ConnectError\<close> with its constructors, builders and accessors. The retained cause
  (\<^verbatim>\<open>err_source\<close>) is represented by its display text, the only thing the crate reads of it.
\<close>

section \<open>Error codes\<close>

datatype error_code =
    Canceled | Unknown | InvalidArgument | DeadlineExceeded | NotFound | AlreadyExists
  | PermissionDenied | ResourceExhausted | FailedPrecondition | Aborted | OutOfRange
  | Unimplemented | Internal | Unavailable | DataLoss | Unauthenticated

fun as_str :: "error_code \<Rightarrow> string" where
  "as_str Canceled = ''canceled''"
| "as_str Unknown = ''unknown''"
| "as_str InvalidArgument = ''invalid_argument''"
| "as_str DeadlineExceeded = ''deadline_exceeded''"
| "as_str NotFound = ''not_found''"
| "as_str AlreadyExists = ''already_exists''"
| "as_str PermissionDenied = ''permission_denied''"
| "as_str ResourceExhausted = ''resource_exhausted''"
| "as_str FailedPrecondition = ''failed_precondition''"
| "as_str Aborted = ''aborted''"
| "as_str OutOfRange = ''out_of_range''"
| "as_str Unimplemented = ''unimplemented''"
| "as_str Internal = ''internal''"
| "as_str Unavailable = ''unavailable''"
| "as_str DataLoss = ''data_loss''"
| "as_str Unauthenticated = ''unauthenticated''"

text \<open>HTTP status codes by number; 499 is in the range \<^verbatim>\<open>StatusCode::from_u16\<close> accepts.\<close>

fun code_http_status :: "error_code \<Rightarrow> nat" where
  "code_http_status Canceled = 499"
| "code_http_status Unknown = 500"
| "code_http_status InvalidArgument = 400"
| "code_http_status DeadlineExceeded = 504"
| "code_http_status NotFound = 404"
| "code_http_status AlreadyExists = 409"
| "code_http_status PermissionDenied = 403"
| "code_http_status ResourceExhausted = 429"
| "code_http_status FailedPrecondition = 400"
| "code_http_status Aborted = 409"
| "code_http_status OutOfRange = 400"
| "code_http_status Unimplemented = 501"
| "code_http_status Internal = 500"
| "code_http_status Unavailable = 503"
| "code_http_status DataLoss = 500"
| "code_http_status Unauthenticated = 401"

fun grpc_code :: "error_code \<Rightarrow> u32" where
  "grpc_code Canceled = 1"
| "grpc_code Unknown = 2"
| "grpc_code InvalidArgument = 3"
| "grpc_code DeadlineExceeded = 4"
| "grpc_code NotFound = 5"
| "grpc_code AlreadyExists = 6"
| "grpc_code PermissionDenied = 7"
| "grpc_code ResourceExhausted = 8"
| "grpc_code FailedPrecondition = 9"
| "grpc_code Aborted = 10"
| "grpc_code OutOfRange = 11"
| "grpc_code Unimplemented = 12"
| "grpc_code Internal = 13"
| "grpc_code Unavailable = 14"
| "grpc_code DataLoss = 15"
| "grpc_code Unauthenticated = 16"

definition from_grpc_code :: "u32 \<Rightarrow> error_code option" where
  "from_grpc_code c =
     (if c = 1 then Some Canceled
      else if c = 2 then Some Unknown
      else if c = 3 then Some InvalidArgument
      else if c = 4 then Some DeadlineExceeded
      else if c = 5 then Some NotFound
      else if c = 6 then Some AlreadyExists
      else if c = 7 then Some PermissionDenied
      else if c = 8 then Some ResourceExhausted
      else if c = 9 then Some FailedPrecondition
      else if c = 10 then Some Aborted
      else if c = 11 then Some OutOfRange
      else if c = 12 then Some Unimplemented
      else if c = 13 then Some Internal
      else if c = 14 then Some Unavailable
      else if c = 15 then Some DataLoss
      else if c = 16 then Some Unauthenticated
      else None)"

definition error_code_from_str :: "string \<Rightarrow> error_code option" where
  "error_code_from_str s =
     (if s = ''canceled'' then Some Canceled
      else if s = ''unknown'' then Some Unknown
      else if s = ''invalid_argument'' then Some InvalidArgument
      else if s = ''deadline_exceeded'' then Some DeadlineExceeded
      else if s = ''not_found'' then Some NotFound
      else if s = ''already_exists'' then Some AlreadyExists
      else if s = ''permission_denied'' then Some PermissionDenied
      else if s = ''resource_exhausted'' then Some ResourceExhausted
      else if s = ''failed_precondition'' then Some FailedPrecondition
      else if s = ''aborted'' then Some Aborted
      else if s = ''out_of_range'' then Some OutOfRange
      else if s = ''unimplemented'' then Some Unimplemented
      else if s = ''internal'' then Some Internal
      else if s = ''unavailable'' then Some Unavailable
      else if s = ''data_loss'' then Some DataLoss
      else if s = ''unauthenticated'' then Some Unauthenticated
      else None)"

section \<open>Error values\<close>

record error_detail =
  type_url :: string
  detail_value :: "string option"
  detail_debug :: "string option"

record connect_error =
  err_code :: error_code
  err_message :: "string option"
  err_details :: "error_detail list"
  http_status_override :: "nat option"
  response_headers_field :: "headers option"
  trailers_field :: "headers option"
  err_source :: "string option"

definition box_headers :: "headers \<Rightarrow> headers option" where
  "box_headers h = (if hm_is_empty h then None else Some h)"

definition new_error :: "error_code \<Rightarrow> string \<Rightarrow> connect_error" where
  "new_error c m = \<lparr>err_code = c, err_message = Some m, err_details = [], http_status_override = None,
     response_headers_field = None, trailers_field = None, err_source = None\<rparr>"

definition with_headers :: "headers \<Rightarrow> connect_error \<Rightarrow> connect_error" where
  "with_headers h e = e\<lparr>response_headers_field := box_headers h\<rparr>"

definition with_trailers :: "headers \<Rightarrow> connect_error \<Rightarrow> connect_error" where
  "with_trailers t e = e\<lparr>trailers_field := box_headers t\<rparr>"

definition err_response_headers :: "connect_error \<Rightarrow> headers" where
  "err_response_headers e = (case response_headers_field e of None \<Rightarrow> hm_new | Some h \<Rightarrow> h)"

definition err_trailers :: "connect_error \<Rightarrow> headers" where
  "err_trailers e = (case trailers_field e of None \<Rightarrow> hm_new | Some t \<Rightarrow> t)"

definition set_response_headers :: "headers \<Rightarrow> connect_error \<Rightarrow> connect_error" where
  "set_response_headers h e = e\<lparr>response_headers_field := box_headers h\<rparr>"

definition set_trailers :: "headers \<Rightarrow> connect_error \<Rightarrow> connect_error" where
  "set_trailers t e = e\<lparr>trailers_field := box_headers t\<rparr>"

definition with_http_status :: "nat \<Rightarrow> connect_error \<Rightarrow> connect_error" where
  "with_http_status s e = e\<lparr>http_status_override := Some s\<rparr>"

definition unsupported_media_type :: "string \<Rightarrow> connect_error" where
  "unsupported_media_type m = with_http_status 415 (new_error Unknown m)"

definition method_not_allowed :: "string \<Rightarrow> connect_error" where
  "method_not_allowed m = with_http_status 405 (new_error Unknown m)"

definition canceled :: "string \<Rightarrow> connect_error" where
  "canceled m = new_error Canceled m"

definition invalid_argument :: "string \<Rightarrow> connect_error" where
  "invalid_argument m = new_error InvalidArgument m"

definition deadline_exceeded :: "string \<Rightarrow> connect_error" where
  "deadline_exceeded m = new_error DeadlineExceeded m"

definition not_found :: "string \<Rightarrow> connect_error" where
  "not_found m = new_error NotFound m"

definition resource_exhausted :: "string \<Rightarrow> connect_error" where
  "resource_exhausted m = new_error ResourceExhausted m"

definition unimplemented :: "string \<Rightarrow> connect_error" where
  "unimplemented m = new_error Unimplemented m"

definition internal :: "string \<Rightarrow> connect_error" where
  "internal m = new_error Internal m"

definition unavailable :: "string \<Rightarrow> connect_error" where
  "unavailable m = new_error Unavailable m"

definition with_detail :: "error_detail \<Rightarrow> connect_error \<Rightarrow> connect_error" where
  "with_detail d e = e\<lparr>err_details := err_details e @ [d]\<rparr>"

definition with_source :: "string \<Rightarrow> connect_error \<Rightarrow> connect_error" where
  "with_source s e = e\<lparr>err_source := Some s\<rparr>"

definition unavailable_from_transport :: "string \<Rightarrow> string \<Rightarrow> connect_error" where
  "unavailable_from_transport context err = with_source err (unavailable (context @ '': '' @ err))"

definition http_status :: "connect_error \<Rightarrow> nat" where
  "http_status e = (case http_status_override e of Some s \<Rightarrow> s | None \<Rightarrow> code_http_status (err_code e))"

definition display_error :: "connect_error \<Rightarrow> string" where
  "display_error e = as_str (err_code e) @ (case err_message e of None \<Rightarrow> [] | Some m \<Rightarrow> '': '' @ m)"

type_synonym 'a connect_result = "('a, connect_error) result"

lemmas error_ctor_defs = new_error_def canceled_def invalid_argument_def deadline_exceeded_def
  not_found_def resource_exhausted_def unimplemented_def internal_def unavailable_def

lemma code_ctors [simp]:
  "err_code (new_error c m) = c"
  "err_code (invalid_argument m) = InvalidArgument"
  "err_code (deadline_exceeded m) = DeadlineExceeded"
  "err_code (not_found m) = NotFound"
  "err_code (resource_exhausted m) = ResourceExhausted"
  "err_code (unimplemented m) = Unimplemented"
  "err_code (internal m) = Internal"
  "err_code (unavailable m) = Unavailable"
  "err_code (canceled m) = Canceled"
  by (simp_all add: error_ctor_defs)

section \<open>The two vocabularies are exact codes\<close>

interpretation code_names: exact_wire_code as_str error_code_from_str
proof unfold_locales
  show "error_code_from_str (as_str x) = Some x" for x
    by (cases x) (simp_all add: error_code_from_str_def)
  show "w = as_str x" if "error_code_from_str w = Some x" for w x
    using that by (auto simp: error_code_from_str_def split: if_splits)
qed

interpretation grpc_codes: exact_wire_code grpc_code from_grpc_code
proof unfold_locales
  show "from_grpc_code (grpc_code x) = Some x" for x
    by (cases x) (simp_all add: from_grpc_code_def)
  show "w = grpc_code x" if "from_grpc_code w = Some x" for w x
    using that by (auto simp: from_grpc_code_def split: if_splits)
qed

lemma from_grpc_code_range: "from_grpc_code c \<noteq> None \<longleftrightarrow> c \<noteq> 0 \<and> unat c \<le> 16"
proof
  assume "from_grpc_code c \<noteq> None"
  then obtain x where "c = grpc_code x" using grpc_codes.dec_Some_iff by blast
  then show "c \<noteq> 0 \<and> unat c \<le> 16" by (cases x) simp_all
next
  assume c: "c \<noteq> 0 \<and> unat c \<le> 16"
  then have "0 < unat c" by (simp add: unat_gt_0)
  moreover have "n \<in> {1,2,3,4,5,6,7,8,9,10,11,12,13,14,15,16}" if "0 < n" "n \<le> 16" for n :: nat
    using that by (simp, arith)
  ultimately have "unat c \<in> {1,2,3,4,5,6,7,8,9,10,11,12,13,14,15,16}" using c by blast
  then have "c \<in> word_of_nat ` {1,2,3,4,5,6,7,8,9,10,11,12,13,14,15,16}"
    by (rule image_eqI [rotated]) simp
  then show "from_grpc_code c \<noteq> None" by (auto simp: from_grpc_code_def)
qed

text \<open>
  The three code vocabularies are consistent: the name and the gRPC number of a code
  identify it (each parser returns exactly the code whose text or number it is given and
  rejects everything else), gRPC numbers are 1 to 16 with 0 (OK) never an error code, and
  every code's HTTP status is an error status.
\<close>

theorem error_code_vocabularies:
  "(error_code_from_str s = Some c \<longleftrightarrow> s = as_str c) \<and>
   (from_grpc_code n = Some c \<longleftrightarrow> n = grpc_code c) \<and>
   (from_grpc_code n \<noteq> None \<longleftrightarrow> n \<noteq> 0 \<and> unat n \<le> 16) \<and>
   400 \<le> code_http_status c \<and> code_http_status c < 600"
proof (intro conjI)
  show "error_code_from_str s = Some c \<longleftrightarrow> s = as_str c"
    by (rule code_names.dec_Some_iff)
  show "from_grpc_code n = Some c \<longleftrightarrow> n = grpc_code c"
    by (rule grpc_codes.dec_Some_iff)
  show "from_grpc_code n \<noteq> None \<longleftrightarrow> n \<noteq> 0 \<and> unat n \<le> 16"
    by (rule from_grpc_code_range)
  show "400 \<le> code_http_status c" and "code_http_status c < 600"
    by (cases c; simp)+
qed

lemma trailers_with_trailers [simp]: "err_trailers (with_trailers t e) = t"
  by (auto simp: err_trailers_def with_trailers_def box_headers_def hm_is_empty_def hm_new_def)

lemma response_headers_with_headers [simp]: "err_response_headers (with_headers h e) = h"
  by (auto simp: err_response_headers_def with_headers_def box_headers_def hm_is_empty_def hm_new_def)

end
