(* ===== verification/Protocol.thy ===== *)
theory Protocol
  imports ErrorModel
begin

text \<open>
  Codec formats (\<^verbatim>\<open>connectrpc/src/codec.rs\<close>) and wire-protocol detection
  (\<^verbatim>\<open>connectrpc/src/protocol.rs\<close>). The compile-time feature \<^verbatim>\<open>json\<close> is a Boolean argument of
  every function whose code it gates.
\<close>

section \<open>Codec formats\<close>

datatype codec_format = Proto | Json

definition content_type_PROTO :: string where "content_type_PROTO = ''application/proto''"
definition content_type_JSON :: string where "content_type_JSON = ''application/json''"
definition content_type_CONNECT_PROTO :: string where
  "content_type_CONNECT_PROTO = ''application/connect+proto''"
definition content_type_CONNECT_JSON :: string where
  "content_type_CONNECT_JSON = ''application/connect+json''"

lemmas content_type_defs = content_type_PROTO_def content_type_JSON_def
  content_type_CONNECT_PROTO_def content_type_CONNECT_JSON_def

fun codec_display :: "codec_format \<Rightarrow> string" where
  "codec_display Proto = ''proto''"
| "codec_display Json = ''json''"

definition codec_from_content_type :: "bool \<Rightarrow> string \<Rightarrow> codec_format option" where
  "codec_from_content_type json ct =
     (if starts_with ct content_type_PROTO \<or> starts_with ct content_type_CONNECT_PROTO then Some Proto
      else if json \<and> (starts_with ct content_type_JSON \<or> starts_with ct content_type_CONNECT_JSON)
      then Some Json
      else None)"

definition from_codec :: "bool \<Rightarrow> string \<Rightarrow> codec_format option" where
  "from_codec json s =
     (if s = ''proto'' then Some Proto
      else if json \<and> s = ''json'' then Some Json
      else None)"

fun codec_content_type :: "codec_format \<Rightarrow> string" where
  "codec_content_type Proto = content_type_PROTO"
| "codec_content_type Json = content_type_JSON"

fun codec_streaming_content_type :: "codec_format \<Rightarrow> string" where
  "codec_streaming_content_type Proto = content_type_CONNECT_PROTO"
| "codec_streaming_content_type Json = content_type_CONNECT_JSON"

definition is_streaming_content_type :: "bool \<Rightarrow> string \<Rightarrow> bool" where
  "is_streaming_content_type json ct \<longleftrightarrow>
     starts_with ct content_type_CONNECT_PROTO \<or> (json \<and> starts_with ct content_type_CONNECT_JSON)"

section \<open>Protocols\<close>

datatype protocol = Connect | Grpc | GrpcWeb

record request_protocol =
  rp_protocol :: protocol
  rp_codec_format :: codec_format
  rp_is_streaming :: bool
  rp_is_text_mode :: bool

definition grpc_subtype_to_codec :: "bool \<Rightarrow> string \<Rightarrow> codec_format option" where
  "grpc_subtype_to_codec json suffix =
     (if suffix = '''' then Some Proto
      else if suffix = ''+proto'' then Some Proto
      else if json \<and> suffix = ''+json'' then Some Json
      else None)"

definition media_type :: "string \<Rightarrow> string" where
  "media_type ct = trim (hd (split_on (CHR '';'') ct))"

definition detect_from_content_type :: "bool \<Rightarrow> string \<Rightarrow> request_protocol option" where
  "detect_from_content_type json content_type =
     (let ct = media_type content_type in
      case strip_prefix ''application/grpc-web-text'' ct of
        Some rest \<Rightarrow>
          (if rest = '''' \<or> rest = ''+proto''
           then Some \<lparr>rp_protocol = GrpcWeb, rp_codec_format = Proto,
                      rp_is_streaming = True, rp_is_text_mode = True\<rparr>
           else None)
      | None \<Rightarrow>
      (case strip_prefix ''application/grpc-web'' ct of
        Some rest \<Rightarrow>
          map_option (\<lambda>f. \<lparr>rp_protocol = GrpcWeb, rp_codec_format = f,
                           rp_is_streaming = True, rp_is_text_mode = False\<rparr>)
            (grpc_subtype_to_codec json rest)
      | None \<Rightarrow>
      (case strip_prefix ''application/grpc'' ct of
        Some rest \<Rightarrow>
          map_option (\<lambda>f. \<lparr>rp_protocol = Grpc, rp_codec_format = f,
                           rp_is_streaming = True, rp_is_text_mode = False\<rparr>)
            (grpc_subtype_to_codec json rest)
      | None \<Rightarrow>
      (case strip_prefix ''application/connect+'' ct of
        Some rest \<Rightarrow>
          map_option (\<lambda>f. \<lparr>rp_protocol = Connect, rp_codec_format = f,
                           rp_is_streaming = True, rp_is_text_mode = False\<rparr>)
            (if rest = ''proto'' then Some Proto
             else if json \<and> rest = ''json'' then Some Json
             else None)
      | None \<Rightarrow>
          (if ct = ''application/proto''
           then Some \<lparr>rp_protocol = Connect, rp_codec_format = Proto,
                      rp_is_streaming = False, rp_is_text_mode = False\<rparr>
           else if json \<and> ct = ''application/json''
           then Some \<lparr>rp_protocol = Connect, rp_codec_format = Json,
                      rp_is_streaming = False, rp_is_text_mode = False\<rparr>
           else None)))))"

definition detect :: "bool \<Rightarrow> headers \<Rightarrow> request_protocol option" where
  "detect json headers = Option.bind (hm_get_str headers ''content-type'') (detect_from_content_type json)"

fun response_content_type :: "protocol \<Rightarrow> codec_format \<Rightarrow> bool \<Rightarrow> string" where
  "response_content_type Connect Proto False = ''application/proto''"
| "response_content_type Connect Json False = ''application/json''"
| "response_content_type Connect Proto True = ''application/connect+proto''"
| "response_content_type Connect Json True = ''application/connect+json''"
| "response_content_type Grpc Proto _ = ''application/grpc+proto''"
| "response_content_type Grpc Json _ = ''application/grpc+json''"
| "response_content_type GrpcWeb Proto _ = ''application/grpc-web+proto''"
| "response_content_type GrpcWeb Json _ = ''application/grpc-web+json''"

fun timeout_header :: "protocol \<Rightarrow> string" where
  "timeout_header Connect = ''connect-timeout-ms''"
| "timeout_header Grpc = ''grpc-timeout''"
| "timeout_header GrpcWeb = ''grpc-timeout''"

fun content_encoding_header :: "protocol \<Rightarrow> string" where
  "content_encoding_header Connect = ''connect-content-encoding''"
| "content_encoding_header Grpc = ''grpc-encoding''"
| "content_encoding_header GrpcWeb = ''grpc-encoding''"

fun accept_encoding_header_name :: "protocol \<Rightarrow> string" where
  "accept_encoding_header_name Connect = ''connect-accept-encoding''"
| "accept_encoding_header_name Grpc = ''grpc-accept-encoding''"
| "accept_encoding_header_name GrpcWeb = ''grpc-accept-encoding''"

fun uses_http_status_codes :: "protocol \<Rightarrow> bool" where
  "uses_http_status_codes Connect = True"
| "uses_http_status_codes Grpc = False"
| "uses_http_status_codes GrpcWeb = False"

fun requires_http2 :: "protocol \<Rightarrow> bool" where
  "requires_http2 Grpc = True"
| "requires_http2 Connect = False"
| "requires_http2 GrpcWeb = False"

fun uses_http_trailers :: "protocol \<Rightarrow> bool" where
  "uses_http_trailers Grpc = True"
| "uses_http_trailers Connect = False"
| "uses_http_trailers GrpcWeb = False"

section \<open>What detection accepts\<close>

text \<open>
  The reference: the complete table of media types with what each one selects. The rows of the
  JSON codec exist only when the feature is on.
\<close>

definition rp_of :: "protocol \<Rightarrow> codec_format \<Rightarrow> bool \<Rightarrow> bool \<Rightarrow> request_protocol" where
  "rp_of p f s t = \<lparr>rp_protocol = p, rp_codec_format = f, rp_is_streaming = s, rp_is_text_mode = t\<rparr>"

definition content_type_table :: "bool \<Rightarrow> (string \<times> request_protocol) list" where
  "content_type_table json =
     [(''application/proto'', rp_of Connect Proto False False),
      (''application/connect+proto'', rp_of Connect Proto True False),
      (''application/grpc'', rp_of Grpc Proto True False),
      (''application/grpc+proto'', rp_of Grpc Proto True False),
      (''application/grpc-web'', rp_of GrpcWeb Proto True False),
      (''application/grpc-web+proto'', rp_of GrpcWeb Proto True False),
      (''application/grpc-web-text'', rp_of GrpcWeb Proto True True),
      (''application/grpc-web-text+proto'', rp_of GrpcWeb Proto True True)] @
     (if json then
       [(''application/json'', rp_of Connect Json False False),
        (''application/connect+json'', rp_of Connect Json True False),
        (''application/grpc+json'', rp_of Grpc Json True False),
        (''application/grpc-web+json'', rp_of GrpcWeb Json True False)]
      else [])"

lemma grpc_subtype_SomeD:
  "grpc_subtype_to_codec json r = Some f \<Longrightarrow>
     (f = Proto \<and> (r = '''' \<or> r = ''+proto'')) \<or> (json \<and> f = Json \<and> r = ''+json'')"
  by (auto simp: grpc_subtype_to_codec_def split: if_splits)

lemma detect_SomeD:
  assumes d: "detect_from_content_type json ct = Some rp"
  shows "(media_type ct, rp) \<in> set (content_type_table json)"
proof -
  note unf = detect_from_content_type_def Let_def
  consider (textmode) r where "strip_prefix ''application/grpc-web-text'' (media_type ct) = Some r"
    | (web) r where "strip_prefix ''application/grpc-web-text'' (media_type ct) = None"
        "strip_prefix ''application/grpc-web'' (media_type ct) = Some r"
    | (grpc) r where "strip_prefix ''application/grpc-web-text'' (media_type ct) = None"
        "strip_prefix ''application/grpc-web'' (media_type ct) = None"
        "strip_prefix ''application/grpc'' (media_type ct) = Some r"
    | (connect) r where "strip_prefix ''application/grpc-web-text'' (media_type ct) = None"
        "strip_prefix ''application/grpc-web'' (media_type ct) = None"
        "strip_prefix ''application/grpc'' (media_type ct) = None"
        "strip_prefix ''application/connect+'' (media_type ct) = Some r"
    | (unary) "strip_prefix ''application/grpc-web-text'' (media_type ct) = None"
        "strip_prefix ''application/grpc-web'' (media_type ct) = None"
        "strip_prefix ''application/grpc'' (media_type ct) = None"
        "strip_prefix ''application/connect+'' (media_type ct) = None"
    by (meson option.exhaust)
  then show ?thesis
  proof cases
    case textmode
    from textmode have m: "media_type ct = ''application/grpc-web-text'' @ r"
      by (simp only: strip_prefix_Some_iff)
    from d have "(r = '''' \<or> r = ''+proto'') \<and> rp = rp_of GrpcWeb Proto True True"
      unfolding unf textmode by (simp add: rp_of_def split: if_splits)
    then show ?thesis unfolding m by (auto simp: content_type_table_def)
  next
    case web
    from web have m: "media_type ct = ''application/grpc-web'' @ r"
      by (simp only: strip_prefix_Some_iff)
    from d obtain f where "grpc_subtype_to_codec json r = Some f" "rp = rp_of GrpcWeb f True False"
      unfolding unf web by (auto simp: rp_of_def)
    then show ?thesis unfolding m by (auto dest!: grpc_subtype_SomeD simp: content_type_table_def)
  next
    case grpc
    from grpc have m: "media_type ct = ''application/grpc'' @ r"
      by (simp only: strip_prefix_Some_iff)
    from d obtain f where "grpc_subtype_to_codec json r = Some f" "rp = rp_of Grpc f True False"
      unfolding unf grpc by (auto simp: rp_of_def)
    then show ?thesis unfolding m by (auto dest!: grpc_subtype_SomeD simp: content_type_table_def)
  next
    case connect
    from connect have m: "media_type ct = ''application/connect+'' @ r"
      by (simp only: strip_prefix_Some_iff)
    from d have "(r = ''proto'' \<and> rp = rp_of Connect Proto True False) \<or>
        (json \<and> r = ''json'' \<and> rp = rp_of Connect Json True False)"
      unfolding unf connect by (auto simp: rp_of_def split: if_splits)
    then show ?thesis unfolding m by (auto simp: content_type_table_def)
  next
    case unary
    from d have "(media_type ct = ''application/proto'' \<and> rp = rp_of Connect Proto False False) \<or>
        (json \<and> media_type ct = ''application/json'' \<and> rp = rp_of Connect Json False False)"
      unfolding unf unary by (auto simp: rp_of_def split: if_splits)
    then show ?thesis by (auto simp: content_type_table_def)
  qed
qed

lemma detect_hit:
  assumes "(media_type ct, rp) \<in> set (content_type_table json)"
  shows "detect_from_content_type json ct = Some rp"
proof (cases json)
  case True
  then show ?thesis using assms
    unfolding detect_from_content_type_def Let_def content_type_table_def rp_of_def
    by (auto simp: grpc_subtype_to_codec_def)
next
  case False
  then show ?thesis using assms
    unfolding detect_from_content_type_def Let_def content_type_table_def rp_of_def
    by (auto simp: grpc_subtype_to_codec_def)
qed

text \<open>
  Content negotiation accepts exactly the documented media types: the prefix-matching
  detector agrees with the table lookup on the media type (the part before the first
  semicolon, trimmed), whatever the header value and whether or not JSON is compiled in.
\<close>

theorem detect_is_table_lookup:
  "detect_from_content_type json ct = map_of (content_type_table json) (media_type ct)"
proof (cases "map_of (content_type_table json) (media_type ct)")
  case None
  then have miss: "media_type ct \<notin> fst ` set (content_type_table json)"
    by (simp add: map_of_eq_None_iff)
  have "detect_from_content_type json ct = None"
  proof (rule ccontr)
    assume "detect_from_content_type json ct \<noteq> None"
    then obtain rp where "detect_from_content_type json ct = Some rp" by blast
    then have "(media_type ct, rp) \<in> set (content_type_table json)" by (rule detect_SomeD)
    with miss show False by (metis fst_conv image_eqI)
  qed
  then show ?thesis by (simp add: None)
next
  case (Some rp)
  then have "(media_type ct, rp) \<in> set (content_type_table json)" by (rule map_of_SomeD)
  then show ?thesis by (simp add: detect_hit Some)
qed

lemma detect_params_ignored:
  assumes "CHR '';'' \<notin> set ct"
  shows "detect_from_content_type json (ct @ CHR '';'' # params) = detect_from_content_type json ct"
proof -
  have "media_type (ct @ CHR '';'' # params) = media_type ct"
    using assms by (simp add: media_type_def split_on_append_sep)
  then show ?thesis by (simp add: detect_from_content_type_def)
qed

lemma detect_response_type:
  assumes "f = Json \<longrightarrow> json"
  shows "detect_from_content_type json (response_content_type p f s) = Some (rp_of p f (s \<or> p \<noteq> Connect) False)"
proof -
  have "media_type (response_content_type p f s) = response_content_type p f s"
    by (cases p; cases f; cases s) (simp_all add: media_type_def trim_def is_ascii_space_def)
  then show ?thesis
    using assms by (intro detect_hit) (cases p; cases f; cases s; simp add: content_type_table_def)
qed

text \<open>
  The content type a response is labelled with is one the peer's detector maps back to the
  same protocol and codec, also with media-type parameters appended: only the streaming flag of
  gRPC (always enveloped) is normalised.
\<close>

theorem response_content_type_detected:
  assumes "f = Json \<longrightarrow> json" and "params_sep = [] \<or> (\<exists>ps. params_sep = CHR '';'' # ps)"
  shows "detect_from_content_type json (response_content_type p f s @ params_sep) =
           Some (rp_of p f (s \<or> p \<noteq> Connect) False)"
proof -
  have "CHR '';'' \<notin> set (response_content_type p f s)"
    by (cases p; cases f; cases s) simp_all
  with assms(2) detect_response_type [OF assms(1)] show ?thesis by (auto simp: detect_params_ignored)
qed

end
