(* ===== verification/Compression.thy ===== *)
theory Compression
  imports Protocol
begin

text \<open>
  Compression negotiation and policy (\<^verbatim>\<open>connectrpc/src/compression.rs\<close>). A
  \<^verbatim>\<open>CompressionProvider\<close> trait object is a record of its operations, so that the codecs
  themselves (flate2, zstd, user code) stay parameters. A \<^verbatim>\<open>std::io::Read\<close> is represented by
  the bytes it yields and the error, if any, that follows them; \<^verbatim>\<open>Read::take\<close> and
  \<^verbatim>\<open>read_to_end\<close> are defined on that representation. A panic of \<^verbatim>\<open>register\<close> is \<open>None\<close>.
\<close>

section \<open>Encoding names\<close>

definition is_http_token :: "string \<Rightarrow> bool" where
  "is_http_token s \<longleftrightarrow> s \<noteq> [] \<and>
     list_all (\<lambda>b. is_ascii_alphanumeric b \<or> b \<in> set ''!#$%&'' \<or> b = CHR 39 \<or> b \<in> set ''*+-.^_`|~'') s"

text \<open>\<^verbatim>\<open>HeaderValue::from_str\<close>.\<close>

definition header_value_from_str :: "string \<Rightarrow> string option" where
  "header_value_from_str s = header_to_str s"

section \<open>Bounded decompression\<close>

record reader =
  r_bytes :: bytes
  r_error :: "string option"

definition take_read_to_end :: "reader \<Rightarrow> nat \<Rightarrow> (bytes, string) result" where
  "take_read_to_end r n =
     (if n \<le> length (r_bytes r) then Ok (take n (r_bytes r))
      else (case r_error r of Some e \<Rightarrow> Err e | None \<Rightarrow> Ok (r_bytes r)))"

definition initial_decompress_capacity :: "usize \<Rightarrow> usize \<Rightarrow> usize option \<Rightarrow> usize" where
  "initial_decompress_capacity input_len multiplier max_size =
     (let capacity = max (saturating_mul input_len multiplier) 256
      in case max_size of
           Some limit \<Rightarrow> min capacity (saturating_add limit 1)
         | None \<Rightarrow> capacity)"

definition default_decompress_with_limit ::
    "(bytes \<Rightarrow> reader connect_result) \<Rightarrow> bytes \<Rightarrow> usize \<Rightarrow> bytes connect_result" where
  "default_decompress_with_limit decompressor data max_size =
     result_bind (decompressor data) (\<lambda>reader.
       (case take_read_to_end reader (min (max_size + 1) u64_MAX) of
          Err e \<Rightarrow> Err (invalid_argument (''decompression failed: '' @ e))
        | Ok buf \<Rightarrow>
            (if length buf > max_size
             then Err (resource_exhausted (''decompressed size exceeds limit '' @ show_nat max_size))
             else Ok buf)))"

section \<open>The registry\<close>

record provider =
  provider_name :: string
  provider_compress :: "bytes \<Rightarrow> bytes connect_result"
  provider_decompress_with_limit :: "bytes \<Rightarrow> usize \<Rightarrow> bytes connect_result"

record compression_registry =
  providers :: "(string \<times> provider) list"
  accept_encoding :: "string option"

definition registry_new :: compression_registry where
  "registry_new = \<lparr>providers = [], accept_encoding = None\<rparr>"

definition rebuild_accept_encoding :: "compression_registry \<Rightarrow> compression_registry" where
  "rebuild_accept_encoding r =
     (let encodings = sort (map fst (providers r))
      in r\<lparr>accept_encoding :=
             (if encodings = [] then None else header_value_from_str (join_with '', '' encodings))\<rparr>)"

definition register :: "provider \<Rightarrow> compression_registry \<Rightarrow> compression_registry option" where
  "register p r =
     (if is_http_token (provider_name p)
      then Some (rebuild_accept_encoding (r\<lparr>providers := AList.update (provider_name p) p (providers r)\<rparr>))
      else None)"

definition registry_get :: "compression_registry \<Rightarrow> string \<Rightarrow> provider option" where
  "registry_get r name = map_of (providers r) name"

definition supports :: "compression_registry \<Rightarrow> string \<Rightarrow> bool" where
  "supports r name \<longleftrightarrow> registry_get r name \<noteq> None"

definition supported_encodings :: "compression_registry \<Rightarrow> string list" where
  "supported_encodings r = map fst (providers r)"

definition accept_encoding_header :: "compression_registry \<Rightarrow> string" where
  "accept_encoding_header r =
     (case Option.bind (accept_encoding r) header_to_str of None \<Rightarrow> [] | Some s \<Rightarrow> s)"

fun first_supported :: "compression_registry \<Rightarrow> string list \<Rightarrow> string option" where
  "first_supported r [] = None"
| "first_supported r (e # es) =
     (if e = ''identity'' then first_supported r es
      else if supports r e then Some e
      else first_supported r es)"

definition negotiate_encoding ::
    "compression_registry \<Rightarrow> string option \<Rightarrow> string option \<Rightarrow> string option" where
  "negotiate_encoding r accept request_encoding =
     (case accept of
        Some a \<Rightarrow> first_supported r (map trim (split_on (CHR '','') a))
      | None \<Rightarrow>
          (case request_encoding of
             Some e \<Rightarrow> (if e \<noteq> ''identity'' \<and> supports r e then Some e else None)
           | None \<Rightarrow> None))"

definition registry_decompress_with_limit ::
    "compression_registry \<Rightarrow> string \<Rightarrow> bytes \<Rightarrow> usize \<Rightarrow> bytes connect_result" where
  "registry_decompress_with_limit r encoding data max_size =
     (if encoding = ''identity'' then
        (if length data > max_size
         then Err (resource_exhausted (''message size '' @ show_nat (length data) @
                '' exceeds limit '' @ show_nat max_size))
         else Ok data)
      else (case registry_get r encoding of
              None \<Rightarrow> Err (unimplemented (''unsupported compression encoding: '' @ encoding))
            | Some p \<Rightarrow>
                (if data = [] then Ok data
                 else provider_decompress_with_limit p data max_size)))"

definition registry_compress :: "compression_registry \<Rightarrow> string \<Rightarrow> bytes \<Rightarrow> bytes connect_result" where
  "registry_compress r encoding data =
     (if encoding = ''identity'' then Ok data
      else (case registry_get r encoding of
              None \<Rightarrow> Err (unimplemented (''unsupported compression encoding: '' @ encoding))
            | Some p \<Rightarrow> provider_compress p data))"

section \<open>The policy\<close>

record compression_policy =
  policy_enabled :: bool
  policy_min_size :: usize

definition DEFAULT_COMPRESSION_MIN_SIZE :: usize where
  "DEFAULT_COMPRESSION_MIN_SIZE = 1024"

definition policy_default :: compression_policy where
  "policy_default = \<lparr>policy_enabled = True, policy_min_size = DEFAULT_COMPRESSION_MIN_SIZE\<rparr>"

definition policy_disabled :: compression_policy where
  "policy_disabled = \<lparr>policy_enabled = False, policy_min_size = 0\<rparr>"

definition with_min_size :: "usize \<Rightarrow> compression_policy \<Rightarrow> compression_policy" where
  "with_min_size n p = p\<lparr>policy_min_size := n\<rparr>"

definition should_compress :: "compression_policy \<Rightarrow> usize \<Rightarrow> bool" where
  "should_compress p n \<longleftrightarrow> policy_enabled p \<and> n \<ge> policy_min_size p"

fun with_override :: "compression_policy \<Rightarrow> bool option \<Rightarrow> compression_policy" where
  "with_override p None = p"
| "with_override p (Some True) = \<lparr>policy_enabled = True, policy_min_size = 0\<rparr>"
| "with_override p (Some False) = policy_disabled"

section \<open>Registry invariant\<close>

definition registry_wf :: "compression_registry \<Rightarrow> bool" where
  "registry_wf r \<longleftrightarrow>
     distinct (map fst (providers r)) \<and>
     (\<forall>(k, p) \<in> set (providers r). k = provider_name p \<and> is_http_token k) \<and>
     accept_encoding r =
       (if providers r = [] then None else Some (join_with '', '' (sort (map fst (providers r)))))"

lemma token_char_visible:
  assumes "is_http_token s" and "c \<in> set s"
  shows "33 \<le> (of_char c :: nat)" and "(of_char c :: nat) < 127" and "c \<noteq> CHR '',''"
  using assms by (auto simp: is_http_token_def list_all_iff is_ascii_alphanumeric_def
      is_ascii_alpha_def is_ascii_digit_def)

lemma header_to_str_append:
  "header_to_str s = Some s \<Longrightarrow> header_to_str t = Some t \<Longrightarrow> header_to_str (s @ t) = Some (s @ t)"
  by (simp add: header_to_str_def split: if_splits)

lemma token_header_to_str: "is_http_token s \<Longrightarrow> header_to_str s = Some s"
  using token_char_visible by (fastforce simp: header_to_str_def list_all_iff)

lemma join_tokens_header:
  assumes "\<forall>s \<in> set ss. is_http_token s"
  shows "header_to_str (join_with '', '' ss) = Some (join_with '', '' ss)"
  using assms
proof (induction "'', ''" ss rule: join_with.induct)
  case 1
  then show ?case by (simp add: header_to_str_def)
next
  case (2 x)
  then show ?case by (simp add: token_header_to_str)
next
  case (3 x y ys)
  have sep: "header_to_str '', '' = Some '', ''" by (simp add: header_to_str_def)
  from 3 show ?case by (simp only: join_with.simps set_simps ball_simps)
      (blast intro: header_to_str_append token_header_to_str sep)
qed

lemma registry_wf_new [simp, inv_intros]: "registry_wf registry_new"
  by (simp add: registry_wf_def registry_new_def)

lemma alist_update_nonempty [simp]: "AList.update k v m \<noteq> []"
  by (cases m) auto

lemma registry_wf_register [inv_intros]:
  assumes "registry_wf r" and "register p r = Some r'"
  shows "registry_wf r'"
proof -
  let ?ps = "AList.update (provider_name p) p (providers r)"
  from assms(2) have tok: "is_http_token (provider_name p)"
    and r': "r' = rebuild_accept_encoding (r\<lparr>providers := ?ps\<rparr>)"
    by (auto simp: register_def split: if_splits)
  have dist: "distinct (map fst ?ps)"
    using assms(1) by (simp add: registry_wf_def distinct_update)
  have keys: "\<forall>(k, q) \<in> set ?ps. k = provider_name q \<and> is_http_token k"
    using assms(1) tok by (auto simp: registry_wf_def dest!: set_alist_update)
  then have "\<forall>s \<in> set (sort (map fst ?ps)). is_http_token s" by auto
  then have "header_value_from_str (join_with '', '' (sort (map fst ?ps))) =
      Some (join_with '', '' (sort (map fst ?ps)))"
    by (simp only: header_value_from_str_def join_tokens_header)
  moreover have "sort (map fst ?ps) \<noteq> []"
    by (metis alist_update_nonempty length_0_conv length_map length_sort)
  ultimately show ?thesis
    using dist keys by (simp add: r' registry_wf_def rebuild_accept_encoding_def Let_def)
qed

lemma register_get:
  assumes "register p r = Some r'"
  shows "registry_get r' k = (if k = provider_name p then Some p else registry_get r k)"
  using assms
  by (auto simp: register_def registry_get_def rebuild_accept_encoding_def Let_def split: if_splits)

lemma token_no_space: "is_http_token s \<Longrightarrow> c \<in> set s \<Longrightarrow> \<not> is_ascii_space c"
  using token_char_visible(1) by (fastforce simp: is_ascii_space_def)

lemma trim_no_space: "\<forall>c \<in> set s. \<not> is_ascii_space c \<Longrightarrow> trim s = s"
proof -
  assume a: "\<forall>c \<in> set s. \<not> is_ascii_space c"
  then have d: "dropWhile is_ascii_space s = s" by (cases s) auto
  from a have "\<forall>c \<in> set (rev s). \<not> is_ascii_space c" by simp
  then have "dropWhile is_ascii_space (rev s) = rev s" by (cases "rev s") auto
  with d show ?thesis by (simp add: trim_def)
qed

lemma trim_space_Cons: "is_ascii_space c \<Longrightarrow> trim (c # s) = trim s"
  by (simp add: trim_def)

lemma trim_token: "is_http_token s \<Longrightarrow> trim s = s"
  by (rule trim_no_space) (blast dest: token_no_space)

lemma split_join_tokens:
  assumes "\<forall>s \<in> set ss. is_http_token s" and "ss \<noteq> []"
  shows "map trim (split_on (CHR '','') (join_with '', '' ss)) = ss"
  using assms(2,1)
proof (induction ss rule: list_nonempty_induct)
  case (single x)
  then have "CHR '','' \<notin> set x" using token_char_visible(3) by auto
  with single show ?case by (simp add: trim_token)
next
  case (cons x xs)
  then obtain y ys where xs: "xs = y # ys" by (cases xs) auto
  from cons have c: "CHR '','' \<notin> set x" using token_char_visible(3) by auto
  have sp: "split_on (CHR '','') (CHR '' '' # t) =
      (CHR '' '' # hd (split_on (CHR '','') t)) # tl (split_on (CHR '','') t)" for t
    by (cases "split_on (CHR '','') t") auto
  have "map trim (split_on (CHR '','') (CHR '' '' # t)) = map trim (split_on (CHR '','') t)" for t
    by (simp only: sp list.map trim_space_Cons) 
      (cases "split_on (CHR '','') t"; simp add: trim_space_Cons is_ascii_space_def)
  with cons c show ?case by (simp add: xs split_on_append_sep trim_token)
qed

section \<open>Negotiation\<close>

lemma first_supported_find:
  "first_supported r es = find (\<lambda>e. e \<noteq> ''identity'' \<and> supports r e) es"
  by (induction es) auto

text \<open>
  C33. Negotiation picks the client's most preferred usable encoding: with an accept list it is
  the first listed encoding (trimmed) that is registered and is not identity, otherwise the
  request's own encoding under the same test; an answer is therefore always registered and
  never identity.
\<close>

theorem negotiate_encoding_spec:
  "negotiate_encoding r accept req =
     (case accept of
        Some a \<Rightarrow> find (\<lambda>e. e \<noteq> ''identity'' \<and> supports r e) (map trim (split_on (CHR '','') a))
      | None \<Rightarrow> find (\<lambda>e. e \<noteq> ''identity'' \<and> supports r e) (case req of None \<Rightarrow> [] | Some e \<Rightarrow> [e])) \<and>
   (\<forall>e. negotiate_encoding r accept req = Some e \<longrightarrow> supports r e \<and> e \<noteq> ''identity'')"
  by (auto simp: negotiate_encoding_def first_supported_find find_Some_iff split: option.splits)

theorem negotiate_encoding_spec_witness:
  "negotiate_encoding
     \<lparr>providers = [(''gzip'', \<lparr>provider_name = ''gzip'', provider_compress = Ok,
        provider_decompress_with_limit = (\<lambda>d m. Ok d)\<rparr>)], accept_encoding = Some ''gzip''\<rparr>
     (Some ''br, identity, gzip'') None = Some ''gzip''"
  unfolding negotiate_encoding_spec [THEN conjunct1]
  by (simp add: supports_def registry_get_def trim_def is_ascii_space_def)

lemma advertised_header:
  assumes "registry_wf r" and "providers r \<noteq> []"
  shows "accept_encoding r = Some (accept_encoding_header r)"
    and "header_to_str (accept_encoding_header r) = Some (accept_encoding_header r)"
    and "map trim (split_on (CHR '','') (accept_encoding_header r)) = sort (supported_encodings r)"
proof -
  let ?es = "sort (map fst (providers r))"
  have tok: "\<forall>s \<in> set ?es. is_http_token s"
    using assms(1) by (auto simp: registry_wf_def)
  have ne: "?es \<noteq> []" using assms(2) by (metis length_0_conv length_map length_sort)
  have hdr: "accept_encoding_header r = join_with '', '' ?es"
    using assms tok by (simp add: accept_encoding_header_def registry_wf_def join_tokens_header)
  show "map trim (split_on (CHR '','') (accept_encoding_header r)) = sort (supported_encodings r)"
    unfolding hdr supported_encodings_def by (rule split_join_tokens [OF tok ne])
  show "header_to_str (accept_encoding_header r) = Some (accept_encoding_header r)"
    unfolding hdr by (rule join_tokens_header [OF tok])
  show "accept_encoding r = Some (accept_encoding_header r)"
    using assms by (simp add: registry_wf_def hdr)
qed

lemma negotiated_both:
  assumes "registry_wf r" and "providers r \<noteq> []"
    and "negotiate_encoding r' (Some (accept_encoding_header r)) req = Some e"
  shows "supports r e" and "supports r' e" and "e \<noteq> ''identity''" and "is_http_token e"
proof -
  from assms(3) have e: "e \<in> set (sort (supported_encodings r))" "supports r' e" "e \<noteq> ''identity''"
    by (auto simp: negotiate_encoding_def first_supported_find advertised_header(3) [OF assms(1,2)] dest: find_SomeD)
  then show "supports r e" "supports r' e" "e \<noteq> ''identity''"
    by (auto simp: supports_def registry_get_def supported_encodings_def map_of_eq_None_iff)
  show "is_http_token e" using e(1) assms(1) by (auto simp: supported_encodings_def registry_wf_def)
qed

definition sample_provider :: "string \<Rightarrow> provider" where
  "sample_provider n = \<lparr>provider_name = n, provider_compress = Ok,
     provider_decompress_with_limit = default_decompress_with_limit
       (\<lambda>d. Ok \<lparr>r_bytes = d, r_error = None\<rparr>)\<rparr>"

definition sample_registry :: compression_registry where
  "sample_registry = the (Option.bind (register (sample_provider ''zstd'') registry_new)
     (register (sample_provider ''gzip'')))"

lemma sample_registry_wf: "registry_wf sample_registry"
proof -
  obtain r1 where r1: "register (sample_provider ''zstd'') registry_new = Some r1"
    by (simp add: register_def sample_provider_def is_http_token_def is_ascii_alphanumeric_def
        is_ascii_alpha_def)
  obtain r2 where r2: "register (sample_provider ''gzip'') r1 = Some r2"
    by (simp add: register_def sample_provider_def is_http_token_def is_ascii_alphanumeric_def
        is_ascii_alpha_def)
  have "registry_wf r1" by (rule registry_wf_register [OF registry_wf_new r1])
  then have "registry_wf r2" by (rule registry_wf_register [OF _ r2])
  then show ?thesis by (simp add: sample_registry_def r1 r2)
qed

lemma sample_registry_providers:
  "map fst (providers sample_registry) = [''zstd'', ''gzip'']"
  by (simp add: sample_registry_def register_def sample_provider_def is_http_token_def
      is_ascii_alphanumeric_def is_ascii_alpha_def rebuild_accept_encoding_def registry_new_def
      Let_def)

section \<open>Decompression is bounded\<close>

text \<open>
  The contract a decompressor gives its callers: what it returns fits the limit. It is what
  the message readers rely on, and it holds for the trait's default implementation whatever
  the reader of the codec yields.
\<close>

locale bounded_decompressor =
  fixes dec :: "bytes \<Rightarrow> usize \<Rightarrow> bytes connect_result"
  assumes dec_bounded: "dec d m = Ok b \<Longrightarrow> length b \<le> m"
begin

lemma over_limit_rejected: "m < length b \<Longrightarrow> dec d m \<noteq> Ok b"
  using dec_bounded by fastforce

end

interpretation default_reader: bounded_decompressor "default_decompress_with_limit decompressor"
  for decompressor
proof unfold_locales
  fix d m b
  assume "default_decompress_with_limit decompressor d m = Ok b"
  then obtain rd where rd: "(case take_read_to_end rd (min (m + 1) u64_MAX) of
      Err e \<Rightarrow> Err (invalid_argument (''decompression failed: '' @ e))
    | Ok buf \<Rightarrow> if length buf > m
        then Err (resource_exhausted (''decompressed size exceeds limit '' @ show_nat m)) else Ok buf) = Ok b"
    unfolding default_decompress_with_limit_def result_bind_Ok_iff by blast
  then show "length b \<le> m"
    by (cases "take_read_to_end rd (min (m + 1) u64_MAX)") (auto split: if_splits)
qed

definition registry_bounded :: "compression_registry \<Rightarrow> bool" where
  "registry_bounded r \<longleftrightarrow>
     (\<forall>(k, p) \<in> set (providers r). bounded_decompressor (provider_decompress_with_limit p))"

lemma registry_decompress_bounded:
  assumes "registry_bounded r" and "registry_decompress_with_limit r enc d m = Ok b"
  shows "length b \<le> m"
proof (cases "enc = ''identity''")
  case True
  with assms(2) show ?thesis by (auto simp: registry_decompress_with_limit_def split: if_splits)
next
  case False
  with assms(2) obtain p where p: "map_of (providers r) enc = Some p"
    and res: "(if d = [] then Ok d else provider_decompress_with_limit p d m) = Ok b"
    by (auto simp: registry_decompress_with_limit_def registry_get_def split: option.splits)
  from p have "(enc, p) \<in> set (providers r)" by (rule map_of_SomeD)
  with assms(1) have "bounded_decompressor (provider_decompress_with_limit p)"
    by (auto simp: registry_bounded_def)
  with res show ?thesis by (auto dest: bounded_decompressor.dec_bounded split: if_splits)
qed

text \<open>
  The trait's default decompression stops a compression bomb and loses nothing else: with
  \<open>Read::take\<close> at one byte past the limit, output longer than the limit is
  \<open>ResourceExhausted\<close> (whether or not the stream would fail later), a codec failure within
  the limit is \<open>InvalidArgument\<close>, and otherwise the complete output is returned.
\<close>

theorem default_decompress_classified:
  assumes "decompressor data = Ok rd" and "max_size < u64_MAX"
  shows "default_decompress_with_limit decompressor data max_size =
     (if length (r_bytes rd) > max_size
      then Err (resource_exhausted (''decompressed size exceeds limit '' @ show_nat max_size))
      else case r_error rd of
             Some e \<Rightarrow> Err (invalid_argument (''decompression failed: '' @ e))
           | None \<Rightarrow> Ok (r_bytes rd))"
  using assms
  by (auto simp: default_decompress_with_limit_def take_read_to_end_def split: option.splits)

lemma initial_capacity_bounds:
  "initial_decompress_capacity n k (Some limit) \<le> limit + 1"
  "min 256 (min (limit + 1) usize_MAX) \<le> initial_decompress_capacity n k (Some limit)"
  by (auto simp: initial_decompress_capacity_def saturating_add_def Let_def)

end
