(* ===== verification/Body.thy ===== *)
theory Body
  imports Compression
begin

text \<open>
  Encoded message bodies (\<^verbatim>\<open>EncodedBody\<close> of \<^verbatim>\<open>connectrpc/src/response.rs\<close>): a message as one
  buffer or as several segments that concatenate to it, and the merging of small segments.
\<close>

datatype encoded_body = Contiguous bytes | Segmented "bytes list"

fun body_from_segments :: "bytes list \<Rightarrow> encoded_body" where
  "body_from_segments [] = Contiguous []"
| "body_from_segments [s] = Contiguous s"
| "body_from_segments (s # t # ss) = Segmented (s # t # ss)"

fun body_len :: "encoded_body \<Rightarrow> usize" where
  "body_len (Contiguous b) = length b"
| "body_len (Segmented v) = sum_list (map length v)"

definition body_is_empty :: "encoded_body \<Rightarrow> bool" where
  "body_is_empty b \<longleftrightarrow> body_len b = 0"

fun body_segments :: "encoded_body \<Rightarrow> bytes list" where
  "body_segments (Contiguous b) = [b]"
| "body_segments (Segmented v) = v"

fun into_contiguous :: "encoded_body \<Rightarrow> bytes" where
  "into_contiguous (Contiguous b) = b"
| "into_contiguous (Segmented v) = fold (\<lambda>segment out. out @ segment) v []"

definition worth_segmenting :: "usize \<Rightarrow> usize \<Rightarrow> usize \<Rightarrow> bool" where
  "worth_segmenting sz backing_len min_segment \<longleftrightarrow> sz \<ge> min_segment \<and> saturating_mul sz 2 \<ge> backing_len"

text \<open>The loop of \<^verbatim>\<open>coalesce_small_runs\<close>, with its \<^verbatim>\<open>pending\<close> run.\<close>

fun coalesce_loop :: "usize \<Rightarrow> bytes list \<Rightarrow> bytes \<Rightarrow> bytes list \<Rightarrow> bytes list" where
  "coalesce_loop min_segment out pending [] = (if pending \<noteq> [] then out @ [pending] else out)"
| "coalesce_loop min_segment out pending (segment # segments) =
     (if length segment \<ge> min_segment
      then coalesce_loop min_segment
             ((if pending \<noteq> [] then out @ [pending] else out) @ [segment]) [] segments
      else coalesce_loop min_segment out (pending @ segment) segments)"

definition coalesce_small_runs :: "bytes list \<Rightarrow> usize \<Rightarrow> bytes list" where
  "coalesce_small_runs segments min_segment =
     (if length segments < 2 then segments else coalesce_loop min_segment [] [] segments)"

lemma fold_append_concat: "fold (\<lambda>segment out. out @ segment) v acc = acc @ concat v"
  by (induction v arbitrary: acc) auto

lemma into_contiguous_concat: "into_contiguous b = concat (body_segments b)"
  by (cases b) (simp_all add: fold_append_concat)

lemma body_len_contiguous: "body_len b = length (into_contiguous b)"
  by (cases b) (simp_all add: fold_append_concat length_concat)

lemma into_contiguous_from_segments [simp]: "into_contiguous (body_from_segments ss) = concat ss"
  by (induction ss rule: body_from_segments.induct) (simp_all add: fold_append_concat)

lemma coalesce_loop_concat:
  "concat (coalesce_loop m out pending ss) = concat out @ pending @ concat ss"
  by (induction ss arbitrary: out pending) auto

lemma coalesce_concat: "concat (coalesce_small_runs ss m) = concat ss"
  by (simp add: coalesce_small_runs_def coalesce_loop_concat)

text \<open>
  After merging, no two neighbours are both below the threshold, and every large segment
  survives as it was.
\<close>

fun no_small_neighbours :: "usize \<Rightarrow> bytes list \<Rightarrow> bool" where
  "no_small_neighbours m (s # t # ss) \<longleftrightarrow> \<not> (length s < m \<and> length t < m) \<and> no_small_neighbours m (t # ss)"
| "no_small_neighbours m _ \<longleftrightarrow> True"

fun last_large :: "usize \<Rightarrow> bytes list \<Rightarrow> bool" where
  "last_large m [] \<longleftrightarrow> True"
| "last_large m ss \<longleftrightarrow> length (last ss) \<ge> m"

lemma no_small_neighbours_snoc:
  "no_small_neighbours m (ss @ [x]) \<longleftrightarrow>
     no_small_neighbours m ss \<and> (ss = [] \<or> \<not> (length (last ss) < m \<and> length x < m))"
  by (induction m ss rule: no_small_neighbours.induct) auto

lemma last_large_iff: "last_large m ss \<longleftrightarrow> ss = [] \<or> m \<le> length (last ss)"
  by (cases ss) auto

lemma last_large_snoc [simp]: "last_large m (ss @ [x]) \<longleftrightarrow> m \<le> length x"
  by (simp add: last_large_iff)

lemma coalesce_loop_no_small:
  assumes "no_small_neighbours m out" and "last_large m out"
  shows "no_small_neighbours m (coalesce_loop m out pending ss)"
  using assms
proof (induction ss arbitrary: out pending)
  case Nil
  then show ?case by (auto simp: no_small_neighbours_snoc last_large_iff)
next
  case (Cons s ss)
  show ?case
  proof (cases "m \<le> length s")
    case True
    let ?out = "(if pending \<noteq> [] then out @ [pending] else out) @ [s]"
    have "no_small_neighbours m ?out" "last_large m ?out"
      using Cons.prems True by (auto simp: no_small_neighbours_snoc last_large_iff)
    then have "no_small_neighbours m (coalesce_loop m ?out [] ss)" by (rule Cons.IH)
    with True show ?thesis by simp
  next
    case False
    with Cons show ?thesis by simp
  qed
qed

lemma coalesce_loop_keeps_large:
  "s \<in> set out \<or> (s \<in> set ss \<and> m \<le> length s) \<Longrightarrow> s \<in> set (coalesce_loop m out pending ss)"
  by (induction ss arbitrary: out pending) auto

text \<open>
  Merging small runs of segments keeps the message: the segments concatenate to the same
  bytes, every segment of at least the threshold stays a segment of its own (it is not copied),
  and no two neighbouring segments remain that could still be merged.
\<close>

theorem coalesce_small_runs_correct:
  "concat (coalesce_small_runs ss m) = concat ss \<and>
   (\<forall>s \<in> set ss. m \<le> length s \<longrightarrow> s \<in> set (coalesce_small_runs ss m)) \<and>
   no_small_neighbours m (coalesce_small_runs ss m)"
proof (intro conjI ballI impI)
  show "concat (coalesce_small_runs ss m) = concat ss" by (rule coalesce_concat)
  show "s \<in> set (coalesce_small_runs ss m)" if "s \<in> set ss" "m \<le> length s" for s
    using that by (auto simp: coalesce_small_runs_def coalesce_loop_keeps_large)
  show "no_small_neighbours m (coalesce_small_runs ss m)"
  proof (cases "length ss < 2")
    case True
    then have "ss = [] \<or> (\<exists>s. ss = [s])" by (cases ss; cases "tl ss") auto
    then show ?thesis by (auto simp: coalesce_small_runs_def)
  next
    case False
    then show ?thesis by (simp add: coalesce_small_runs_def coalesce_loop_no_small)
  qed
qed

end
