(* ===== verification/Incremental.thy ===== *)
theory Incremental
  imports Prelude
begin

text \<open>
  The interface of an incremental frame decoder, the way the request-body reader and the
  client's response readers use one: a state is fed one transport frame at a time and returns
  an item (keeping the rest of the frame for the next call), asks for more, or fails. The
  contract says that it implements a decoder over the whole byte string: what it has buffered
  (\<open>pend\<close>) followed by the frame is decoded as one buffer. From the contract, the items
  produced do not depend on how the transport cuts the byte stream into frames.
\<close>

type_synonym ('s, 'i, 'x) feeder = "'s \<Rightarrow> bytes \<Rightarrow> ('i option, 'x) result \<times> 's \<times> bytes"

text \<open>
  The caller's loop over one frame: feed until the frame is exhausted. A frame of \<open>n\<close> bytes
  holds at most \<open>n\<close> items, so the fuel \<open>n + 1\<close> used by \<open>feed_frames\<close> is enough.
\<close>

fun drain :: "('s, 'i, 'x) feeder \<Rightarrow> nat \<Rightarrow> 's \<Rightarrow> bytes \<Rightarrow> 'i list \<times> ('s, 'x) result" where
  "drain f 0 s frame = ([], Ok s)"
| "drain f (Suc n) s frame =
     (case f s frame of
        (Err x, s', frame') \<Rightarrow> ([], Err x)
      | (Ok None, s', frame') \<Rightarrow> ([], Ok s')
      | (Ok (Some i), s', frame') \<Rightarrow> (let (is, r) = drain f n s' frame' in (i # is, r)))"

fun feed_frames :: "('s, 'i, 'x) feeder \<Rightarrow> 's \<Rightarrow> bytes list \<Rightarrow> 'i list \<times> ('s, 'x) result" where
  "feed_frames f s [] = ([], Ok s)"
| "feed_frames f s (frame # frames) =
     (case drain f (Suc (length frame)) s frame of
        (is, Err x) \<Rightarrow> (is, Err x)
      | (is, Ok s') \<Rightarrow> (let (js, r) = feed_frames f s' frames in (is @ js, r)))"

text \<open>The reference: decode the whole buffer, item after item.\<close>

fun decode_stream :: "(bytes \<Rightarrow> (('i \<times> bytes) option, 'x) result) \<Rightarrow> nat \<Rightarrow> bytes \<Rightarrow> 'i list \<times> (bytes, 'x) result" where
  "decode_stream dec 0 w = ([], Ok w)"
| "decode_stream dec (Suc n) w =
     (case dec w of
        Err x \<Rightarrow> ([], Err x)
      | Ok None \<Rightarrow> ([], Ok w)
      | Ok (Some (i, rest)) \<Rightarrow> (let (is, r) = decode_stream dec n rest in (i # is, r)))"

definition decode_all :: "(bytes \<Rightarrow> (('i \<times> bytes) option, 'x) result) \<Rightarrow> bytes \<Rightarrow> 'i list \<times> (bytes, 'x) result" where
  "decode_all dec w = decode_stream dec (Suc (length w)) w"

locale frame_decoder =
  fixes dec :: "bytes \<Rightarrow> (('i \<times> bytes) option, 'x) result"
  assumes dec_err_stable: "dec w = Err x \<Longrightarrow> dec (w @ v) = Err x"
    and dec_item_stable: "dec w = Ok (Some (i, r)) \<Longrightarrow> dec (w @ v) = Ok (Some (i, r @ v))"
    and dec_item_shrinks: "dec w = Ok (Some (i, r)) \<Longrightarrow> length r < length w"
begin

lemma decode_stream_enough:
  "length w < n \<Longrightarrow> length w < m \<Longrightarrow> decode_stream dec n w = decode_stream dec m w"
proof (induction n arbitrary: w m)
  case 0
  then show ?case by simp
next
  case (Suc n)
  then obtain m' where m: "m = Suc m'" by (cases m) auto
  show ?case
  proof (cases "dec w")
    case (Err x)
    then show ?thesis by (simp add: m)
  next
    case (Ok o')
    show ?thesis
    proof (cases o')
      case None
      with Ok show ?thesis by (simp add: m)
    next
      case (Some p)
      obtain i r where p: "p = (i, r)" by (cases p)
      with Ok Some have "length r < length w" by (simp add: dec_item_shrinks)
      with Suc.prems m have "decode_stream dec n r = decode_stream dec m' r"
        by (intro Suc.IH) auto
      with Ok Some p show ?thesis by (simp add: m)
    qed
  qed
qed

lemma decode_all_Err: "dec w = Err x \<Longrightarrow> decode_all dec w = ([], Err x)"
  by (simp add: decode_all_def)

lemma decode_all_more: "dec w = Ok None \<Longrightarrow> decode_all dec w = ([], Ok w)"
  by (simp add: decode_all_def)

lemma decode_all_item:
  assumes "dec w = Ok (Some (i, r))"
  shows "decode_all dec w = (i # fst (decode_all dec r), snd (decode_all dec r))"
proof -
  have "length r < length w" using assms by (rule dec_item_shrinks)
  then have "decode_stream dec (length w) r = decode_all dec r"
    unfolding decode_all_def by (intro decode_stream_enough) auto
  then show ?thesis using assms by (simp add: decode_all_def case_prod_beta)
qed

lemma decode_all_append:
  "decode_all dec (w @ v) =
     (case decode_all dec w of
        (is, Err x) \<Rightarrow> (is, Err x)
      | (is, Ok rest) \<Rightarrow> (is @ fst (decode_all dec (rest @ v)), snd (decode_all dec (rest @ v))))"
proof (induction "length w" arbitrary: w rule: less_induct)
  case less
  show ?case
  proof (cases "dec w")
    case (Err x)
    then show ?thesis by (simp add: decode_all_Err dec_err_stable)
  next
    case (Ok o')
    show ?thesis
    proof (cases o')
      case None
      with Ok show ?thesis by (simp add: decode_all_more)
    next
      case (Some p)
      obtain i r where p: "p = (i, r)" by (cases p)
      with Ok Some have d: "dec w = Ok (Some (i, r))" by simp
      then have dv: "dec (w @ v) = Ok (Some (i, r @ v))" by (rule dec_item_stable)
      from d have "length r < length w" by (rule dec_item_shrinks)
      from less [OF this] show ?thesis
        by (simp add: decode_all_item [OF d] decode_all_item [OF dv] split: prod.splits result.splits)
    qed
  qed
qed

end

locale incremental_decoder = frame_decoder dec
  for dec :: "bytes \<Rightarrow> (('i \<times> bytes) option, 'x) result" +
  fixes feeder :: "('s, 'i, 'x) feeder" and pend :: "'s \<Rightarrow> bytes" and inv :: "'s \<Rightarrow> bool"
  assumes inv_partial: "inv s \<Longrightarrow> dec (pend s) = Ok None"
    and feed_err: "inv s \<Longrightarrow> dec (pend s @ frame) = Err x \<Longrightarrow> fst (feeder s frame) = Err x"
    and feed_more: "inv s \<Longrightarrow> dec (pend s @ frame) = Ok None \<Longrightarrow>
      \<exists>s'. feeder s frame = (Ok None, s', []) \<and> inv s' \<and> pend s' = pend s @ frame"
    and feed_item: "inv s \<Longrightarrow> dec (pend s @ frame) = Ok (Some (i, r)) \<Longrightarrow>
      \<exists>s'. feeder s frame = (Ok (Some i), s', r) \<and> inv s' \<and> pend s' = [] \<and> length r < length frame"
begin

lemma drain_refines:
  assumes "inv s" and "length frame < n"
  shows "fst (drain feeder n s frame) = fst (decode_all dec (pend s @ frame)) \<and>
    result_map pend (snd (drain feeder n s frame)) = snd (decode_all dec (pend s @ frame)) \<and>
    (\<forall>s'. snd (drain feeder n s frame) = Ok s' \<longrightarrow> inv s')"
  using assms
proof (induction n arbitrary: s frame)
  case 0
  then show ?case by simp
next
  case (Suc n)
  show ?case
  proof (cases "dec (pend s @ frame)")
    case (Err x)
    with Suc.prems have "fst (feeder s frame) = Err x" by (simp add: feed_err)
    with Err show ?thesis by (cases "feeder s frame") (simp add: decode_all_Err)
  next
    case (Ok o')
    show ?thesis
    proof (cases o')
      case None
      with Ok Suc.prems obtain s' where "feeder s frame = (Ok None, s', [])" "inv s'" "pend s' = pend s @ frame"
        using feed_more by blast
      with Ok None show ?thesis by (simp add: decode_all_more)
    next
      case (Some p)
      obtain i r where p: "p = (i, r)" by (cases p)
      with Ok Some have d: "dec (pend s @ frame) = Ok (Some (i, r))" by simp
      with Suc.prems obtain s' where f: "feeder s frame = (Ok (Some i), s', r)" and inv': "inv s'"
        and pe: "pend s' = []" and len: "length r < length frame"
        using feed_item by blast
      from len Suc.prems(2) have "length r < n" by simp
      from Suc.IH [OF inv' this] pe show ?thesis
        by (simp add: f decode_all_item [OF d] case_prod_beta)
    qed
  qed
qed

lemma feed_frames_refines:
  assumes "inv s"
  shows "fst (feed_frames feeder s frames) = fst (decode_all dec (pend s @ concat frames)) \<and>
    result_map pend (snd (feed_frames feeder s frames)) = snd (decode_all dec (pend s @ concat frames)) \<and>
    (\<forall>s'. snd (feed_frames feeder s frames) = Ok s' \<longrightarrow> inv s')"
  using assms
proof (induction frames arbitrary: s)
  case Nil
  then show ?case by (simp add: decode_all_more inv_partial)
next
  case (Cons frame frames)
  obtain is1 r1 where d1: "drain feeder (Suc (length frame)) s frame = (is1, r1)"
    by (cases "drain feeder (Suc (length frame)) s frame")
  obtain js rr where da: "decode_all dec (pend s @ frame) = (js, rr)"
    by (cases "decode_all dec (pend s @ frame)")
  have ref: "is1 = js" "result_map pend r1 = rr" "\<forall>s'. r1 = Ok s' \<longrightarrow> inv s'"
    using drain_refines [OF Cons.prems, of frame "Suc (length frame)", unfolded d1 da] by simp_all
  show ?case
  proof (cases r1)
    case (Ok s')
    then have rr: "rr = Ok (pend s')" and inv': "inv s'" using ref by auto
    from Cons.IH [OF inv'] show ?thesis
      using ref by (simp del: drain.simps add: d1 Ok rr da decode_all_append [of "pend s @ frame" "concat frames", simplified]
          case_prod_beta)
  next
    case (Err x)
    then have "rr = Err x" using ref by auto
    then show ?thesis
      using ref by (simp del: drain.simps add: d1 Err da decode_all_append [of "pend s @ frame" "concat frames", simplified])
  qed
qed

text \<open>Two ways to cut the same bytes into frames give the same items and the same outcome.\<close>

lemma chunking_irrelevant:
  assumes "inv s" and "concat frames = concat frames'"
  shows "fst (feed_frames feeder s frames) = fst (feed_frames feeder s frames') \<and>
    result_map pend (snd (feed_frames feeder s frames)) = result_map pend (snd (feed_frames feeder s frames'))"
  using feed_frames_refines [OF assms(1), of frames] feed_frames_refines [OF assms(1), of frames']
  by (simp add: assms(2))

end

end
