(* ===== verification/Envelope.thy ===== *)
theory Envelope
  imports Body Incremental
begin

unbundle bit_operations_syntax

text \<open>
  Envelope framing (\<^verbatim>\<open>connectrpc/src/envelope.rs\<close>): the five-byte header, the contiguous
  decoder, the incremental \<^verbatim>\<open>EnvelopeAssembler\<close> with its per-stream asm_slab and growing body
  buffer, the request-stream decoder built on it, and the encoder with its chaining of large
  payloads. A \<^verbatim>\<open>&mut\<close> argument is returned updated; the assembler's asm_slab keeps its contents
  (the pooled block behind it is not observable), its body buffer contents and capacity.
\<close>

section \<open>Envelopes\<close>

definition flags_DATA :: byte where "flags_DATA = 0x00"
definition flags_COMPRESSED :: byte where "flags_COMPRESSED = 0x01"
definition flags_END_STREAM :: byte where "flags_END_STREAM = 0x02"
definition flags_GRPC_WEB_TRAILER :: byte where "flags_GRPC_WEB_TRAILER = 0x80"

lemmas flags_defs = flags_DATA_def flags_COMPRESSED_def flags_END_STREAM_def
  flags_GRPC_WEB_TRAILER_def

definition HEADER_SIZE :: usize where "HEADER_SIZE = 5"
definition MIN_CHAIN_SIZE :: usize where "MIN_CHAIN_SIZE = 16 * 1024"
definition READ_SLAB_SIZE :: usize where "READ_SLAB_SIZE = 8 * 1024"

lemmas size_defs = HEADER_SIZE_def MIN_CHAIN_SIZE_def READ_SLAB_SIZE_def

record envelope =
  env_flags :: byte
  env_data :: bytes

definition data_envelope :: "bytes \<Rightarrow> envelope" where
  "data_envelope d = \<lparr>env_flags = flags_DATA, env_data = d\<rparr>"

definition compressed_envelope :: "bytes \<Rightarrow> envelope" where
  "compressed_envelope d = \<lparr>env_flags = flags_COMPRESSED, env_data = d\<rparr>"

definition end_stream_envelope :: "bytes \<Rightarrow> envelope" where
  "end_stream_envelope d = \<lparr>env_flags = flags_END_STREAM, env_data = d\<rparr>"

definition is_compressed :: "envelope \<Rightarrow> bool" where
  "is_compressed e \<longleftrightarrow> env_flags e AND flags_COMPRESSED \<noteq> 0"

definition is_end_stream :: "envelope \<Rightarrow> bool" where
  "is_end_stream e \<longleftrightarrow> env_flags e AND flags_END_STREAM \<noteq> 0"

section \<open>Writing\<close>

definition envelope_length :: "usize \<Rightarrow> u32 connect_result" where
  "envelope_length len =
     ok_or (u32_try_from len)
       (resource_exhausted (''envelope payload '' @ show_nat len @ '' bytes exceeds u32::MAX''))"

definition put_envelope_header :: "byte \<Rightarrow> u32 \<Rightarrow> bytes \<Rightarrow> bytes" where
  "put_envelope_header flag len dst = dst @ [flag] @ u32_to_be_bytes len"

definition write_envelope :: "byte \<Rightarrow> bytes \<Rightarrow> bytes \<Rightarrow> bytes connect_result" where
  "write_envelope flag data dst =
     result_bind (envelope_length (length data)) (\<lambda>len. Ok (put_envelope_header flag len dst @ data))"

definition write_envelope_chained ::
    "byte \<Rightarrow> encoded_body \<Rightarrow> bytes \<Rightarrow> bytes list \<Rightarrow> usize \<Rightarrow> (bytes \<times> bytes list) connect_result" where
  "write_envelope_chained flag body dst chained min_chain =
     (let total = body_len body in
      result_bind (envelope_length total) (\<lambda>declared.
        if total < min_chain
        then Ok (fold (\<lambda>segment d. d @ segment) (body_segments body) (put_envelope_header flag declared dst),
                 chained)
        else Ok (put_envelope_header flag declared dst,
                 (case body of
                    Contiguous bytes \<Rightarrow> chained @ [bytes]
                  | Segmented segments \<Rightarrow> chained @ segments))))"

text \<open>\<^verbatim>\<open>Envelope::encode\<close> and \<^verbatim>\<open>encode_body_parts\<close>; their \<^verbatim>\<open>expect\<close> panic is \<open>None\<close>.\<close>

definition envelope_encode :: "envelope \<Rightarrow> bytes option" where
  "envelope_encode e =
     (case write_envelope (env_flags e) (env_data e) [] of Ok b \<Rightarrow> Some b | Err _ \<Rightarrow> None)"

definition encode_body_parts :: "byte \<Rightarrow> encoded_body \<Rightarrow> usize \<Rightarrow> (bytes \<times> bytes list) option" where
  "encode_body_parts flag body min_chain =
     (case write_envelope_chained flag body [] [] min_chain of Ok p \<Rightarrow> Some p | Err _ \<Rightarrow> None)"

section \<open>The contiguous decoder\<close>

definition decode_contiguous :: "bytes \<Rightarrow> usize \<Rightarrow> envelope option connect_result \<times> bytes" where
  "decode_contiguous buf max_size =
     (if length buf < HEADER_SIZE then (Ok None, buf)
      else
        (let flag = buf ! 0;
             len = unat (u32_from_be_bytes (buf ! 1) (buf ! 2) (buf ! 3) (buf ! 4))
         in if len > max_size
            then (Err (resource_exhausted (''message size '' @ show_nat len @ '' exceeds limit '' @
                    show_nat max_size)), buf)
            else if length buf < saturating_add HEADER_SIZE len then (Ok None, buf)
            else (Ok (Some \<lparr>env_flags = flag, env_data = take len (drop HEADER_SIZE buf)\<rparr>),
                  drop len (drop HEADER_SIZE buf))))"

definition envelope_decode :: "bytes \<Rightarrow> envelope option connect_result \<times> bytes" where
  "envelope_decode buf = decode_contiguous buf usize_MAX"

definition decode_with_limit :: "bytes \<Rightarrow> usize \<Rightarrow> envelope option connect_result \<times> bytes" where
  "decode_with_limit buf max_size = decode_contiguous buf max_size"

definition decode_bytes_with_limit :: "bytes \<Rightarrow> usize \<Rightarrow> envelope option connect_result \<times> bytes" where
  "decode_bytes_with_limit buf max_size = decode_contiguous buf max_size"

section \<open>The assembler\<close>

record assembler =
  asm_max_message_size :: usize
  asm_grpc_web_trailer_limit :: "usize option"
  asm_header :: bytes
  asm_header_len :: usize
  asm_expected :: usize
  asm_body :: bytes
  asm_body_capacity :: usize
  asm_slab :: "bytes option"

definition assembler_new :: "usize \<Rightarrow> assembler" where
  "assembler_new m = \<lparr>asm_max_message_size = m, asm_grpc_web_trailer_limit = None,
     asm_header = replicate HEADER_SIZE 0, asm_header_len = 0, asm_expected = 0,
     asm_body = [], asm_body_capacity = 0, asm_slab = None\<rparr>"

definition with_grpc_web_trailer_limit :: "usize \<Rightarrow> assembler \<Rightarrow> assembler" where
  "with_grpc_web_trailer_limit limit a = a\<lparr>asm_grpc_web_trailer_limit := Some limit\<rparr>"

definition has_partial :: "assembler \<Rightarrow> bool" where
  "has_partial a \<longleftrightarrow> asm_header_len a > 0"

definition fill_slab :: "assembler \<Rightarrow> bytes \<Rightarrow> bytes option \<times> assembler \<times> bytes" where
  "fill_slab a frame =
     (let s = (case asm_slab a of None \<Rightarrow> [] | Some s \<Rightarrow> s);
          n = min (asm_expected a - length s) (length frame);
          s' = s @ take n frame;
          frame' = drop n frame
      in if length s' = asm_expected a
         then (Some (take (asm_expected a) s'), a\<lparr>asm_slab := Some (drop (asm_expected a) s')\<rparr>, frame')
         else (None, a\<lparr>asm_slab := Some s'\<rparr>, frame'))"

definition fill_body :: "assembler \<Rightarrow> bytes \<Rightarrow> bytes option \<times> assembler \<times> bytes" where
  "fill_body a frame =
     (let n = min (asm_expected a - length (asm_body a)) (length frame);
          cap = (if asm_body_capacity a - length (asm_body a) < n
                 then length (asm_body a) +
                   (min (asm_expected a) (max (saturating_mul (asm_body_capacity a) 2) (length (asm_body a) + n))
                    - length (asm_body a))
                 else asm_body_capacity a);
          body' = asm_body a @ take n frame;
          frame' = drop n frame
      in if length body' < asm_expected a
         then (None, a\<lparr>asm_body := body', asm_body_capacity := cap\<rparr>, frame')
         else (Some body', a\<lparr>asm_body := [], asm_body_capacity := 0\<rparr>, frame'))"

definition header_limit :: "usize \<Rightarrow> usize option \<Rightarrow> byte \<Rightarrow> string \<times> usize" where
  "header_limit max_size trailer_limit flag_byte =
     (case trailer_limit of
        Some limit \<Rightarrow> (if flag_byte AND flags_GRPC_WEB_TRAILER \<noteq> 0 then (''grpc-web trailer'', limit)
                       else (''message'', max_size))
      | None \<Rightarrow> (''message'', max_size))"

definition feed_payload :: "assembler \<Rightarrow> bytes \<Rightarrow> envelope option connect_result \<times> assembler \<times> bytes" where
  "feed_payload a frame =
     (let (data, a', frame') =
            (if asm_expected a = 0 then (Some [], a, frame)
             else if asm_expected a \<le> READ_SLAB_SIZE div 2 then fill_slab a frame
             else fill_body a frame)
      in case data of
           None \<Rightarrow> (Ok None, a', frame')
         | Some d \<Rightarrow> (Ok (Some \<lparr>env_flags = asm_header a' ! 0, env_data = d\<rparr>), a'\<lparr>asm_header_len := 0\<rparr>, frame'))"

definition feed :: "assembler \<Rightarrow> bytes \<Rightarrow> envelope option connect_result \<times> assembler \<times> bytes" where
  "feed a frame =
     (if asm_header_len a < HEADER_SIZE then
        (let n = min (HEADER_SIZE - asm_header_len a) (length frame);
             h = take (asm_header_len a) (asm_header a) @ take n frame @ drop (asm_header_len a + n) (asm_header a);
             frame' = drop n frame;
             a' = a\<lparr>asm_header := h, asm_header_len := asm_header_len a + n\<rparr>
         in if asm_header_len a + n < HEADER_SIZE then (Ok None, a', [])
            else
              (let len = unat (u32_from_be_bytes (h ! 1) (h ! 2) (h ! 3) (h ! 4));
                   (what, limit) = header_limit (asm_max_message_size a) (asm_grpc_web_trailer_limit a) (h ! 0)
               in if len > limit
                  then (Err (resource_exhausted (what @ '' size '' @ show_nat len @ '' exceeds limit '' @
                          show_nat limit)), a', frame')
                  else feed_payload (a'\<lparr>asm_expected := len\<rparr>) frame'))
      else feed_payload a frame)"

section \<open>The request-stream decoder\<close>

datatype decoded = Message bytes | EndStream

record envelope_decoder =
  assembler_of :: assembler
  streaming_encoding :: "string option"
  compression_of :: compression_registry

definition decoder_new :: "usize \<Rightarrow> string option \<Rightarrow> compression_registry \<Rightarrow> envelope_decoder" where
  "decoder_new m enc r = \<lparr>assembler_of = assembler_new m, streaming_encoding = enc, compression_of = r\<rparr>"

definition classify_envelope ::
    "string option \<Rightarrow> compression_registry \<Rightarrow> usize \<Rightarrow> envelope \<Rightarrow> decoded connect_result" where
  "classify_envelope enc r max_size e =
     (if is_end_stream e then Ok EndStream
      else if is_compressed e then
        (case enc of
           Some encoding \<Rightarrow>
             (if encoding \<noteq> ''identity''
              then result_bind (registry_decompress_with_limit r encoding (env_data e) max_size)
                     (\<lambda>d. Ok (Message d))
              else Err (internal ''received compressed message without connect-content-encoding header''))
         | None \<Rightarrow> Err (internal ''received compressed message without connect-content-encoding header''))
      else Ok (Message (env_data e)))"

definition decoder_decode ::
    "envelope_decoder \<Rightarrow> bytes \<Rightarrow> decoded option connect_result \<times> envelope_decoder \<times> bytes" where
  "decoder_decode d frame =
     (case feed (assembler_of d) frame of
        (Err e, a', frame') \<Rightarrow> (Err e, d\<lparr>assembler_of := a'\<rparr>, frame')
      | (Ok None, a', frame') \<Rightarrow> (Ok None, d\<lparr>assembler_of := a'\<rparr>, frame')
      | (Ok (Some env), a', frame') \<Rightarrow>
          (result_bind (classify_envelope (streaming_encoding d) (compression_of d)
                          (asm_max_message_size a') env) (\<lambda>m. Ok (Some m)),
           d\<lparr>assembler_of := a'\<rparr>, frame'))"

definition decoder_finish :: "envelope_decoder \<Rightarrow> unit connect_result" where
  "decoder_finish d =
     (if has_partial (assembler_of d) then Err (invalid_argument ''incomplete request envelope'')
      else Ok ())"

section \<open>The encoder\<close>

record envelope_encoder =
  enc_compression :: "(compression_registry \<times> string) option"
  enc_policy :: compression_policy

definition encoder_uncompressed :: envelope_encoder where
  "encoder_uncompressed = \<lparr>enc_compression = None, enc_policy = policy_disabled\<rparr>"

definition encode_end_stream :: "envelope_encoder \<Rightarrow> bytes \<Rightarrow> bytes \<Rightarrow> bytes connect_result" where
  "encode_end_stream enc data dst = write_envelope flags_END_STREAM data dst"

definition encode_chained ::
    "envelope_encoder \<Rightarrow> encoded_body \<Rightarrow> bytes \<Rightarrow> bytes list \<Rightarrow> usize \<Rightarrow> (bytes \<times> bytes list) connect_result" where
  "encode_chained enc body dst chained min_chain =
     (case enc_compression enc of
        Some (reg, encoding) \<Rightarrow>
          (if should_compress (enc_policy enc) (body_len body)
           then result_bind (registry_compress reg encoding (into_contiguous body)) (\<lambda>compressed.
                  write_envelope_chained flags_COMPRESSED (Contiguous compressed) dst chained min_chain)
           else write_envelope_chained flags_DATA body dst chained min_chain)
      | None \<Rightarrow> write_envelope_chained flags_DATA body dst chained min_chain)"

definition encoder_encode :: "envelope_encoder \<Rightarrow> bytes \<Rightarrow> bytes \<Rightarrow> bytes connect_result" where
  "encoder_encode enc data dst =
     result_bind (encode_chained enc (Contiguous data) dst [] usize_MAX) (\<lambda>(dst', chained). Ok dst')"

section \<open>The reference decoder\<close>

definition declared_length :: "bytes \<Rightarrow> usize" where
  "declared_length w = unat (u32_from_be_bytes (w ! 1) (w ! 2) (w ! 3) (w ! 4))"

definition size_error :: "string \<Rightarrow> usize \<Rightarrow> usize \<Rightarrow> connect_error" where
  "size_error what len limit =
     resource_exhausted (what @ '' size '' @ show_nat len @ '' exceeds limit '' @ show_nat limit)"

definition spec_decode ::
    "usize \<Rightarrow> usize option \<Rightarrow> bytes \<Rightarrow> ((envelope \<times> bytes) option, connect_error) result" where
  "spec_decode M T w =
     (if length w < 5 then Ok None
      else if declared_length w > snd (header_limit M T (w ! 0))
      then Err (size_error (fst (header_limit M T (w ! 0))) (declared_length w) (snd (header_limit M T (w ! 0))))
      else if length w < 5 + declared_length w then Ok None
      else Ok (Some (\<lparr>env_flags = w ! 0, env_data = take (declared_length w) (drop 5 w)\<rparr>,
                     drop (5 + declared_length w) w)))"

lemma declared_length_le: "declared_length w \<le> u32_MAX"
  by (simp add: declared_length_def unat_u32_le)

lemma declared_length_append: "5 \<le> length w \<Longrightarrow> declared_length (w @ v) = declared_length w"
  by (simp add: declared_length_def nth_append)

interpretation envelope_frames: frame_decoder "spec_decode M T" for M T
proof unfold_locales
  fix w v x
  assume "spec_decode M T w = Err x"
  then show "spec_decode M T (w @ v) = Err x"
    by (auto simp: spec_decode_def declared_length_append nth_append split: if_splits)
next
  fix w v i r
  assume "spec_decode M T w = Ok (Some (i, r))"
  then show "spec_decode M T (w @ v) = Ok (Some (i, r @ v))"
    by (auto simp: spec_decode_def declared_length_append nth_append split: if_splits)
next
  fix w i r
  assume "spec_decode M T w = Ok (Some (i, r))"
  then show "length r < length w"
    by (auto simp: spec_decode_def split: if_splits)
qed

lemma decode_contiguous_spec:
  "decode_contiguous buf m =
     (case spec_decode m None buf of
        Err x \<Rightarrow> (Err x, buf)
      | Ok None \<Rightarrow> (Ok None, buf)
      | Ok (Some (e, rest)) \<Rightarrow> (Ok (Some e), rest))"
proof -
  have "saturating_add 5 (declared_length buf) = 5 + declared_length buf"
    using declared_length_le [of buf] by (simp add: saturating_add_def usize_MAX_def u32_MAX_def)
  then show ?thesis
    unfolding decode_contiguous_def spec_decode_def HEADER_SIZE_def Let_def declared_length_def [symmetric]
    by (simp add: header_limit_def size_error_def drop_drop add.commute)
qed

section \<open>Assembler invariant\<close>

definition slab_bytes :: "assembler \<Rightarrow> bytes" where
  "slab_bytes a = (case asm_slab a of None \<Rightarrow> [] | Some s \<Rightarrow> s)"

definition idle_buffers :: "assembler \<Rightarrow> bool" where
  "idle_buffers a \<longleftrightarrow> slab_bytes a = [] \<and> asm_body a = [] \<and> asm_body_capacity a = 0"

definition payload_inv :: "usize \<Rightarrow> usize option \<Rightarrow> assembler \<Rightarrow> bool" where
  "payload_inv M T a \<longleftrightarrow>
     asm_max_message_size a = M \<and> asm_grpc_web_trailer_limit a = T \<and>
     length (asm_header a) = 5 \<and> asm_header_len a = 5 \<and>
     asm_expected a = declared_length (asm_header a) \<and>
     asm_expected a \<le> snd (header_limit M T (asm_header a ! 0)) \<and>
     (if asm_expected a = 0 then idle_buffers a
      else if asm_expected a \<le> 4096
      then length (slab_bytes a) < asm_expected a \<and> asm_body a = [] \<and> asm_body_capacity a = 0
      else slab_bytes a = [] \<and> length (asm_body a) < asm_expected a \<and>
           length (asm_body a) \<le> asm_body_capacity a \<and> asm_body_capacity a \<le> asm_expected a \<and>
           asm_body_capacity a \<le> 2 * length (asm_body a))"

definition asm_inv :: "usize \<Rightarrow> usize option \<Rightarrow> assembler \<Rightarrow> bool" where
  "asm_inv M T a \<longleftrightarrow>
     (asm_header_len a < 5 \<and> asm_max_message_size a = M \<and> asm_grpc_web_trailer_limit a = T \<and>
      length (asm_header a) = 5 \<and> idle_buffers a) \<or>
     (payload_inv M T a \<and> 0 < asm_expected a)"

definition asm_payload :: "assembler \<Rightarrow> bytes" where
  "asm_payload a = (if asm_expected a \<le> 4096 then slab_bytes a else asm_body a)"

definition asm_pend :: "assembler \<Rightarrow> bytes" where
  "asm_pend a = take (asm_header_len a) (asm_header a) @
     (if asm_header_len a = 5 then asm_payload a else [])"

lemma asm_inv_new [simp, inv_intros]: "asm_inv M None (assembler_new M)"
  by (simp add: asm_inv_def assembler_new_def idle_buffers_def slab_bytes_def HEADER_SIZE_def)

lemma asm_inv_new_web [simp, inv_intros]:
  "asm_inv M (Some L) (with_grpc_web_trailer_limit L (assembler_new M))"
  by (simp add: asm_inv_def assembler_new_def with_grpc_web_trailer_limit_def idle_buffers_def
      slab_bytes_def HEADER_SIZE_def)

lemma asm_pend_new [simp]: "asm_pend (assembler_new M) = []"
  by (simp add: asm_pend_def assembler_new_def)

lemma asm_pend_new_web [simp]: "asm_pend (with_grpc_web_trailer_limit L (assembler_new M)) = []"
  by (simp add: asm_pend_def assembler_new_def with_grpc_web_trailer_limit_def)

lemma fill_slab_more:
  assumes "payload_inv M T a" and "0 < asm_expected a" and "asm_expected a \<le> 4096"
    and "length (slab_bytes a) + length frame < asm_expected a"
  shows "fill_slab a frame = (None, a\<lparr>asm_slab := Some (slab_bytes a @ frame)\<rparr>, [])"
  using assms by (simp add: fill_slab_def slab_bytes_def [symmetric] Let_def)

lemma fill_slab_done:
  assumes "payload_inv M T a" and "0 < asm_expected a" and "asm_expected a \<le> 4096"
    and "asm_expected a \<le> length (slab_bytes a) + length frame"
  shows "fill_slab a frame =
    (Some (slab_bytes a @ take (asm_expected a - length (slab_bytes a)) frame),
     a\<lparr>asm_slab := Some []\<rparr>, drop (asm_expected a - length (slab_bytes a)) frame)"
  using assms by (simp add: fill_slab_def slab_bytes_def [symmetric] Let_def payload_inv_def)

lemma fill_body_more:
  assumes "payload_inv M T a" and "4096 < asm_expected a"
    and "length (asm_body a) + length frame < asm_expected a"
  shows "\<exists>c. fill_body a frame = (None, a\<lparr>asm_body := asm_body a @ frame, asm_body_capacity := c\<rparr>, []) \<and>
    length (asm_body a @ frame) \<le> c \<and> c \<le> asm_expected a \<and> c \<le> 2 * length (asm_body a @ frame)"
proof -
  have "asm_body_capacity a \<le> u32_MAX"
    using assms(1,2) declared_length_le [of "asm_header a"] by (simp add: payload_inv_def)
  then have sat: "saturating_mul (asm_body_capacity a) 2 = 2 * asm_body_capacity a"
    by (simp add: saturating_mul_def u32_MAX_def usize_MAX_def)
  define c where "c = (if asm_body_capacity a - length (asm_body a) < length frame
    then length (asm_body a) + (min (asm_expected a) (max (2 * asm_body_capacity a)
           (length (asm_body a) + length frame)) - length (asm_body a))
    else asm_body_capacity a)"
  have "fill_body a frame = (None, a\<lparr>asm_body := asm_body a @ frame, asm_body_capacity := c\<rparr>, [])"
    using assms by (simp add: fill_body_def Let_def sat c_def)
  moreover have "length (asm_body a @ frame) \<le> c" "c \<le> asm_expected a" "c \<le> 2 * length (asm_body a @ frame)"
    using assms by (auto simp: payload_inv_def c_def)
  ultimately show ?thesis by blast
qed

lemma fill_body_done:
  assumes "payload_inv M T a" and "4096 < asm_expected a"
    and "asm_expected a \<le> length (asm_body a) + length frame"
  shows "fill_body a frame =
    (Some (asm_body a @ take (asm_expected a - length (asm_body a)) frame),
     a\<lparr>asm_body := [], asm_body_capacity := 0\<rparr>, drop (asm_expected a - length (asm_body a)) frame)"
  using assms by (simp add: fill_body_def Let_def payload_inv_def)

lemma feed_payload_more:
  assumes inv: "payload_inv M T a" and pos: "0 < asm_expected a"
    and short: "length (asm_payload a) + length frame < asm_expected a"
  shows "\<exists>a'. feed_payload a frame = (Ok None, a', []) \<and> asm_inv M T a' \<and>
    asm_pend a' = asm_header a @ asm_payload a @ frame"
proof (cases "asm_expected a \<le> 4096")
  case True
  then have f: "fill_slab a frame = (None, a\<lparr>asm_slab := Some (slab_bytes a @ frame)\<rparr>, [])"
    using assms by (simp add: fill_slab_more asm_payload_def)
  show ?thesis
    using assms True
    by (auto simp: feed_payload_def f READ_SLAB_SIZE_def asm_inv_def payload_inv_def asm_pend_def
        asm_payload_def slab_bytes_def)
next
  case False
  then obtain c where f: "fill_body a frame =
      (None, a\<lparr>asm_body := asm_body a @ frame, asm_body_capacity := c\<rparr>, [])"
    and c: "length (asm_body a @ frame) \<le> c" "c \<le> asm_expected a" "c \<le> 2 * length (asm_body a @ frame)"
    using fill_body_more [OF inv, of frame] short by (auto simp: asm_payload_def)
  show ?thesis
    using assms False c
    by (auto simp: feed_payload_def f READ_SLAB_SIZE_def asm_inv_def payload_inv_def asm_pend_def
        asm_payload_def slab_bytes_def)
qed

lemma feed_payload_item:
  assumes inv: "payload_inv M T a"
    and enough: "asm_expected a \<le> length (asm_payload a) + length frame"
  shows "\<exists>a'. feed_payload a frame =
      (Ok (Some \<lparr>env_flags = asm_header a ! 0, env_data = take (asm_expected a) (asm_payload a @ frame)\<rparr>),
       a', drop (asm_expected a - length (asm_payload a)) frame) \<and>
    asm_inv M T a' \<and> asm_pend a' = []"
proof -
  consider (zero) "asm_expected a = 0" | (slab) "0 < asm_expected a" "asm_expected a \<le> 4096"
    | (big) "4096 < asm_expected a" by linarith
  then show ?thesis
  proof cases
    case zero
    with inv show ?thesis
      by (simp add: feed_payload_def asm_inv_def payload_inv_def asm_pend_def idle_buffers_def
          slab_bytes_def asm_payload_def)
  next
    case slab
    then have f: "fill_slab a frame =
        (Some (slab_bytes a @ take (asm_expected a - length (slab_bytes a)) frame),
         a\<lparr>asm_slab := Some []\<rparr>, drop (asm_expected a - length (slab_bytes a)) frame)"
      using inv enough by (simp add: fill_slab_done asm_payload_def)
    from inv slab show ?thesis
      by (auto simp: feed_payload_def f READ_SLAB_SIZE_def asm_inv_def payload_inv_def asm_pend_def
          idle_buffers_def slab_bytes_def asm_payload_def)
  next
    case big
    then have f: "fill_body a frame =
        (Some (asm_body a @ take (asm_expected a - length (asm_body a)) frame),
         a\<lparr>asm_body := [], asm_body_capacity := 0\<rparr>, drop (asm_expected a - length (asm_body a)) frame)"
      using inv enough by (simp add: fill_body_done asm_payload_def)
    from inv big show ?thesis
      by (auto simp: feed_payload_def f READ_SLAB_SIZE_def asm_inv_def payload_inv_def asm_pend_def
          idle_buffers_def slab_bytes_def asm_payload_def)
  qed
qed

lemma payload_length_le: "payload_inv M T a \<Longrightarrow> length (asm_payload a) \<le> asm_expected a"
  by (auto simp: payload_inv_def asm_payload_def idle_buffers_def split: if_splits)

lemma payload_spec:
  assumes inv: "payload_inv M T a"
  shows "spec_decode M T (asm_header a @ asm_payload a @ frame) =
    (if asm_expected a \<le> length (asm_payload a) + length frame
     then Ok (Some (\<lparr>env_flags = asm_header a ! 0, env_data = take (asm_expected a) (asm_payload a @ frame)\<rparr>,
                    drop (asm_expected a - length (asm_payload a)) frame))
     else Ok None)"
proof -
  have h: "length (asm_header a) = 5" and e: "declared_length (asm_header a) = asm_expected a"
    and lim: "asm_expected a \<le> snd (header_limit M T (asm_header a ! 0))"
    using inv by (auto simp: payload_inv_def)
  have d: "declared_length (asm_header a @ asm_payload a @ frame) = asm_expected a"
    using declared_length_append [of "asm_header a" "asm_payload a @ frame"] h e by simp
  have z: "(asm_header a @ asm_payload a @ frame) ! 0 = asm_header a ! 0"
    using h by (simp add: nth_append)
  show ?thesis
    using payload_length_le [OF inv] lim
    by (simp add: spec_decode_def d z h not_less)
qed

lemma feed_header_short:
  assumes "asm_inv M T a" and "asm_header_len a + length frame < 5"
  shows "\<exists>a'. feed a frame = (Ok None, a', []) \<and> asm_inv M T a' \<and> asm_pend a' = asm_pend a @ frame"
  using assms
  by (auto simp: feed_def HEADER_SIZE_def Let_def asm_inv_def payload_inv_def asm_pend_def idle_buffers_def
      slab_bytes_def)

lemma feed_header_done:
  assumes inv: "asm_inv M T a" and hl: "asm_header_len a < 5" and len: "5 \<le> asm_header_len a + length frame"
  defines "w \<equiv> asm_pend a @ frame"
  defines "a2 \<equiv> a\<lparr>asm_header := take 5 w, asm_header_len := 5, asm_expected := declared_length w\<rparr>"
  shows "declared_length w > snd (header_limit M T (w ! 0)) \<Longrightarrow>
      fst (feed a frame) = Err (size_error (fst (header_limit M T (w ! 0))) (declared_length w)
        (snd (header_limit M T (w ! 0))))"
    and "\<not> declared_length w > snd (header_limit M T (w ! 0)) \<Longrightarrow>
      feed a frame = feed_payload a2 (drop 5 w) \<and> payload_inv M T a2 \<and> asm_payload a2 = []"
proof -
  let ?hl = "asm_header_len a"
  have base: "length (asm_header a) = 5" "asm_max_message_size a = M" "asm_grpc_web_trailer_limit a = T"
    "idle_buffers a" using inv hl by (auto simp: asm_inv_def payload_inv_def)
  have w: "w = take ?hl (asm_header a) @ frame" using hl by (simp add: w_def asm_pend_def)
  have n: "min (5 - ?hl) (length frame) = 5 - ?hl" using len by simp
  have h: "take ?hl (asm_header a) @ take (5 - ?hl) frame @ drop 5 (asm_header a) = take 5 w"
    using hl base(1) by (simp add: w)
  have fr: "drop (5 - ?hl) frame = drop 5 w" using hl base(1) by (simp add: w)
  have lw: "5 \<le> length w" using len hl base(1) by (simp add: w)
  have idx: "take 5 w ! 0 = w ! 0" by simp
  have dl: "declared_length (take 5 w) = declared_length w" by (simp add: declared_length_def)
  have sum: "?hl + (5 - ?hl) = 5" using hl by simp
  have feed: "feed a frame =
      (if declared_length w > snd (header_limit M T (w ! 0))
       then (Err (size_error (fst (header_limit M T (w ! 0))) (declared_length w) (snd (header_limit M T (w ! 0)))),
             a\<lparr>asm_header := take 5 w, asm_header_len := 5\<rparr>, drop 5 w)
       else feed_payload a2 (drop 5 w))"
    using hl unfolding feed_def HEADER_SIZE_def Let_def n fr sum h base(2,3)
      declared_length_def [symmetric] size_error_def [symmetric] case_prod_beta idx dl
    by (simp add: a2_def)
  show "fst (feed a frame) = Err (size_error (fst (header_limit M T (w ! 0))) (declared_length w)
      (snd (header_limit M T (w ! 0))))" if "declared_length w > snd (header_limit M T (w ! 0))"
    using that by (simp add: feed)
  show "feed a frame = feed_payload a2 (drop 5 w) \<and> payload_inv M T a2 \<and> asm_payload a2 = []"
    if "\<not> declared_length w > snd (header_limit M T (w ! 0))"
    using that lw base dl by (simp add: feed payload_inv_def a2_def idle_buffers_def slab_bytes_def
        asm_payload_def)
qed

lemma feed_payload_refines:
  assumes inv: "payload_inv M T a" and w: "w = asm_header a @ asm_payload a @ frame"
  shows "spec_decode M T w = Ok None \<Longrightarrow>
      \<exists>a'. feed_payload a frame = (Ok None, a', []) \<and> asm_inv M T a' \<and> asm_pend a' = w"
    and "spec_decode M T w = Ok (Some (e, r)) \<Longrightarrow>
      \<exists>a'. feed_payload a frame = (Ok (Some e), a', r) \<and> asm_inv M T a' \<and> asm_pend a' = [] \<and>
        r = drop (asm_expected a - length (asm_payload a)) frame \<and>
        asm_expected a \<le> length (asm_payload a) + length frame"
    and "spec_decode M T w \<noteq> Err x"
  using payload_spec [OF inv, of frame] feed_payload_more [OF inv] feed_payload_item [OF inv]
  by (auto simp: w split: if_splits)

lemma feed_refines:
  assumes inv: "asm_inv M T a"
  shows "case spec_decode M T (asm_pend a @ frame) of
      Err x \<Rightarrow> fst (feed a frame) = Err x
    | Ok None \<Rightarrow> (\<exists>a'. feed a frame = (Ok None, a', []) \<and> asm_inv M T a' \<and> asm_pend a' = asm_pend a @ frame)
    | Ok (Some (e, r)) \<Rightarrow> (\<exists>a'. feed a frame = (Ok (Some e), a', r) \<and> asm_inv M T a' \<and> asm_pend a' = [] \<and>
        length r < length frame)"
    (is "case spec_decode M T ?w of Err x \<Rightarrow> ?E x | Ok None \<Rightarrow> ?N | Ok (Some (e, r)) \<Rightarrow> ?S e r")
proof (cases "asm_header_len a < 5")
  case hl: True
  have lw: "length ?w = asm_header_len a + length frame"
    using inv hl by (auto simp: asm_inv_def asm_pend_def payload_inv_def)
  show ?thesis
  proof (cases "asm_header_len a + length frame < 5")
    case True
    with lw have "spec_decode M T ?w = Ok None" by (simp add: spec_decode_def)
    with feed_header_short [OF inv True] show ?thesis by simp
  next
    case False
    then have len: "5 \<le> asm_header_len a + length frame" by simp
    show ?thesis
    proof (cases "declared_length ?w > snd (header_limit M T (?w ! 0))")
      case True
      with lw len feed_header_done(1) [OF inv hl len] show ?thesis by (simp add: spec_decode_def)
    next
      case ok: False
      let ?a2 = "a\<lparr>asm_header := take 5 ?w, asm_header_len := 5, asm_expected := declared_length ?w\<rparr>"
      from feed_header_done(2) [OF inv hl len ok]
      have f: "feed a frame = feed_payload ?a2 (drop 5 ?w)" and pinv: "payload_inv M T ?a2"
        and pay: "asm_payload ?a2 = []" by auto
      have w: "?w = asm_header ?a2 @ asm_payload ?a2 @ drop 5 ?w"
        unfolding pay using append_take_drop_id [of 5 ?w] by (simp del: append_take_drop_id take_append drop_append)
      have shorter: "length (drop k (drop 5 ?w)) < length frame" for k using hl lw len by simp
      note ref = feed_payload_refines [OF pinv w]
      show ?thesis
      proof (cases "spec_decode M T ?w")
        case (Err x)
        with ref(3) show ?thesis by blast
      next
        case (Ok o')
        show ?thesis
        proof (cases o')
          case None
          with Ok have n: "spec_decode M T ?w = Ok None" by simp
          from ref(1) [OF n] show ?thesis unfolding n f by simp
        next
          case (Some p)
          obtain e r where "p = (e, r)" by (cases p)
          with Ok Some have n: "spec_decode M T ?w = Ok (Some (e, r))" by simp
          from ref(2) [OF n] obtain a' k where
              a': "feed_payload ?a2 (drop 5 ?w) = (Ok (Some e), a', r)" "asm_inv M T a'" "asm_pend a' = []"
            and r: "r = drop k (drop 5 ?w)" by blast
          have "length r < length frame" unfolding r by (rule shorter)
          with a' show ?thesis unfolding n f by (simp only: result.case option.case prod.case) blast
        qed
      qed
    qed
  qed
next
  case False
  then have pinv: "payload_inv M T a" and pos: "0 < asm_expected a" using inv by (auto simp: asm_inv_def)
  then have f: "feed a frame = feed_payload a frame"
    by (simp add: feed_def HEADER_SIZE_def payload_inv_def)
  have w: "?w = asm_header a @ asm_payload a @ frame"
    using pinv by (simp add: asm_pend_def payload_inv_def)
  have lt: "length (asm_payload a) < asm_expected a"
    using pinv pos by (auto simp: payload_inv_def asm_payload_def split: if_splits)
  note ref = feed_payload_refines [OF pinv w]
  show ?thesis
  proof (cases "spec_decode M T ?w")
    case (Err x)
    with ref(3) show ?thesis by blast
  next
    case (Ok o')
    show ?thesis
    proof (cases o')
      case None
      with Ok have n: "spec_decode M T ?w = Ok None" by simp
      from ref(1) [OF n] show ?thesis unfolding n f by simp
    next
      case (Some p)
      obtain e r where "p = (e, r)" by (cases p)
      with Ok Some have n: "spec_decode M T ?w = Ok (Some (e, r))" by simp
      from ref(2) [OF n] lt show ?thesis unfolding n f by auto
    qed
  qed
qed

lemma asm_inv_partial: "asm_inv M T a \<Longrightarrow> spec_decode M T (asm_pend a) = Ok None"
proof (cases "asm_header_len a < 5")
  case True
  assume "asm_inv M T a"
  with True have "length (asm_pend a) < 5" by (auto simp: asm_inv_def asm_pend_def payload_inv_def)
  then show ?thesis by (simp add: spec_decode_def)
next
  case False
  assume "asm_inv M T a"
  with False have pinv: "payload_inv M T a" and "0 < asm_expected a" by (auto simp: asm_inv_def)
  then have "length (asm_payload a) < asm_expected a"
    by (auto simp: payload_inv_def asm_payload_def split: if_splits)
  with payload_spec [OF pinv, of "[]"] pinv show ?thesis
    by (simp add: asm_pend_def payload_inv_def)
qed

interpretation assembler_feed: incremental_decoder "spec_decode M T" feed asm_pend "asm_inv M T" for M T
proof unfold_locales
  fix s frame x
  assume "asm_inv M T s" "spec_decode M T (asm_pend s @ frame) = Err x"
  then show "fst (feed s frame) = Err x" using feed_refines [of M T s frame] by simp
next
  fix s frame
  assume "asm_inv M T s" "spec_decode M T (asm_pend s @ frame) = Ok None"
  then show "\<exists>s'. feed s frame = (Ok None, s', []) \<and> asm_inv M T s' \<and> asm_pend s' = asm_pend s @ frame"
    using feed_refines [of M T s frame] by simp
next
  fix s frame i r
  assume "asm_inv M T s" "spec_decode M T (asm_pend s @ frame) = Ok (Some (i, r))"
  then show "\<exists>s'. feed s frame = (Ok (Some i), s', r) \<and> asm_inv M T s' \<and> asm_pend s' = [] \<and>
      length r < length frame"
    using feed_refines [of M T s frame] by simp
qed (rule asm_inv_partial)

text \<open>
  C4. The incremental assembler implements the contiguous decoder: fed the body in any frames
  (down to single bytes, with any number of envelopes per frame), a fresh assembler produces
  exactly the envelopes, or the size error, that repeated contiguous decoding of the
  concatenated bytes gives, and holds exactly the undecoded tail.
\<close>

theorem assembler_refines_contiguous:
  "fst (feed_frames feed (assembler_new M) frames) = fst (decode_all (spec_decode M None) (concat frames)) \<and>
   result_map asm_pend (snd (feed_frames feed (assembler_new M) frames)) =
     snd (decode_all (spec_decode M None) (concat frames)) \<and>
   decode_contiguous buf M =
     (case spec_decode M None buf of
        Err x \<Rightarrow> (Err x, buf)
      | Ok None \<Rightarrow> (Ok None, buf)
      | Ok (Some (e, rest)) \<Rightarrow> (Ok (Some e), rest))"
  using assembler_feed.feed_frames_refines [OF asm_inv_new, of M frames] decode_contiguous_spec [of buf M]
  by simp

end
