(* ===== verification/Timeout.thy ===== *)
theory Timeout
  imports Protocol Headers
begin

text \<open>
  Request timeouts: the server's parser of \<^verbatim>\<open>connect-timeout-ms\<close> and \<^verbatim>\<open>grpc-timeout\<close>
  (\<^verbatim>\<open>connectrpc/src/service.rs\<close>) and the client's encoder
  (\<^verbatim>\<open>connectrpc/src/client/mod.rs\<close>). A \<^verbatim>\<open>Duration\<close> is its number of nanoseconds, an
  \<^verbatim>\<open>Instant\<close> the nanoseconds since the clock's origin (\<^verbatim>\<open>i64\<close> seconds on the platform's
  \<^verbatim>\<open>timespec\<close>), and a \<^verbatim>\<open>u128\<close> or \<^verbatim>\<open>u64\<close> a number with its casts written out.
\<close>

section \<open>Durations and instants\<close>

type_synonym duration = nat
type_synonym instant = nat

definition from_secs :: "nat \<Rightarrow> duration" where "from_secs n = n * 1000000000"
definition from_millis :: "nat \<Rightarrow> duration" where "from_millis n = n * 1000000"
definition from_micros :: "nat \<Rightarrow> duration" where "from_micros n = n * 1000"
definition from_nanos :: "nat \<Rightarrow> duration" where "from_nanos n = n"

definition as_secs :: "duration \<Rightarrow> nat" where "as_secs d = d div 1000000000"
definition as_millis :: "duration \<Rightarrow> nat" where "as_millis d = d div 1000000"
definition as_micros :: "duration \<Rightarrow> nat" where "as_micros d = d div 1000"
definition as_nanos :: "duration \<Rightarrow> nat" where "as_nanos d = d"

lemmas duration_defs = from_secs_def from_millis_def from_micros_def from_nanos_def
  as_secs_def as_millis_def as_micros_def as_nanos_def

definition duration_MAX :: duration where
  "duration_MAX = from_secs u64_MAX + 999999999"

definition instant_MAX :: instant where
  "instant_MAX = 9223372036854775807 * 1000000000 + 999999999"

definition instant_checked_add :: "instant \<Rightarrow> duration \<Rightarrow> instant option" where
  "instant_checked_add now d = (if now + d \<le> instant_MAX then Some (now + d) else None)"

definition as_u64 :: "nat \<Rightarrow> nat" where
  "as_u64 n = n mod 18446744073709551616"

definition u64_checked_mul :: "nat \<Rightarrow> nat \<Rightarrow> nat option" where
  "u64_checked_mul a b = (if a * b \<le> u64_MAX then Some (a * b) else None)"

section \<open>Decimal numbers\<close>

definition digit_value :: "char \<Rightarrow> nat" where
  "digit_value c = of_char c - 48"

text \<open>
  \<^verbatim>\<open>str::parse::<u64>()\<close>: an optional leading plus sign, then at least one decimal digit, with
  an error when the value does not fit 64 bits.
\<close>

fun parse_digits :: "nat \<Rightarrow> string \<Rightarrow> nat option" where
  "parse_digits acc [] = Some acc"
| "parse_digits acc (c # cs) =
     (if is_ascii_digit c \<and> acc * 10 + digit_value c \<le> u64_MAX
      then parse_digits (acc * 10 + digit_value c) cs else None)"

definition parse_u64 :: "string \<Rightarrow> nat option" where
  "parse_u64 s =
     (case s of
        [] \<Rightarrow> None
      | c # cs \<Rightarrow>
          (if c = CHR ''+'' then (if cs = [] then None else parse_digits 0 cs)
           else parse_digits 0 s))"

section \<open>The server's parser\<close>

definition is_ascii_str :: "string \<Rightarrow> bool" where
  "is_ascii_str s \<longleftrightarrow> list_all (\<lambda>c. (of_char c :: nat) < 128) s"

definition parse_timeout :: "string \<Rightarrow> protocol \<Rightarrow> duration option" where
  "parse_timeout s p =
     (case p of
        Connect \<Rightarrow>
          (if s = [] \<or> length s > 10 then None
           else (case parse_u64 s of None \<Rightarrow> None | Some ms \<Rightarrow> Some (from_millis ms)))
      | _ \<Rightarrow>
          (if s = [] \<or> \<not> is_ascii_str s then None
           else
             (let digits = take (length s - 1) s; unit = drop (length s - 1) s in
              if digits = [] \<or> length digits > 8 then None
              else (case parse_u64 digits of
                      None \<Rightarrow> None
                    | Some v \<Rightarrow>
                        (if unit = ''H'' then map_option from_secs (u64_checked_mul v 3600)
                         else if unit = ''M'' then map_option from_secs (u64_checked_mul v 60)
                         else if unit = ''S'' then Some (from_secs v)
                         else if unit = ''m'' then Some (from_millis v)
                         else if unit = ''u'' then Some (from_micros v)
                         else if unit = ''n'' then Some (from_nanos v)
                         else None)))))"

definition absolute_deadline :: "instant \<Rightarrow> duration option \<Rightarrow> instant option" where
  "absolute_deadline now timeout = Option.bind timeout (instant_checked_add now)"

definition timeout_from_headers :: "headers \<Rightarrow> protocol \<Rightarrow> duration option" where
  "timeout_from_headers h p =
     Option.bind (hm_get h (timeout_header p)) (\<lambda>v.
       Option.bind (header_to_str v) (\<lambda>s. parse_timeout s p))"

section \<open>The client's encoder\<close>

definition CONNECT_TIMEOUT_MAX_MILLIS :: nat where "CONNECT_TIMEOUT_MAX_MILLIS = 9999999999"
definition GRPC_TIMEOUT_MAX_SECONDS :: nat where "GRPC_TIMEOUT_MAX_SECONDS = 99999999"

datatype encoded_timeout =
    EncConnect (enc_millis: nat)
  | EncGrpc (enc_value: nat) (enc_unit: char) (enc_duration: duration)

fun encoded_timeout_duration :: "encoded_timeout \<Rightarrow> duration" where
  "encoded_timeout_duration (EncConnect millis) = from_millis millis"
| "encoded_timeout_duration (EncGrpc value unit duration) = duration"

fun header_value :: "encoded_timeout \<Rightarrow> string" where
  "header_value (EncConnect millis) = show_nat millis"
| "header_value (EncGrpc value unit duration) = show_nat value @ [unit]"

definition grpc_encoded_timeout :: "nat \<Rightarrow> char \<Rightarrow> duration \<Rightarrow> encoded_timeout" where
  "grpc_encoded_timeout value unit duration = EncGrpc (as_u64 value) unit duration"

definition encode_timeout :: "duration \<Rightarrow> protocol \<Rightarrow> encoded_timeout" where
  "encode_timeout timeout p =
     (case p of
        Connect \<Rightarrow> EncConnect (as_u64 (min (as_millis timeout) CONNECT_TIMEOUT_MAX_MILLIS))
      | _ \<Rightarrow>
          (let mx = GRPC_TIMEOUT_MAX_SECONDS;
               nanos = as_nanos timeout;
               secs = as_secs timeout;
               millis = as_millis timeout;
               micros = as_micros timeout
           in if nanos = 0 then grpc_encoded_timeout 0 (CHR ''n'') 0
              else if nanos mod 1000000000 = 0 \<and> secs \<le> mx
                then grpc_encoded_timeout secs (CHR ''S'') (from_secs (as_u64 secs))
              else if nanos mod 1000000 = 0 \<and> millis \<le> mx
                then grpc_encoded_timeout millis (CHR ''m'') (from_millis (as_u64 millis))
              else if nanos mod 1000 = 0 \<and> micros \<le> mx
                then grpc_encoded_timeout micros (CHR ''u'') (from_micros (as_u64 micros))
              else if nanos \<le> mx
                then grpc_encoded_timeout nanos (CHR ''n'') (from_nanos (as_u64 nanos))
              else if micros \<le> mx
                then grpc_encoded_timeout micros (CHR ''u'') (from_micros (as_u64 micros))
              else if millis \<le> mx
                then grpc_encoded_timeout millis (CHR ''m'') (from_millis (as_u64 millis))
              else if secs \<le> mx
                then grpc_encoded_timeout secs (CHR ''S'') (from_secs (as_u64 secs))
              else grpc_encoded_timeout mx (CHR ''S'') (from_secs GRPC_TIMEOUT_MAX_SECONDS)))"

definition format_timeout :: "duration \<Rightarrow> protocol \<Rightarrow> string" where
  "format_timeout timeout p = header_value (encode_timeout timeout p)"

definition client_deadline :: "instant \<Rightarrow> duration option \<Rightarrow> protocol \<Rightarrow> instant option" where
  "client_deadline now timeout p =
     Option.bind (map_option (\<lambda>t. encoded_timeout_duration (encode_timeout t p)) timeout)
       (instant_checked_add now)"

section \<open>Decimal round trip\<close>

lemma digit_char_props:
  assumes "d < 10"
  shows "is_ascii_digit (digit_char d)" "digit_value (digit_char d) = d" "digit_char d \<noteq> CHR ''+''"
    "(of_char (digit_char d) :: nat) < 128"
proof -
  have "(of_char (digit_char d) :: nat) = 48 + d"
    using assms by (simp add: digit_char_def of_char_of)
  moreover have "(of_char (CHR ''+'') :: nat) = 43" by simp
  ultimately show "is_ascii_digit (digit_char d)" "digit_value (digit_char d) = d"
    "digit_char d \<noteq> CHR ''+''" "(of_char (digit_char d) :: nat) < 128"
    using assms by (auto simp: is_ascii_digit_def digit_value_def)
qed

lemma parse_digits_append:
  "parse_digits acc (s @ t) = Option.bind (parse_digits acc s) (\<lambda>a. parse_digits a t)"
  by (induction acc s rule: parse_digits.induct) auto

lemma parse_digits_show: "n \<le> u64_MAX \<Longrightarrow> parse_digits 0 (show_nat n) = Some n"
proof (induction n rule: show_nat.induct)
  case (1 n)
  show ?case
  proof (cases "n < 10")
    case True
    with 1(2) show ?thesis by (subst show_nat.simps) (simp add: digit_char_props)
  next
    case False
    with 1 have "parse_digits 0 (show_nat (n div 10)) = Some (n div 10)" by simp
    with False 1(2) show ?thesis
      by (subst show_nat.simps) (simp add: parse_digits_append digit_char_props)
  qed
qed

lemma show_nat_nonempty [simp]: "show_nat n \<noteq> []"
  by (subst show_nat.simps) simp

lemma show_nat_digits: "c \<in> set (show_nat n) \<Longrightarrow> is_ascii_digit c"
proof (induction n rule: show_nat.induct)
  case (1 n)
  then show ?case
    by (subst (asm) (2) show_nat.simps) (auto simp: digit_char_props split: if_splits)
qed

lemma is_ascii_digit_small: "is_ascii_digit c \<Longrightarrow> (of_char c :: nat) < 128"
  by (simp add: is_ascii_digit_def)

lemma is_ascii_digit_not_plus: "is_ascii_digit c \<Longrightarrow> c \<noteq> CHR ''+''"
  by (auto simp: is_ascii_digit_def)

lemma parse_u64_show: "n \<le> u64_MAX \<Longrightarrow> parse_u64 (show_nat n) = Some n"
proof -
  assume n: "n \<le> u64_MAX"
  obtain c cs where s: "show_nat n = c # cs" using show_nat_nonempty by (cases "show_nat n") auto
  then have "is_ascii_digit c" using show_nat_digits [of c n] by simp
  then have "c \<noteq> CHR ''+''" by (rule is_ascii_digit_not_plus)
  with parse_digits_show [OF n] show ?thesis by (simp add: parse_u64_def s)
qed

lemma length_show_nat: "n < 10 ^ k \<Longrightarrow> 0 < k \<Longrightarrow> length (show_nat n) \<le> k"
proof (induction k arbitrary: n)
  case 0
  then show ?case by simp
next
  case (Suc k)
  show ?case
  proof (cases "n < 10")
    case True
    then show ?thesis by (subst show_nat.simps) simp
  next
    case False
    with Suc.prems have "0 < k" by (cases k) auto
    moreover have "n div 10 < 10 ^ k" using Suc.prems by (simp add: less_mult_imp_div_less mult.commute)
    ultimately show ?thesis using Suc.IH [of "n div 10"] False by (subst show_nat.simps) simp
  qed
qed

section \<open>Round trip and bounds\<close>

lemma as_u64_id [simp]: "n \<le> 9999999999 \<Longrightarrow> as_u64 n = n"
  by (simp add: as_u64_def)

lemma parse_connect_show:
  "n \<le> 9999999999 \<Longrightarrow> parse_timeout (show_nat n) Connect = Some (from_millis n)"
  using parse_u64_show [of n] length_show_nat [of n 10] by (simp add: parse_timeout_def u64_MAX_def)

lemma is_ascii_show_nat: "is_ascii_str (show_nat n)"
  using show_nat_digits is_ascii_digit_small by (auto simp: is_ascii_str_def list_all_iff)

lemma parse_grpc_show:
  assumes "n \<le> 99999999" and "p \<noteq> Connect"
  shows "parse_timeout (show_nat n @ ''S'') p = Some (from_secs n)"
    and "parse_timeout (show_nat n @ ''m'') p = Some (from_millis n)"
    and "parse_timeout (show_nat n @ ''u'') p = Some (from_micros n)"
    and "parse_timeout (show_nat n @ ''n'') p = Some (from_nanos n)"
proof -
  have u: "parse_u64 (show_nat n) = Some n" using assms by (simp add: parse_u64_show u64_MAX_def)
  have l: "length (show_nat n) \<le> 8" using assms length_show_nat [of n 8] by simp
  have a: "is_ascii_str (show_nat n @ [c]) \<longleftrightarrow> (of_char c :: nat) < 128" for c
    using is_ascii_show_nat [of n] by (simp add: is_ascii_str_def)
  show "parse_timeout (show_nat n @ ''S'') p = Some (from_secs n)"
    and "parse_timeout (show_nat n @ ''m'') p = Some (from_millis n)"
    and "parse_timeout (show_nat n @ ''u'') p = Some (from_micros n)"
    and "parse_timeout (show_nat n @ ''n'') p = Some (from_nanos n)"
    using assms l by (cases p; simp add: parse_timeout_def u a Let_def)+
qed

lemma eq_if_E: "x = (if b then y else z) \<Longrightarrow> (b \<Longrightarrow> x = y \<Longrightarrow> P) \<Longrightarrow> (\<not> b \<Longrightarrow> x = z \<Longrightarrow> P) \<Longrightarrow> P"
  by (cases b) simp_all

text \<open>
  The branch \<open>encode_timeout\<close> takes, by the unit it writes: the value fits eight digits and
  the retained duration is the value in that unit, rounded down.
\<close>

lemma encode_timeout_grpc_cases:
  assumes "p \<noteq> Connect"
  obtains (S) n where "encode_timeout d p = EncGrpc n (CHR ''S'') (from_secs n)" "n \<le> 99999999"
      "from_secs n \<le> d" "d div 1000000000 \<le> 99999999 \<Longrightarrow> (d - from_secs n) * 100000 \<le> d"
    | (m) n where "encode_timeout d p = EncGrpc n (CHR ''m'') (from_millis n)" "n \<le> 99999999"
      "from_millis n \<le> d" "(d - from_millis n) * 100000 \<le> d"
    | (u) n where "encode_timeout d p = EncGrpc n (CHR ''u'') (from_micros n)" "n \<le> 99999999"
      "from_micros n \<le> d" "(d - from_micros n) * 100000 \<le> d"
    | (n) n where "encode_timeout d p = EncGrpc n (CHR ''n'') (from_nanos n)" "n \<le> 99999999"
      "from_nanos n = d"
proof -
  let ?s = "d div 1000000000" and ?m = "d div 1000000" and ?u = "d div 1000"
  let ?e = "encode_timeout d p" and ?M = "99999999 :: nat"
  have e: "?e =
      (if d = 0 then EncGrpc 0 (CHR ''n'') (from_nanos 0)
       else if d mod 1000000000 = 0 \<and> ?s \<le> ?M then EncGrpc ?s (CHR ''S'') (from_secs ?s)
       else if d mod 1000000 = 0 \<and> ?m \<le> ?M then EncGrpc ?m (CHR ''m'') (from_millis ?m)
       else if d mod 1000 = 0 \<and> ?u \<le> ?M then EncGrpc ?u (CHR ''u'') (from_micros ?u)
       else if d \<le> ?M then EncGrpc d (CHR ''n'') (from_nanos d)
       else if ?u \<le> ?M then EncGrpc ?u (CHR ''u'') (from_micros ?u)
       else if ?m \<le> ?M then EncGrpc ?m (CHR ''m'') (from_millis ?m)
       else if ?s \<le> ?M then EncGrpc ?s (CHR ''S'') (from_secs ?s)
       else EncGrpc ?M (CHR ''S'') (from_secs ?M))"
    using assms by (cases p) (simp_all add: encode_timeout_def grpc_encoded_timeout_def
        GRPC_TIMEOUT_MAX_SECONDS_def Let_def duration_defs)
  have fl: "from_secs ?s \<le> d" "from_millis ?m \<le> d" "from_micros ?u \<le> d"
    by (simp_all add: duration_defs)
  have md: "d - from_secs ?s = d mod 1000000000" "d - from_millis ?m = d mod 1000000"
    "d - from_micros ?u = d mod 1000"
    by (simp_all add: duration_defs minus_div_mult_eq_mod)
  have ml: "d mod 1000000000 < 1000000000" "d mod 1000000 < 1000000" "d mod 1000 < 1000" by simp_all
  have big: "\<not> ?u \<le> ?M \<Longrightarrow> 100000000 * 1000 \<le> d" "\<not> ?m \<le> ?M \<Longrightarrow> 100000000 * 1000000 \<le> d"
    "\<not> ?s \<le> ?M \<Longrightarrow> 100000000 * 1000000000 \<le> d"
    by (simp_all add: less_eq_div_iff_mult_less_eq [symmetric])
  have lo: "\<not> d \<le> ?M \<Longrightarrow> (d - from_micros ?u) * 100000 \<le> d"
    "\<not> ?u \<le> ?M \<Longrightarrow> (d - from_millis ?m) * 100000 \<le> d"
    "\<not> ?m \<le> ?M \<Longrightarrow> (d - from_secs ?s) * 100000 \<le> d" using big(1,2) ml unfolding md by linarith+
  have ex: "d mod 1000000000 = 0 \<Longrightarrow> (d - from_secs ?s) * 100000 \<le> d"
    "d mod 1000000 = 0 \<Longrightarrow> (d - from_millis ?m) * 100000 \<le> d"
    "d mod 1000 = 0 \<Longrightarrow> (d - from_micros ?u) * 100000 \<le> d" unfolding md by linarith+
  have top: "\<not> ?s \<le> ?M \<Longrightarrow> from_secs ?M \<le> d" using big(3) unfolding from_secs_def by linarith
  from e show thesis
  proof (elim eq_if_E conjE)
    assume "?e = EncGrpc 0 (CHR ''n'') (from_nanos 0)" "d = 0"
    then show thesis by (intro n [of 0]) (simp_all add: from_nanos_def)
  next
    assume "?e = EncGrpc ?s (CHR ''S'') (from_secs ?s)" "?s \<le> ?M" "d mod 1000000000 = 0"
    with ex(1) show thesis by (intro S [OF _ _ fl(1)])
  next
    assume "?e = EncGrpc ?m (CHR ''m'') (from_millis ?m)" "?m \<le> ?M" "d mod 1000000 = 0"
    with ex(2) show thesis by (intro m [OF _ _ fl(2)])
  next
    assume "?e = EncGrpc ?u (CHR ''u'') (from_micros ?u)" "?u \<le> ?M" "d mod 1000 = 0"
    with ex(3) show thesis by (intro u [OF _ _ fl(3)])
  next
    assume "?e = EncGrpc d (CHR ''n'') (from_nanos d)" "d \<le> ?M"
    then show thesis by (intro n [of d]) (simp_all add: from_nanos_def)
  next
    assume "?e = EncGrpc ?u (CHR ''u'') (from_micros ?u)" "?u \<le> ?M" "\<not> d \<le> ?M"
    with lo(1) show thesis by (intro u [OF _ _ fl(3)])
  next
    assume "?e = EncGrpc ?m (CHR ''m'') (from_millis ?m)" "?m \<le> ?M" "\<not> ?u \<le> ?M"
    with lo(2) show thesis by (intro m [OF _ _ fl(2)])
  next
    assume "?e = EncGrpc ?s (CHR ''S'') (from_secs ?s)" "?s \<le> ?M" "\<not> ?m \<le> ?M"
    with lo(3) show thesis by (intro S [OF _ _ fl(1)])
  next
    assume "?e = EncGrpc ?M (CHR ''S'') (from_secs ?M)" "\<not> ?s \<le> ?M"
    with top show thesis by (intro S [of ?M]) simp_all
  qed
qed

lemma parse_format_timeout:
  "parse_timeout (format_timeout d p) p = Some (encoded_timeout_duration (encode_timeout d p)) \<and>
   encoded_timeout_duration (encode_timeout d p) \<le> d"
proof (cases "p = Connect")
  case True
  let ?n = "min (d div 1000000) 9999999999"
  have "encode_timeout d p = EncConnect ?n"
    by (simp add: True encode_timeout_def CONNECT_TIMEOUT_MAX_MILLIS_def as_millis_def)
  moreover have "from_millis ?n \<le> d" unfolding from_millis_def by (simp add: min_def) linarith
  ultimately show ?thesis
    using parse_connect_show [of ?n] by (simp add: True format_timeout_def)
next
  case False
  then show ?thesis
    by (cases rule: encode_timeout_grpc_cases [of p d])
      (simp_all add: False format_timeout_def parse_grpc_show)
qed

text \<open>
  C15. What the client writes is what the server reads: for every timeout and protocol, the
  header the client formats parses, at the server, to exactly the duration the client keeps
  for its own local deadline; that duration is never longer than the caller's timeout.
\<close>

theorem timeout_client_server_agree:
  "parse_timeout (format_timeout d p) p = Some (encoded_timeout_duration (encode_timeout d p)) \<and>
   encoded_timeout_duration (encode_timeout d p) \<le> d"
  by (rule parse_format_timeout)

text \<open>
  Precision of the gRPC encoding: for a timeout of at most 99,999,999 seconds the value
  sent differs from the caller's by at most one part in 100,000.
\<close>

theorem grpc_timeout_precision:
  assumes "p \<noteq> Connect" and "d div 1000000000 \<le> 99999999"
  shows "(d - encoded_timeout_duration (encode_timeout d p)) * 100000 \<le> d"
  using assms(1)
proof (cases rule: encode_timeout_grpc_cases [of p d])
  case (S n)
  then show ?thesis using assms(2) by simp
qed simp_all

lemma parse_digits_less: "parse_digits acc s = Some v \<Longrightarrow> v < (acc + 1) * 10 ^ length s"
proof (induction acc s rule: parse_digits.induct)
  case (2 acc c cs)
  then have "is_ascii_digit c" and v: "v < (acc * 10 + digit_value c + 1) * 10 ^ length cs"
    by (auto split: if_splits)
  then have "digit_value c \<le> 9" by (auto simp: is_ascii_digit_def digit_value_def)
  then have "(acc * 10 + digit_value c + 1) * 10 ^ length cs \<le> ((acc + 1) * 10) * 10 ^ length cs"
    by (intro mult_right_mono) simp_all
  with v have "v < ((acc + 1) * 10) * 10 ^ length cs" by linarith
  then show ?case by (simp add: algebra_simps)
qed simp

lemma parse_u64_less:
  assumes "parse_u64 s = Some v"
  shows "v < 10 ^ length s"
proof (cases s)
  case Nil
  with assms show ?thesis by (simp add: parse_u64_def)
next
  case (Cons c cs)
  with assms consider "parse_digits 0 cs = Some v" | "parse_digits 0 s = Some v"
    by (auto simp: parse_u64_def simp del: parse_digits.simps split: if_splits)
  then show ?thesis
  proof cases
    case 1
    from parse_digits_less [OF this] Cons show ?thesis by simp
  next
    case 2
    from parse_digits_less [OF this] show ?thesis by simp
  qed
qed

lemma parse_timeout_bound:
  assumes "parse_timeout s p = Some d"
  shows "d \<le> (if p = Connect then from_millis CONNECT_TIMEOUT_MAX_MILLIS else from_secs (3600 * 99999999))"
proof (cases "p = Connect")
  case True
  with assms obtain ms where "parse_u64 s = Some ms" "length s \<le> 10" "d = from_millis ms"
    by (auto simp: parse_timeout_def split: if_splits option.splits)
  then have "ms < 10 ^ 10"
    using parse_u64_less [of s ms] power_increasing [of "length s" 10 "10::nat"] by linarith
  with \<open>d = from_millis ms\<close> True show ?thesis
    by (simp add: CONNECT_TIMEOUT_MAX_MILLIS_def from_millis_def)
next
  case False
  let ?digits = "take (length s - 1) s"
  from False assms obtain v where v: "parse_u64 ?digits = Some v" "length ?digits \<le> 8"
    and d: "d \<le> from_secs (3600 * v)"
    by (cases p) (auto simp: parse_timeout_def Let_def duration_defs u64_checked_mul_def
        split: if_splits option.splits)
  have "v < 10 ^ length ?digits" using v(1) by (rule parse_u64_less)
  also have "\<dots> \<le> 10 ^ 8" using v(2) by (intro power_increasing) simp_all
  finally have "v \<le> 99999999" by simp
  with d False show ?thesis by (simp add: from_secs_def)
qed

text \<open>
  A timeout header the server accepts is bounded by its protocol's digit limit, so the
  absolute deadline computed from it exists whenever the clock reads less than \<open>2\<^sup>6\<^sup>2\<close> seconds:
  an accepted timeout is never dropped by the overflow check of \<^verbatim>\<open>Instant::checked_add\<close>.
\<close>

theorem accepted_timeout_has_deadline:
  assumes "parse_timeout s p = Some d" and "now < from_secs (2 ^ 62)"
  shows "d \<le> (if p = Connect then from_millis CONNECT_TIMEOUT_MAX_MILLIS else from_secs (3600 * 99999999)) \<and>
    absolute_deadline now (parse_timeout s p) = Some (now + d)"
proof -
  have b: "d \<le> (if p = Connect then from_millis CONNECT_TIMEOUT_MAX_MILLIS else from_secs (3600 * 99999999))"
    using assms(1) by (rule parse_timeout_bound)
  then have "now + d \<le> instant_MAX"
    using assms(2) by (simp add: instant_MAX_def from_secs_def from_millis_def
        CONNECT_TIMEOUT_MAX_MILLIS_def split: if_splits)
  with b assms(1) show ?thesis by (simp add: absolute_deadline_def instant_checked_add_def)
qed

end
