(* ===== verification/Deadline.thy ===== *)
theory Deadline
  imports Timeout ErrorModel
begin

text \<open>
  Server-side deadlines (\<^verbatim>\<open>connectrpc/src/deadline.rs\<close>): the policy that moderates the
  client's timeout, and the wrapper \<^verbatim>\<open>DeadlineStream\<close> that cuts a streaming response at an
  absolute deadline or after a stall. The wrapper is a state machine over polls: each poll
  happens at an instant, a \<^verbatim>\<open>tokio\<close> timer is the instant it is armed for together with a
  parameter \<open>lapsed\<close> that says whether a poll at an instant sees it completed, and the inner
  stream is any poll function.
\<close>

section \<open>The policy\<close>

record deadline_policy =
  policy_min :: duration
  policy_max :: "duration option"
  policy_default_timeout :: "duration option"
  policy_enforce_on_streams :: bool
  policy_inter_message_timeout :: "duration option"

definition deadline_policy_new :: deadline_policy where
  "deadline_policy_new = \<lparr>policy_min = 0, policy_max = None, policy_default_timeout = None,
     policy_enforce_on_streams = False, policy_inter_message_timeout = None\<rparr>"

definition with_min :: "duration \<Rightarrow> deadline_policy \<Rightarrow> deadline_policy" where
  "with_min d p = p\<lparr>policy_min := d\<rparr>"

definition with_max :: "duration \<Rightarrow> deadline_policy \<Rightarrow> deadline_policy" where
  "with_max d p = p\<lparr>policy_max := Some d\<rparr>"

definition with_default_timeout :: "duration \<Rightarrow> deadline_policy \<Rightarrow> deadline_policy" where
  "with_default_timeout d p = p\<lparr>policy_default_timeout := Some d\<rparr>"

definition with_enforce_on_streams :: "bool \<Rightarrow> deadline_policy \<Rightarrow> deadline_policy" where
  "with_enforce_on_streams b p = p\<lparr>policy_enforce_on_streams := b\<rparr>"

definition with_inter_message_timeout :: "duration \<Rightarrow> deadline_policy \<Rightarrow> deadline_policy" where
  "with_inter_message_timeout d p = p\<lparr>policy_inter_message_timeout := Some d\<rparr>"

text \<open>\<^verbatim>\<open>Ord::clamp\<close>; it panics when the bounds cross, here \<open>None\<close>.\<close>

definition clamp :: "duration \<Rightarrow> duration \<Rightarrow> duration \<Rightarrow> duration option" where
  "clamp d lower upper =
     (if lower > upper then None
      else Some (if d < lower then lower else if d > upper then upper else d))"

definition moderate :: "deadline_policy \<Rightarrow> duration option \<Rightarrow> duration option option" where
  "moderate p client =
     (case client of
        Some asserted \<Rightarrow>
          (let upper = (case policy_max p of Some m \<Rightarrow> m | None \<Rightarrow> duration_MAX);
               lower = min (policy_min p) upper
           in map_option Some (clamp asserted lower upper))
      | None \<Rightarrow> Some (policy_default_timeout p))"

section \<open>The response-stream wrapper\<close>

datatype 'i poll = Pending | Ready 'i

type_synonym ('s, 'i) poll_fn = "'s \<Rightarrow> 'i option poll \<times> 's"

type_synonym timer = instant

record 's deadline_stream =
  ds_inner :: "'s option"
  ds_absolute :: "timer option"
  ds_per_item :: "timer option"
  ds_inter_message :: "duration option"
  ds_finished :: bool

definition deadline_stream_new ::
    "instant \<Rightarrow> 's \<Rightarrow> duration option \<Rightarrow> duration option \<Rightarrow> 's deadline_stream" where
  "deadline_stream_new now inner absolute inter_message =
     \<lparr>ds_inner = Some inner, ds_absolute = map_option ((+) now) absolute, ds_per_item = None,
      ds_inter_message = inter_message, ds_finished = False\<rparr>"

definition absolute_error :: connect_error where
  "absolute_error = deadline_exceeded ''request deadline exceeded while streaming''"

definition stalled_error :: connect_error where
  "stalled_error = deadline_exceeded ''stream stalled past inter-message timeout''"

definition timer_lapsed :: "(timer \<Rightarrow> instant \<Rightarrow> bool) \<Rightarrow> instant \<Rightarrow> timer option \<Rightarrow> bool" where
  "timer_lapsed lapsed now t = (case t of None \<Rightarrow> False | Some d \<Rightarrow> lapsed d now)"

definition arm_timer :: "instant \<Rightarrow> 's deadline_stream \<Rightarrow> 's deadline_stream" where
  "arm_timer now ds =
     (case ds_inter_message ds of None \<Rightarrow> ds | Some d \<Rightarrow> ds\<lparr>ds_per_item := Some (now + d)\<rparr>)"

definition deadline_poll_next ::
    "(timer \<Rightarrow> instant \<Rightarrow> bool) \<Rightarrow> ('s, ('t, connect_error) result) poll_fn \<Rightarrow> instant \<Rightarrow> 's deadline_stream \<Rightarrow>
     ('t, connect_error) result option poll \<times> 's deadline_stream" where
  "deadline_poll_next lapsed poll_inner now ds0 =
     (if ds_finished ds0 then (Ready None, ds0)
      else
        (let ds = (if ds_per_item ds0 = None then arm_timer now ds0 else ds0) in
         if timer_lapsed lapsed now (ds_absolute ds)
         then (Ready (Some (Err absolute_error)), ds\<lparr>ds_finished := True, ds_inner := None\<rparr>)
         else if timer_lapsed lapsed now (ds_per_item ds)
         then (Ready (Some (Err stalled_error)), ds\<lparr>ds_finished := True, ds_inner := None\<rparr>)
         else
           (case ds_inner ds of
              None \<Rightarrow> (Ready None, ds\<lparr>ds_finished := True\<rparr>)
            | Some inner \<Rightarrow>
                (case poll_inner inner of
                   (Ready (Some item), inner') \<Rightarrow>
                     (Ready (Some item), arm_timer now (ds\<lparr>ds_inner := Some inner'\<rparr>))
                 | (Ready None, inner') \<Rightarrow> (Ready None, ds\<lparr>ds_finished := True, ds_inner := None\<rparr>)
                 | (Pending, inner') \<Rightarrow> (Pending, ds\<lparr>ds_inner := Some inner'\<rparr>)))))"

text \<open>
  The wrapped or the bare response stream that \<^verbatim>\<open>enforce_on_response_stream\<close> returns.
\<close>

datatype 's response_stream = Bare 's | Wrapped "'s deadline_stream"

definition enforce_on_response_stream ::
    "deadline_policy \<Rightarrow> instant \<Rightarrow> 's \<Rightarrow> duration option \<Rightarrow> 's response_stream" where
  "enforce_on_response_stream p now stream remaining =
     (let absolute = (if policy_enforce_on_streams p then remaining else None);
          per_item = policy_inter_message_timeout p
      in if absolute = None \<and> per_item = None then Bare stream
         else Wrapped (deadline_stream_new now stream absolute per_item))"

section \<open>Moderation\<close>

text \<open>
  Moderation never panics, whatever the policy: a client timeout is clamped between the
  policy's bounds, the maximum winning over a larger minimum, and is left alone between them;
  without one the policy's default applies unchanged.
\<close>

theorem moderate_clamps:
  "moderate p None = Some (policy_default_timeout p) \<and>
   (\<exists>e. moderate p (Some d) = Some (Some e) \<and>
     (\<forall>m. policy_max p = Some m \<longrightarrow> e \<le> m) \<and>
     (policy_max p = None \<longrightarrow> d \<le> duration_MAX \<longrightarrow> policy_min p \<le> duration_MAX \<longrightarrow> e = max d (policy_min p)) \<and>
     (\<forall>m. policy_max p = Some m \<longrightarrow> policy_min p \<le> m \<longrightarrow> e = min m (max d (policy_min p))) \<and>
     (\<forall>m. policy_max p = Some m \<longrightarrow> m < policy_min p \<longrightarrow> e = m))"
  by (auto simp: moderate_def clamp_def Let_def split: option.splits)

section \<open>Traces of the wrapper\<close>

text \<open>The outputs of polling the wrapper at the given instants.\<close>

fun deadline_run ::
    "(timer \<Rightarrow> instant \<Rightarrow> bool) \<Rightarrow> ('s, ('t, connect_error) result) poll_fn \<Rightarrow> instant list \<Rightarrow> 's deadline_stream \<Rightarrow>
     ('t, connect_error) result option poll list" where
  "deadline_run lapsed poll_inner [] ds = []"
| "deadline_run lapsed poll_inner (t # ts) ds =
     (let (o', ds') = deadline_poll_next lapsed poll_inner t ds in o' # deadline_run lapsed poll_inner ts ds')"

text \<open>The outputs of polling the inner stream alone, which is not polled again once it ended.\<close>

fun fused_trace :: "('s, 'i) poll_fn \<Rightarrow> nat \<Rightarrow> 's \<Rightarrow> 'i option poll list" where
  "fused_trace poll_inner 0 s = []"
| "fused_trace poll_inner (Suc n) s =
     (case poll_inner s of
        (Ready None, s') \<Rightarrow> replicate (Suc n) (Ready None)
      | (x, s') \<Rightarrow> x # fused_trace poll_inner n s')"

fun is_item :: "'i option poll \<Rightarrow> bool" where
  "is_item (Ready (Some i)) = True"
| "is_item _ = False"

text \<open>The instant the gap timer was last armed: the last delivery, or the instant \<open>a\<close>.\<close>

fun last_arm :: "instant \<Rightarrow> instant list \<Rightarrow> 'i option poll list \<Rightarrow> instant" where
  "last_arm a (t # ts) (x # xs) = last_arm (if is_item x then t else a) ts xs"
| "last_arm a _ _ = a"

text \<open>Whether a poll at instant \<open>t\<close> finds the gap timer lapsed that was armed at \<open>a\<close>.\<close>

definition gap_lapsed ::
    "(timer \<Rightarrow> instant \<Rightarrow> bool) \<Rightarrow> duration option \<Rightarrow> instant \<Rightarrow> instant \<Rightarrow> bool" where
  "gap_lapsed lapsed gap a t = (case gap of None \<Rightarrow> False | Some d \<Rightarrow> lapsed (a + d) t)"

text \<open>
  The contract of the wrapper on the polls at \<open>ticks\<close>: the outputs \<open>outs\<close> are those of the inner
  stream (\<open>ins\<close>) up to a cut; nothing but the end of the stream is delivered at a poll that
  finds a timer lapsed; and a cut is one error, of the timer that lapsed, followed by the end.
\<close>

definition cut_trace ::
    "(timer \<Rightarrow> instant \<Rightarrow> bool) \<Rightarrow> timer option \<Rightarrow> duration option \<Rightarrow> instant \<Rightarrow> instant list \<Rightarrow>
     ('t, connect_error) result option poll list \<Rightarrow> ('t, connect_error) result option poll list \<Rightarrow> bool" where
  "cut_trace lapsed absolute gap a ticks ins outs \<longleftrightarrow>
     (\<exists>k \<le> length ticks.
        (\<forall>i<k. outs ! i \<noteq> Ready None \<longrightarrow>
           \<not> timer_lapsed lapsed (ticks ! i) absolute \<and>
           \<not> gap_lapsed lapsed gap (last_arm a (take i ticks) outs) (ticks ! i)) \<and>
        (k = length ticks \<and> outs = ins \<or>
         k < length ticks \<and>
         (\<exists>e. outs = take k ins @ Ready (Some (Err e)) # replicate (length ticks - k - 1) (Ready None) \<and>
            (if timer_lapsed lapsed (ticks ! k) absolute then e = absolute_error
             else e = stalled_error \<and> gap_lapsed lapsed gap (last_arm a (take k ticks) ins) (ticks ! k)))))"

lemma length_fused_trace [simp]: "length (fused_trace poll_inner n s) = n"
  by (induction n arbitrary: s) (auto split: prod.splits option.splits poll.splits)

lemma deadline_run_finished:
  "ds_finished ds \<Longrightarrow> deadline_run lapsed poll_inner ts ds = replicate (length ts) (Ready None)"
  by (induction ts) (simp_all add: deadline_poll_next_def)

lemma cut_trace_now:
  assumes "timer_lapsed lapsed t absolute \<and> e = absolute_error \<or>
    \<not> timer_lapsed lapsed t absolute \<and> e = stalled_error \<and> gap_lapsed lapsed gap a t"
  shows "cut_trace lapsed absolute gap a (t # ts) ins (Ready (Some (Err e)) # replicate (length ts) (Ready None))"
  using assms unfolding cut_trace_def
  by (intro exI [of _ 0]) auto

lemma cut_trace_end:
  "cut_trace lapsed absolute gap a ticks (replicate (length ticks) (Ready None)) (replicate (length ticks) (Ready None))"
  unfolding cut_trace_def by (intro exI [of _ "length ticks"]) simp

lemma cut_trace_step:
  assumes step: "cut_trace lapsed absolute gap (if is_item x then t else a) ts ins outs"
    and "\<not> timer_lapsed lapsed t absolute" "\<not> gap_lapsed lapsed gap a t"
  shows "cut_trace lapsed absolute gap a (t # ts) (x # ins) (x # outs)"
proof -
  let ?a = "if is_item x then t else a"
  obtain k where k: "k \<le> length ts"
    and pre: "\<forall>i<k. outs ! i \<noteq> Ready None \<longrightarrow> \<not> timer_lapsed lapsed (ts ! i) absolute \<and>
        \<not> gap_lapsed lapsed gap (last_arm ?a (take i ts) outs) (ts ! i)"
    and cut: "k = length ts \<and> outs = ins \<or> k < length ts \<and>
         (\<exists>e. outs = take k ins @ Ready (Some (Err e)) # replicate (length ts - k - 1) (Ready None) \<and>
            (if timer_lapsed lapsed (ts ! k) absolute then e = absolute_error
             else e = stalled_error \<and> gap_lapsed lapsed gap (last_arm ?a (take k ts) ins) (ts ! k)))"
    using step unfolding cut_trace_def by blast
  have pre': "\<forall>i<Suc k. (x # outs) ! i \<noteq> Ready None \<longrightarrow>
      \<not> timer_lapsed lapsed ((t # ts) ! i) absolute \<and>
      \<not> gap_lapsed lapsed gap (last_arm a (take i (t # ts)) (x # outs)) ((t # ts) ! i)"
  proof (intro allI impI)
    fix i
    assume i: "i < Suc k" "(x # outs) ! i \<noteq> Ready None"
    show "\<not> timer_lapsed lapsed ((t # ts) ! i) absolute \<and>
        \<not> gap_lapsed lapsed gap (last_arm a (take i (t # ts)) (x # outs)) ((t # ts) ! i)"
    proof (cases i)
      case 0
      then show ?thesis using assms(2,3) by simp
    next
      case (Suc j)
      then show ?thesis using i pre by simp
    qed
  qed
  show ?thesis
    unfolding cut_trace_def
    using k cut pre' by (intro exI [of _ "Suc k"]) auto
qed

text \<open>The timers of a running wrapper whose gap timer was armed at \<open>a\<close>.\<close>

definition armed_at :: "instant \<Rightarrow> 's deadline_stream \<Rightarrow> bool" where
  "armed_at a ds \<longleftrightarrow> ds_per_item ds = map_option ((+) a) (ds_inter_message ds)"

lemma arm_timer_simps [simp]:
  "ds_inner (arm_timer t ds) = ds_inner ds" "ds_absolute (arm_timer t ds) = ds_absolute ds"
  "ds_finished (arm_timer t ds) = ds_finished ds"
  "ds_inter_message (arm_timer t ds) = ds_inter_message ds"
  by (simp_all add: arm_timer_def split: option.splits)

lemma arm_timer_idem [simp]: "arm_timer t (arm_timer t ds) = arm_timer t ds"
  by (simp add: arm_timer_def split: option.splits)

lemma arm_timer_armed: "ds_per_item ds = None \<or> ds_inter_message ds \<noteq> None \<Longrightarrow> armed_at t (arm_timer t ds)"
  by (auto simp: arm_timer_def armed_at_def split: option.splits)

lemma armed_keeps: "armed_at a ds \<Longrightarrow> (if ds_per_item ds = None then arm_timer t ds else ds) = ds"
  by (simp add: armed_at_def arm_timer_def split: option.splits)

lemma deadline_poll_armed:
  assumes "armed_at a ds" "\<not> ds_finished ds" "ds_inner ds = Some s"
  shows "deadline_poll_next lapsed poll_inner t ds =
    (if timer_lapsed lapsed t (ds_absolute ds)
     then (Ready (Some (Err absolute_error)), ds\<lparr>ds_finished := True, ds_inner := None\<rparr>)
     else if gap_lapsed lapsed (ds_inter_message ds) a t
     then (Ready (Some (Err stalled_error)), ds\<lparr>ds_finished := True, ds_inner := None\<rparr>)
     else (case poll_inner s of
             (Ready (Some item), s') \<Rightarrow> (Ready (Some item), arm_timer t (ds\<lparr>ds_inner := Some s'\<rparr>))
           | (Ready None, s') \<Rightarrow> (Ready None, ds\<lparr>ds_finished := True, ds_inner := None\<rparr>)
           | (Pending, s') \<Rightarrow> (Pending, ds\<lparr>ds_inner := Some s'\<rparr>)))"
proof -
  have "timer_lapsed lapsed t (ds_per_item ds) = gap_lapsed lapsed (ds_inter_message ds) a t"
    using assms(1) by (simp add: armed_at_def timer_lapsed_def gap_lapsed_def split: option.splits)
  then show ?thesis
    using assms(2,3) unfolding deadline_poll_next_def armed_keeps [OF assms(1)] Let_def by simp
qed

lemma deadline_run_cut:
  assumes "armed_at a ds" "\<not> ds_finished ds" "ds_inner ds = Some s"
  shows "cut_trace lapsed (ds_absolute ds) (ds_inter_message ds) a ticks
    (fused_trace poll_inner (length ticks) s) (deadline_run lapsed poll_inner ticks ds)"
  using assms
proof (induction ticks arbitrary: a ds s)
  case Nil
  then show ?case by (simp add: cut_trace_def)
next
  case (Cons t ts)
  note poll = deadline_poll_armed [OF Cons.prems]
  show ?case
  proof (cases "timer_lapsed lapsed t (ds_absolute ds) \<or> gap_lapsed lapsed (ds_inter_message ds) a t")
    case True
    then show ?thesis
      by (auto simp: poll deadline_run_finished intro!: cut_trace_now)
  next
    case False
    then have nl: "\<not> timer_lapsed lapsed t (ds_absolute ds)" "\<not> gap_lapsed lapsed (ds_inter_message ds) a t"
      by auto
    obtain r s' where p: "poll_inner s = (r, s')" by (cases "poll_inner s")
    show ?thesis
    proof (cases r)
      case Pending
      let ?ds = "ds\<lparr>ds_inner := Some s'\<rparr>"
      have "armed_at a ?ds" using Cons.prems(1) by (simp add: armed_at_def)
      from Cons.IH [OF this, of s'] Cons.prems(2) nl Pending show ?thesis
        by (auto simp: poll p intro!: cut_trace_step)
    next
      case (Ready r')
      show ?thesis
      proof (cases r')
        case None
        then show ?thesis
          using nl Ready cut_trace_end [of lapsed "ds_absolute ds" "ds_inter_message ds" a "t # ts"]
          by (simp add: poll p deadline_run_finished)
      next
        case (Some item)
        let ?ds = "arm_timer t (ds\<lparr>ds_inner := Some s'\<rparr>)"
        have "armed_at t ?ds"
          using Cons.prems(1) by (intro arm_timer_armed) (auto simp: armed_at_def)
        from Cons.IH [OF this, of s'] Cons.prems(2) nl Ready Some show ?thesis
          by (auto simp: poll p intro!: cut_trace_step)
      qed
    qed
  qed
qed

lemma deadline_run_arms:
  assumes "ds_per_item ds = None" "\<not> ds_finished ds"
  shows "deadline_run lapsed poll_inner (t # ts) ds = deadline_run lapsed poll_inner (t # ts) (arm_timer t ds)"
proof -
  have "deadline_poll_next lapsed poll_inner t ds = deadline_poll_next lapsed poll_inner t (arm_timer t ds)"
    using assms by (simp add: deadline_poll_next_def)
  then show ?thesis by simp
qed

text \<open>
  C16. The deadline wrapper is transparent up to one cut. Polled at any instants, with any
  inner stream and any timer, it delivers the inner stream's own outputs; no item is delivered
  at a poll that finds the absolute deadline lapsed, or the gap since the last delivery (since
  the first poll, before any) lapsed; when a timer lapses it delivers exactly one
  \<^verbatim>\<open>deadline_exceeded\<close> error, the absolute one taking precedence, and then ends for good.
\<close>

theorem deadline_stream_cuts_once:
  "cut_trace lapsed (map_option ((+) start) absolute) gap t (t # ts)
     (fused_trace poll_inner (Suc (length ts)) s)
     (deadline_run lapsed poll_inner (t # ts) (deadline_stream_new start s absolute gap))"
proof -
  let ?ds = "deadline_stream_new start s absolute gap"
  have "armed_at t (arm_timer t ?ds)"
    by (rule arm_timer_armed) (simp add: deadline_stream_new_def)
  from deadline_run_cut [OF this, of s lapsed "t # ts" poll_inner] show ?thesis
    using deadline_run_arms [of ?ds lapsed poll_inner t ts]
    by (simp add: deadline_stream_new_def del: deadline_run.simps fused_trace.simps)
qed

end
