(* ===== verification/MethodSpec.thy ===== *)
theory MethodSpec
  imports Prelude
begin

text \<open>
  Static method metadata (\<^verbatim>\<open>connectrpc/src/spec.rs\<close>) and the receive limits
  (\<^verbatim>\<open>Limits\<close> of \<^verbatim>\<open>connectrpc/src/service.rs\<close>). A function that panics in debug builds
  takes the build mode \<open>debug\<close> and returns \<open>None\<close> for the panic.
\<close>

section \<open>Method kinds and specs\<close>

datatype method_kind = Unary | ServerStreaming | ClientStreaming | BidiStreaming

datatype stream_type = StUnary | StClientStream | StServerStream | StBidiStream

fun stream_type_from_kind :: "method_kind \<Rightarrow> stream_type" where
  "stream_type_from_kind Unary = StUnary"
| "stream_type_from_kind ClientStreaming = StClientStream"
| "stream_type_from_kind ServerStreaming = StServerStream"
| "stream_type_from_kind BidiStreaming = StBidiStream"

fun kind_from_stream_type :: "stream_type \<Rightarrow> method_kind" where
  "kind_from_stream_type StUnary = Unary"
| "kind_from_stream_type StClientStream = ClientStreaming"
| "kind_from_stream_type StServerStream = ServerStreaming"
| "kind_from_stream_type StBidiStream = BidiStreaming"

datatype idempotency_level = LevelUnknown | NoSideEffects | Idempotent

datatype spec_origin = OriginServer | OriginClient

record spec =
  procedure :: string
  spec_stream_type :: stream_type
  spec_origin_of :: spec_origin
  spec_idempotency_level :: idempotency_level

fun any_slash :: "string \<Rightarrow> bool" where
  "any_slash [] = False"
| "any_slash (c # cs) = (if c = CHR ''/'' then True else any_slash cs)"

definition procedure_is_well_formed :: "string \<Rightarrow> bool" where
  "procedure_is_well_formed p =
     (case p of [] \<Rightarrow> False | c # cs \<Rightarrow> (if c \<noteq> CHR ''/'' then False else any_slash cs))"

definition debug_assert_well_formed :: "bool \<Rightarrow> string \<Rightarrow> unit option" where
  "debug_assert_well_formed debug p =
     (if debug \<and> \<not> procedure_is_well_formed p then None else Some ())"

definition spec_server :: "bool \<Rightarrow> string \<Rightarrow> stream_type \<Rightarrow> spec option" where
  "spec_server debug p st = Option.bind (debug_assert_well_formed debug p) (\<lambda>_.
     Some \<lparr>procedure = p, spec_stream_type = st, spec_origin_of = OriginServer,
           spec_idempotency_level = LevelUnknown\<rparr>)"

definition spec_client :: "bool \<Rightarrow> string \<Rightarrow> stream_type \<Rightarrow> spec option" where
  "spec_client debug p st = Option.bind (debug_assert_well_formed debug p) (\<lambda>_.
     Some \<lparr>procedure = p, spec_stream_type = st, spec_origin_of = OriginClient,
           spec_idempotency_level = LevelUnknown\<rparr>)"

definition with_idempotency_level :: "idempotency_level \<Rightarrow> spec \<Rightarrow> spec" where
  "with_idempotency_level l s = s\<lparr>spec_idempotency_level := l\<rparr>"

definition with_origin :: "spec_origin \<Rightarrow> spec \<Rightarrow> spec" where
  "with_origin og s = s\<lparr>spec_origin_of := og\<rparr>"

definition same_method :: "spec \<Rightarrow> spec \<Rightarrow> bool" where
  "same_method s t \<longleftrightarrow> procedure s = procedure t"

text \<open>\<^verbatim>\<open>trim_start_matches('/')\<close> and \<^verbatim>\<open>rsplit_once('/')\<close>.\<close>

definition trim_slashes :: "string \<Rightarrow> string" where
  "trim_slashes p = dropWhile (\<lambda>c. c = CHR ''/'') p"

definition rsplit_once :: "char \<Rightarrow> string \<Rightarrow> (string \<times> string) option" where
  "rsplit_once c s =
     (if c \<in> set s
      then Some (butlast (rev (dropWhile (\<lambda>d. d \<noteq> c) (rev s))), rev (takeWhile (\<lambda>d. d \<noteq> c) (rev s)))
      else None)"

definition spec_service :: "spec \<Rightarrow> string" where
  "spec_service s =
     (let p = trim_slashes (procedure s) in case rsplit_once (CHR ''/'') p of Some (svc, _) \<Rightarrow> svc | None \<Rightarrow> p)"

definition spec_method :: "spec \<Rightarrow> string" where
  "spec_method s =
     (let p = trim_slashes (procedure s) in case rsplit_once (CHR ''/'') p of Some (_, m) \<Rightarrow> m | None \<Rightarrow> p)"

section \<open>Limits\<close>

definition DEFAULT_MAX_REQUEST_BODY_SIZE :: usize where
  "DEFAULT_MAX_REQUEST_BODY_SIZE = 4 * 1024 * 1024"

definition DEFAULT_MAX_MESSAGE_SIZE :: usize where
  "DEFAULT_MAX_MESSAGE_SIZE = 4 * 1024 * 1024"

record limits =
  max_request_body_size :: usize
  max_message_size :: usize
  element_memory_limit :: usize

text \<open>The protobuf library's default element budget is a parameter.\<close>

definition limits_default :: "usize \<Rightarrow> limits" where
  "limits_default buffa_DEFAULT_ELEMENT_MEMORY_LIMIT =
     \<lparr>max_request_body_size = DEFAULT_MAX_REQUEST_BODY_SIZE, max_message_size = DEFAULT_MAX_MESSAGE_SIZE,
      element_memory_limit = buffa_DEFAULT_ELEMENT_MEMORY_LIMIT\<rparr>"

definition limits_unlimited :: limits where
  "limits_unlimited = \<lparr>max_request_body_size = usize_MAX, max_message_size = usize_MAX,
     element_memory_limit = usize_MAX\<rparr>"

definition with_max_request_body_size :: "usize \<Rightarrow> limits \<Rightarrow> limits" where
  "with_max_request_body_size n l = l\<lparr>max_request_body_size := n\<rparr>"

definition with_max_message_size :: "usize \<Rightarrow> limits \<Rightarrow> limits" where
  "with_max_message_size n l = l\<lparr>max_message_size := n\<rparr>"

definition with_element_memory_limit :: "usize \<Rightarrow> limits \<Rightarrow> limits" where
  "with_element_memory_limit n l = l\<lparr>element_memory_limit := n\<rparr>"

section \<open>Properties\<close>

interpretation stream_kinds: wire_code stream_type_from_kind "\<lambda>st. Some (kind_from_stream_type st)"
proof
  show "Some (kind_from_stream_type (stream_type_from_kind k)) = Some k" for k by (cases k) simp_all
qed

lemma any_slash_iff [simp]: "any_slash s \<longleftrightarrow> CHR ''/'' \<in> set s"
  by (induction s) auto

lemma procedure_is_well_formed_iff:
  "procedure_is_well_formed p \<longleftrightarrow> (\<exists>svc m. p = CHR ''/'' # svc @ CHR ''/'' # m)"
  by (cases p) (auto simp: procedure_is_well_formed_def dest: split_list)

lemma rsplit_once_append: "c \<notin> set m \<Longrightarrow> rsplit_once c (s @ c # m) = Some (s, m)"
proof -
  assume "c \<notin> set m"
  then have all: "\<And>x. x \<in> set (rev m) \<Longrightarrow> x \<noteq> c" by auto
  have "takeWhile (\<lambda>d. d \<noteq> c) (rev m @ c # rev s) = rev m"
    using takeWhile_append2 [of "rev m" "\<lambda>d. d \<noteq> c" "c # rev s"] all by simp
  moreover have "dropWhile (\<lambda>d. d \<noteq> c) (rev m @ c # rev s) = c # rev s"
    using dropWhile_append2 [of "rev m" "\<lambda>d. d \<noteq> c" "c # rev s"] all by simp
  ultimately show ?thesis by (simp add: rsplit_once_def butlast_append)
qed

text \<open>
  A generated procedure path splits into the service and method it was built from: for a
  non-empty service name that does not start with a slash and a method name without one, the
  path \<open>/service/method\<close> is well-formed, its constructor does not panic in any build, and
  \<^verbatim>\<open>service()\<close> and \<^verbatim>\<open>method()\<close> return the two parts.
\<close>

theorem procedure_parts:
  assumes "svc \<noteq> []" and "hd svc \<noteq> CHR ''/''" and "CHR ''/'' \<notin> set m"
  defines "p \<equiv> CHR ''/'' # svc @ CHR ''/'' # m"
  shows "\<exists>s. spec_server debug p st = Some s \<and> spec_service s = svc \<and> spec_method s = m \<and>
    spec_client debug p st = Some (with_origin OriginClient s) \<and> same_method s (with_origin OriginClient s)"
proof -
  have wf: "procedure_is_well_formed p" unfolding procedure_is_well_formed_iff p_def by blast
  have "trim_slashes p = svc @ CHR ''/'' # m"
    using assms(1,2) by (cases svc) (simp_all add: p_def trim_slashes_def)
  with wf rsplit_once_append [OF assms(3), of svc] show ?thesis
    by (simp add: spec_server_def spec_client_def debug_assert_well_formed_def spec_service_def
        spec_method_def with_origin_def same_method_def)
qed

end
