(* ===== verification/Router.thy ===== *)
theory Router
  imports MethodSpec Protocol ErrorModel
begin

text \<open>
  Routing: the dispatch interface (\<^verbatim>\<open>connectrpc/src/dispatcher.rs\<close>) as a record of its five
  operations, \<^verbatim>\<open>Router\<close> (\<^verbatim>\<open>connectrpc/src/router.rs\<close>) and the \<^verbatim>\<open>Chain\<close> combinator as
  implementations of it. A handler is a function of the request context, the request and the
  codec; the typed handler's adaptor (\<^verbatim>\<open>UnaryHandlerWrapper::new\<close> and its relatives) is a
  parameter \<open>wrap\<close>. The result of a future is the value it resolves to, and a registration
  that panics returns \<open>None\<close>. The type variables are the request context, the unary payload,
  the request stream, and the unary and streaming responses.
\<close>

section \<open>The dispatch interface\<close>

record method_descriptor =
  md_kind :: method_kind
  md_idempotent :: bool
  md_spec :: "spec option"
  md_limits :: "limits option"

definition from_kind :: "method_kind \<Rightarrow> method_descriptor" where
  "from_kind k = \<lparr>md_kind = k, md_idempotent = False, md_spec = None, md_limits = None\<rparr>"

definition with_idempotent :: "bool \<Rightarrow> method_descriptor \<Rightarrow> method_descriptor" where
  "with_idempotent b d = d\<lparr>md_idempotent := b\<rparr>"

definition desc_unary :: "bool \<Rightarrow> method_descriptor" where
  "desc_unary idempotent = with_idempotent idempotent (from_kind Unary)"

definition desc_server_streaming :: method_descriptor where
  "desc_server_streaming = from_kind ServerStreaming"

definition desc_client_streaming :: method_descriptor where
  "desc_client_streaming = from_kind ClientStreaming"

definition desc_bidi_streaming :: method_descriptor where
  "desc_bidi_streaming = from_kind BidiStreaming"

definition desc_with_spec :: "spec \<Rightarrow> method_descriptor \<Rightarrow> method_descriptor" where
  "desc_with_spec s d = d\<lparr>md_spec := Some s\<rparr>"

definition desc_with_limits :: "limits \<Rightarrow> method_descriptor \<Rightarrow> method_descriptor" where
  "desc_with_limits l d = d\<lparr>md_limits := Some l\<rparr>"

type_synonym ('ctx, 'req, 'res) erased_handler = "'ctx \<Rightarrow> 'req \<Rightarrow> codec_format \<Rightarrow> 'res connect_result"

record ('ctx, 'pay, 'reqs, 'ures, 'sres) dispatcher =
  d_lookup :: "string \<Rightarrow> method_descriptor option"
  d_call_unary :: "string \<Rightarrow> ('ctx, 'pay, 'ures) erased_handler"
  d_call_server_streaming :: "string \<Rightarrow> ('ctx, bytes, 'sres) erased_handler"
  d_call_client_streaming :: "string \<Rightarrow> ('ctx, 'reqs, 'ures) erased_handler"
  d_call_bidi_streaming :: "string \<Rightarrow> ('ctx, 'reqs, 'sres) erased_handler"

definition unimplemented_unary :: "string \<Rightarrow> 'ures connect_result" where
  "unimplemented_unary path = Err (unimplemented (''method not found: '' @ path))"

definition unimplemented_streaming :: "string \<Rightarrow> 'sres connect_result" where
  "unimplemented_streaming path = Err (unimplemented (''method not found: '' @ path))"

section \<open>The router\<close>

datatype ('ctx, 'pay, 'reqs, 'ures, 'sres) rpc_method =
    MUnary "('ctx, 'pay, 'ures) erased_handler" bool
  | MStreaming "('ctx, bytes, 'sres) erased_handler" method_kind
  | MClientStreaming "('ctx, 'reqs, 'ures) erased_handler"
  | MBidiStreaming "('ctx, 'reqs, 'sres) erased_handler"

record ('ctx, 'pay, 'reqs, 'ures, 'sres) registered_method =
  rm_method :: "('ctx, 'pay, 'reqs, 'ures, 'sres) rpc_method"
  rm_spec :: "spec option"
  rm_limits :: "limits option"

definition from_method ::
    "('ctx, 'pay, 'reqs, 'ures, 'sres) rpc_method \<Rightarrow> ('ctx, 'pay, 'reqs, 'ures, 'sres) registered_method" where
  "from_method m = \<lparr>rm_method = m, rm_spec = None, rm_limits = None\<rparr>"

record ('ctx, 'pay, 'reqs, 'ures, 'sres) router =
  r_methods :: "(string \<times> ('ctx, 'pay, 'reqs, 'ures, 'sres) registered_method) list"
  r_allow_overrides :: bool

definition router_new :: "('ctx, 'pay, 'reqs, 'ures, 'sres) router" where
  "router_new = \<lparr>r_methods = [], r_allow_overrides = False\<rparr>"

definition allow_overrides ::
    "('ctx, 'pay, 'reqs, 'ures, 'sres) router \<Rightarrow> ('ctx, 'pay, 'reqs, 'ures, 'sres) router" where
  "allow_overrides r = r\<lparr>r_allow_overrides := True\<rparr>"

definition contains_key :: "(string \<times> 'v) list \<Rightarrow> string \<Rightarrow> bool" where
  "contains_key m k \<longleftrightarrow> map_of m k \<noteq> None"

text \<open>\<^verbatim>\<open>HashMap::extend\<close>: the entries of the argument are inserted in its iteration order.\<close>

definition hash_extend :: "(string \<times> 'v) list \<Rightarrow> (string \<times> 'v) list \<Rightarrow> (string \<times> 'v) list" where
  "hash_extend m n = fold (\<lambda>(k, v). AList.update k v) n m"

definition try_merge_in_place ::
    "('ctx, 'pay, 'reqs, 'ures, 'sres) router \<Rightarrow> ('ctx, 'pay, 'reqs, 'ures, 'sres) router \<Rightarrow>
     (unit, string list) result \<times> ('ctx, 'pay, 'reqs, 'ures, 'sres) router" where
  "try_merge_in_place r other =
     (let conflicts = filter (contains_key (r_methods r)) (map fst (r_methods other)) in
      if \<not> r_allow_overrides r \<and> conflicts \<noteq> [] then (Err (sort conflicts), r)
      else (Ok (), r\<lparr>r_methods := hash_extend (r_methods r) (r_methods other)\<rparr>))"

definition try_merge ::
    "('ctx, 'pay, 'reqs, 'ures, 'sres) router \<Rightarrow> ('ctx, 'pay, 'reqs, 'ures, 'sres) router \<Rightarrow>
     (('ctx, 'pay, 'reqs, 'ures, 'sres) router, string list) result" where
  "try_merge r other =
     (case try_merge_in_place r other of (Err c, _) \<Rightarrow> Err c | (Ok _, r') \<Rightarrow> Ok r')"

definition merge_in_place ::
    "('ctx, 'pay, 'reqs, 'ures, 'sres) router \<Rightarrow> ('ctx, 'pay, 'reqs, 'ures, 'sres) router \<Rightarrow>
     ('ctx, 'pay, 'reqs, 'ures, 'sres) router option" where
  "merge_in_place r other =
     (case try_merge_in_place r other of (Err _, _) \<Rightarrow> None | (Ok _, r') \<Rightarrow> Some r')"

definition router_merge ::
    "('ctx, 'pay, 'reqs, 'ures, 'sres) router \<Rightarrow> ('ctx, 'pay, 'reqs, 'ures, 'sres) router \<Rightarrow>
     ('ctx, 'pay, 'reqs, 'ures, 'sres) router option" where
  "router_merge r other = merge_in_place r other"

fun merge_loop ::
    "('ctx, 'pay, 'reqs, 'ures, 'sres) router \<Rightarrow> ('ctx, 'pay, 'reqs, 'ures, 'sres) router list \<Rightarrow>
     ('ctx, 'pay, 'reqs, 'ures, 'sres) router option" where
  "merge_loop merged [] = Some merged"
| "merge_loop merged (r # rs) = Option.bind (merge_in_place merged r) (\<lambda>m. merge_loop m rs)"

definition merge_routers ::
    "('ctx, 'pay, 'reqs, 'ures, 'sres) router list \<Rightarrow> ('ctx, 'pay, 'reqs, 'ures, 'sres) router option" where
  "merge_routers rs = merge_loop router_new rs"

definition insert_method ::
    "string \<Rightarrow> ('ctx, 'pay, 'reqs, 'ures, 'sres) registered_method \<Rightarrow> ('ctx, 'pay, 'reqs, 'ures, 'sres) router \<Rightarrow>
     ('ctx, 'pay, 'reqs, 'ures, 'sres) router option" where
  "insert_method path m r =
     (if \<not> r_allow_overrides r \<and> contains_key (r_methods r) path then None
      else Some (r\<lparr>r_methods := AList.update path m (r_methods r)\<rparr>))"

definition method_path :: "string \<Rightarrow> string \<Rightarrow> string" where
  "method_path service_name method_name = service_name @ ''/'' @ method_name"

definition route_unary_internal ::
    "('h \<Rightarrow> ('ctx, 'pay, 'ures) erased_handler) \<Rightarrow> string \<Rightarrow> string \<Rightarrow> 'h \<Rightarrow> bool \<Rightarrow>
     ('ctx, 'pay, 'reqs, 'ures, 'sres) router \<Rightarrow> ('ctx, 'pay, 'reqs, 'ures, 'sres) router option" where
  "route_unary_internal wrap svc meth handler idempotent r =
     insert_method (method_path svc meth) (from_method (MUnary (wrap handler) idempotent)) r"

definition route ::
    "('h \<Rightarrow> ('ctx, 'pay, 'ures) erased_handler) \<Rightarrow> string \<Rightarrow> string \<Rightarrow> 'h \<Rightarrow>
     ('ctx, 'pay, 'reqs, 'ures, 'sres) router \<Rightarrow> ('ctx, 'pay, 'reqs, 'ures, 'sres) router option" where
  "route wrap svc meth handler r = route_unary_internal wrap svc meth handler False r"

definition route_idempotent ::
    "('h \<Rightarrow> ('ctx, 'pay, 'ures) erased_handler) \<Rightarrow> string \<Rightarrow> string \<Rightarrow> 'h \<Rightarrow>
     ('ctx, 'pay, 'reqs, 'ures, 'sres) router \<Rightarrow> ('ctx, 'pay, 'reqs, 'ures, 'sres) router option" where
  "route_idempotent wrap svc meth handler r = route_unary_internal wrap svc meth handler True r"

definition route_server_stream ::
    "('h \<Rightarrow> ('ctx, bytes, 'sres) erased_handler) \<Rightarrow> string \<Rightarrow> string \<Rightarrow> 'h \<Rightarrow>
     ('ctx, 'pay, 'reqs, 'ures, 'sres) router \<Rightarrow> ('ctx, 'pay, 'reqs, 'ures, 'sres) router option" where
  "route_server_stream wrap svc meth handler r =
     insert_method (method_path svc meth) (from_method (MStreaming (wrap handler) ServerStreaming)) r"

definition route_client_stream ::
    "('h \<Rightarrow> ('ctx, 'reqs, 'ures) erased_handler) \<Rightarrow> string \<Rightarrow> string \<Rightarrow> 'h \<Rightarrow>
     ('ctx, 'pay, 'reqs, 'ures, 'sres) router \<Rightarrow> ('ctx, 'pay, 'reqs, 'ures, 'sres) router option" where
  "route_client_stream wrap svc meth handler r =
     insert_method (method_path svc meth) (from_method (MClientStreaming (wrap handler))) r"

definition route_bidi_stream ::
    "('h \<Rightarrow> ('ctx, 'reqs, 'sres) erased_handler) \<Rightarrow> string \<Rightarrow> string \<Rightarrow> 'h \<Rightarrow>
     ('ctx, 'pay, 'reqs, 'ures, 'sres) router \<Rightarrow> ('ctx, 'pay, 'reqs, 'ures, 'sres) router option" where
  "route_bidi_stream wrap svc meth handler r =
     insert_method (method_path svc meth) (from_method (MBidiStreaming (wrap handler))) r"

text \<open>The routes for zero-copy views differ in the adaptor they wrap the handler in.\<close>

definition route_view_internal ::
    "('h \<Rightarrow> ('ctx, 'pay, 'ures) erased_handler) \<Rightarrow> string \<Rightarrow> string \<Rightarrow> 'h \<Rightarrow> bool \<Rightarrow>
     ('ctx, 'pay, 'reqs, 'ures, 'sres) router \<Rightarrow> ('ctx, 'pay, 'reqs, 'ures, 'sres) router option" where
  "route_view_internal wrap svc meth handler idempotent r =
     insert_method (method_path svc meth) (from_method (MUnary (wrap handler) idempotent)) r"

definition route_view ::
    "('h \<Rightarrow> ('ctx, 'pay, 'ures) erased_handler) \<Rightarrow> string \<Rightarrow> string \<Rightarrow> 'h \<Rightarrow>
     ('ctx, 'pay, 'reqs, 'ures, 'sres) router \<Rightarrow> ('ctx, 'pay, 'reqs, 'ures, 'sres) router option" where
  "route_view wrap svc meth handler r = route_view_internal wrap svc meth handler False r"

definition route_view_idempotent ::
    "('h \<Rightarrow> ('ctx, 'pay, 'ures) erased_handler) \<Rightarrow> string \<Rightarrow> string \<Rightarrow> 'h \<Rightarrow>
     ('ctx, 'pay, 'reqs, 'ures, 'sres) router \<Rightarrow> ('ctx, 'pay, 'reqs, 'ures, 'sres) router option" where
  "route_view_idempotent wrap svc meth handler r = route_view_internal wrap svc meth handler True r"

definition route_view_server_stream ::
    "('h \<Rightarrow> ('ctx, bytes, 'sres) erased_handler) \<Rightarrow> string \<Rightarrow> string \<Rightarrow> 'h \<Rightarrow>
     ('ctx, 'pay, 'reqs, 'ures, 'sres) router \<Rightarrow> ('ctx, 'pay, 'reqs, 'ures, 'sres) router option" where
  "route_view_server_stream wrap svc meth handler r =
     insert_method (method_path svc meth) (from_method (MStreaming (wrap handler) ServerStreaming)) r"

definition route_view_client_stream ::
    "('h \<Rightarrow> ('ctx, 'reqs, 'ures) erased_handler) \<Rightarrow> string \<Rightarrow> string \<Rightarrow> 'h \<Rightarrow>
     ('ctx, 'pay, 'reqs, 'ures, 'sres) router \<Rightarrow> ('ctx, 'pay, 'reqs, 'ures, 'sres) router option" where
  "route_view_client_stream wrap svc meth handler r =
     insert_method (method_path svc meth) (from_method (MClientStreaming (wrap handler))) r"

definition route_view_bidi_stream ::
    "('h \<Rightarrow> ('ctx, 'reqs, 'sres) erased_handler) \<Rightarrow> string \<Rightarrow> string \<Rightarrow> 'h \<Rightarrow>
     ('ctx, 'pay, 'reqs, 'ures, 'sres) router \<Rightarrow> ('ctx, 'pay, 'reqs, 'ures, 'sres) router option" where
  "route_view_bidi_stream wrap svc meth handler r =
     insert_method (method_path svc meth) (from_method (MBidiStreaming (wrap handler))) r"

definition strip_slash :: "string \<Rightarrow> string" where
  "strip_slash p = (case strip_prefix ''/'' p of Some q \<Rightarrow> q | None \<Rightarrow> p)"

definition with_spec ::
    "bool \<Rightarrow> spec \<Rightarrow> ('ctx, 'pay, 'reqs, 'ures, 'sres) router \<Rightarrow> ('ctx, 'pay, 'reqs, 'ures, 'sres) router option" where
  "with_spec debug s r =
     (let key = strip_slash (procedure s) in
      case map_of (r_methods r) key of
        Some m \<Rightarrow>
          (let updated = Some (r\<lparr>r_methods := AList.update key (m\<lparr>rm_spec := Some s\<rparr>) (r_methods r)\<rparr>) in
           case rm_method m of
             MUnary _ idempotent \<Rightarrow>
               (if debug \<and> idempotent \<noteq> (spec_idempotency_level s = NoSideEffects) then None else updated)
           | _ \<Rightarrow> updated)
      | None \<Rightarrow> (if debug then None else Some r))"

definition with_route_limits ::
    "string \<Rightarrow> limits \<Rightarrow> ('ctx, 'pay, 'reqs, 'ures, 'sres) router \<Rightarrow> ('ctx, 'pay, 'reqs, 'ures, 'sres) router option" where
  "with_route_limits proc l r =
     (let key = strip_slash proc in
      case map_of (r_methods r) key of
        Some m \<Rightarrow> Some (r\<lparr>r_methods := AList.update key (m\<lparr>rm_limits := Some l\<rparr>) (r_methods r)\<rparr>)
      | None \<Rightarrow> None)"

definition router_paths :: "('ctx, 'pay, 'reqs, 'ures, 'sres) router \<Rightarrow> string list" where
  "router_paths r = map fst (r_methods r)"

definition has_method :: "('ctx, 'pay, 'reqs, 'ures, 'sres) router \<Rightarrow> string \<Rightarrow> bool" where
  "has_method r path \<longleftrightarrow> contains_key (r_methods r) (strip_slash path)"

section \<open>The router as a dispatcher\<close>

fun method_desc :: "('ctx, 'pay, 'reqs, 'ures, 'sres) rpc_method \<Rightarrow> method_descriptor" where
  "method_desc (MUnary h idempotent) = desc_unary idempotent"
| "method_desc (MStreaming h k) = from_kind k"
| "method_desc (MClientStreaming h) = desc_client_streaming"
| "method_desc (MBidiStreaming h) = desc_bidi_streaming"

definition router_lookup :: "('ctx, 'pay, 'reqs, 'ures, 'sres) router \<Rightarrow> string \<Rightarrow> method_descriptor option" where
  "router_lookup r path =
     (case map_of (r_methods r) path of
        None \<Rightarrow> None
      | Some m \<Rightarrow> Some ((method_desc (rm_method m))\<lparr>md_spec := rm_spec m, md_limits := rm_limits m\<rparr>))"

definition router_call_unary ::
    "('ctx, 'pay, 'reqs, 'ures, 'sres) router \<Rightarrow> string \<Rightarrow> ('ctx, 'pay, 'ures) erased_handler" where
  "router_call_unary r path ctx request format =
     (case map_option rm_method (map_of (r_methods r) path) of
        Some (MUnary handler _) \<Rightarrow> handler ctx request format
      | _ \<Rightarrow> unimplemented_unary path)"

definition router_call_server_streaming ::
    "('ctx, 'pay, 'reqs, 'ures, 'sres) router \<Rightarrow> string \<Rightarrow> ('ctx, bytes, 'sres) erased_handler" where
  "router_call_server_streaming r path ctx request format =
     (case map_option rm_method (map_of (r_methods r) path) of
        Some (MStreaming handler _) \<Rightarrow> handler ctx request format
      | _ \<Rightarrow> unimplemented_streaming path)"

definition router_call_client_streaming ::
    "('ctx, 'pay, 'reqs, 'ures, 'sres) router \<Rightarrow> string \<Rightarrow> ('ctx, 'reqs, 'ures) erased_handler" where
  "router_call_client_streaming r path ctx requests format =
     (case map_option rm_method (map_of (r_methods r) path) of
        Some (MClientStreaming handler) \<Rightarrow> handler ctx requests format
      | _ \<Rightarrow> unimplemented_unary path)"

definition router_call_bidi_streaming ::
    "('ctx, 'pay, 'reqs, 'ures, 'sres) router \<Rightarrow> string \<Rightarrow> ('ctx, 'reqs, 'sres) erased_handler" where
  "router_call_bidi_streaming r path ctx requests format =
     (case map_option rm_method (map_of (r_methods r) path) of
        Some (MBidiStreaming handler) \<Rightarrow> handler ctx requests format
      | _ \<Rightarrow> unimplemented_streaming path)"

definition router_dispatcher ::
    "('ctx, 'pay, 'reqs, 'ures, 'sres) router \<Rightarrow> ('ctx, 'pay, 'reqs, 'ures, 'sres) dispatcher" where
  "router_dispatcher r =
     \<lparr>d_lookup = router_lookup r, d_call_unary = router_call_unary r,
      d_call_server_streaming = router_call_server_streaming r,
      d_call_client_streaming = router_call_client_streaming r,
      d_call_bidi_streaming = router_call_bidi_streaming r\<rparr>"

section \<open>The chain combinator\<close>

definition chain_lookup ::
    "('ctx, 'pay, 'reqs, 'ures, 'sres) dispatcher \<Rightarrow> ('ctx, 'pay, 'reqs, 'ures, 'sres) dispatcher \<Rightarrow>
     string \<Rightarrow> method_descriptor option" where
  "chain_lookup a b path = (case d_lookup a path of Some d \<Rightarrow> Some d | None \<Rightarrow> d_lookup b path)"

definition chain_call_unary ::
    "('ctx, 'pay, 'reqs, 'ures, 'sres) dispatcher \<Rightarrow> ('ctx, 'pay, 'reqs, 'ures, 'sres) dispatcher \<Rightarrow>
     string \<Rightarrow> ('ctx, 'pay, 'ures) erased_handler" where
  "chain_call_unary a b path ctx request format =
     (if d_lookup a path \<noteq> None then d_call_unary a path ctx request format
      else d_call_unary b path ctx request format)"

definition chain_call_server_streaming ::
    "('ctx, 'pay, 'reqs, 'ures, 'sres) dispatcher \<Rightarrow> ('ctx, 'pay, 'reqs, 'ures, 'sres) dispatcher \<Rightarrow>
     string \<Rightarrow> ('ctx, bytes, 'sres) erased_handler" where
  "chain_call_server_streaming a b path ctx request format =
     (if d_lookup a path \<noteq> None then d_call_server_streaming a path ctx request format
      else d_call_server_streaming b path ctx request format)"

definition chain_call_client_streaming ::
    "('ctx, 'pay, 'reqs, 'ures, 'sres) dispatcher \<Rightarrow> ('ctx, 'pay, 'reqs, 'ures, 'sres) dispatcher \<Rightarrow>
     string \<Rightarrow> ('ctx, 'reqs, 'ures) erased_handler" where
  "chain_call_client_streaming a b path ctx requests format =
     (if d_lookup a path \<noteq> None then d_call_client_streaming a path ctx requests format
      else d_call_client_streaming b path ctx requests format)"

definition chain_call_bidi_streaming ::
    "('ctx, 'pay, 'reqs, 'ures, 'sres) dispatcher \<Rightarrow> ('ctx, 'pay, 'reqs, 'ures, 'sres) dispatcher \<Rightarrow>
     string \<Rightarrow> ('ctx, 'reqs, 'sres) erased_handler" where
  "chain_call_bidi_streaming a b path ctx requests format =
     (if d_lookup a path \<noteq> None then d_call_bidi_streaming a path ctx requests format
      else d_call_bidi_streaming b path ctx requests format)"

definition chain ::
    "('ctx, 'pay, 'reqs, 'ures, 'sres) dispatcher \<Rightarrow> ('ctx, 'pay, 'reqs, 'ures, 'sres) dispatcher \<Rightarrow>
     ('ctx, 'pay, 'reqs, 'ures, 'sres) dispatcher" where
  "chain a b =
     \<lparr>d_lookup = chain_lookup a b, d_call_unary = chain_call_unary a b,
      d_call_server_streaming = chain_call_server_streaming a b,
      d_call_client_streaming = chain_call_client_streaming a b,
      d_call_bidi_streaming = chain_call_bidi_streaming a b\<rparr>"

section \<open>The invariant of a router\<close>

text \<open>
  Distinct paths, and a streaming route is a server-streaming one: the registration functions
  create no other.
\<close>

fun method_wf :: "('ctx, 'pay, 'reqs, 'ures, 'sres) rpc_method \<Rightarrow> bool" where
  "method_wf (MStreaming h k) \<longleftrightarrow> k = ServerStreaming"
| "method_wf _ \<longleftrightarrow> True"

definition router_wf :: "('ctx, 'pay, 'reqs, 'ures, 'sres) router \<Rightarrow> bool" where
  "router_wf r \<longleftrightarrow> distinct (map fst (r_methods r)) \<and>
     (\<forall>p m. map_of (r_methods r) p = Some m \<longrightarrow> method_wf (rm_method m))"

lemma router_wf_new [simp, inv_intros]: "router_wf router_new"
  by (simp add: router_wf_def router_new_def)

lemma router_wf_allow [simp]: "router_wf (allow_overrides r) = router_wf r"
  by (simp add: router_wf_def allow_overrides_def)

lemma router_wf_update [inv_intros]:
  assumes "router_wf r" and "method_wf (rm_method m)"
  shows "router_wf (r\<lparr>r_methods := AList.update k m (r_methods r)\<rparr>)"
  using assms by (auto simp: router_wf_def update_conv' distinct_update split: if_splits)

lemma router_wf_methodD: "router_wf r \<Longrightarrow> map_of (r_methods r) p = Some m \<Longrightarrow> method_wf (rm_method m)"
  by (auto simp: router_wf_def)

lemma insert_method_wf:
  "router_wf r \<Longrightarrow> method_wf (rm_method m) \<Longrightarrow> insert_method p m r = Some r' \<Longrightarrow> router_wf r'"
  by (auto simp: insert_method_def intro: router_wf_update split: if_splits)

lemma map_of_hash_extend:
  "distinct (map fst n) \<Longrightarrow> map_of (hash_extend m n) = map_of m ++ map_of n"
proof (induction n arbitrary: m)
  case Nil
  then show ?case by (simp add: hash_extend_def)
next
  case (Cons kv n)
  obtain k v where kv: "kv = (k, v)" by (cases kv)
  from Cons have "map_of (hash_extend (AList.update k v m) n) = map_of (AList.update k v m) ++ map_of n"
    by (simp add: kv)
  moreover have "k \<notin> dom (map_of n)" using Cons.prems by (simp add: kv dom_map_of_conv_image_fst)
  ultimately show ?case
    by (auto simp: kv hash_extend_def update_conv' map_add_def fun_eq_iff split: option.splits)
qed

lemma distinct_hash_extend: "distinct (map fst m) \<Longrightarrow> distinct (map fst (hash_extend m n))"
  unfolding hash_extend_def
  by (induction n arbitrary: m) (auto simp: distinct_update)

lemma map_fst_keys: "k \<in> set (map fst m) \<longleftrightarrow> contains_key m k"
  by (simp add: contains_key_def map_of_eq_None_iff)

lemma hash_extend_wf:
  assumes "router_wf r" "router_wf other"
  shows "router_wf (r\<lparr>r_methods := hash_extend (r_methods r) (r_methods other)\<rparr>)"
proof -
  have d: "distinct (map fst (r_methods other))" using assms by (simp add: router_wf_def)
  have "method_wf (rm_method m)" if "(map_of (r_methods r) ++ map_of (r_methods other)) p = Some m" for p m
    using that assms unfolding router_wf_def map_add_Some_iff by blast
  then show ?thesis using assms by (simp add: router_wf_def distinct_hash_extend map_of_hash_extend [OF d])
qed

lemma merge_in_place_wf:
  "router_wf r \<Longrightarrow> router_wf other \<Longrightarrow> merge_in_place r other = Some m \<Longrightarrow> router_wf m"
  using hash_extend_wf [of r other] by (simp add: merge_in_place_def try_merge_in_place_def Let_def split: if_splits)


text \<open>A router with one unary route, for the concrete instances below.\<close>

definition sample_handler :: "(unit, bytes, bytes) erased_handler" where
  "sample_handler ctx request format = Ok request"

definition sample_router :: "string \<Rightarrow> (unit, bytes, bytes list, bytes, bytes list) router" where
  "sample_router path =
     \<lparr>r_methods = [(path, from_method (MUnary sample_handler False))], r_allow_overrides = False\<rparr>"

lemma sample_router_wf [simp]: "router_wf (sample_router path)"
  by (simp add: router_wf_def sample_router_def from_method_def)


section \<open>Merging\<close>

lemma conflicts_empty_iff:
  "filter (contains_key m) (map fst n) = [] \<longleftrightarrow> dom (map_of m) \<inter> dom (map_of n) = {}"
  unfolding filter_empty_conv contains_key_def disjoint_iff dom_def
  by (auto simp: map_of_eq_None_iff) (metis fst_conv image_eqI map_of_SomeD)+

text \<open>
  C35. A merge is transactional. Without overrides, routers that share a path are refused with
  the sorted list of exactly the shared paths and the receiver unchanged; otherwise every path
  of either router is routed afterwards, to the argument's route where both had one.
\<close>

theorem try_merge_transactional:
  assumes "router_wf r" and "router_wf other"
  shows "case try_merge_in_place r other of
      (Err conflicts, r') \<Rightarrow>
        r' = r \<and> \<not> r_allow_overrides r \<and> conflicts \<noteq> [] \<and> sorted conflicts \<and> distinct conflicts \<and>
        set conflicts = {p. has_method r (CHR ''/'' # p) \<and> has_method other (CHR ''/'' # p)}
    | (Ok _, r') \<Rightarrow>
        (r_allow_overrides r \<or> (\<forall>p. router_lookup r p = None \<or> router_lookup other p = None)) \<and>
        (\<forall>p. router_lookup r' p =
          (case router_lookup other p of Some d \<Rightarrow> Some d | None \<Rightarrow> router_lookup r p))"
proof -
  have d: "distinct (map fst (r_methods other))" using assms by (simp add: router_wf_def)
  have slash: "strip_slash (CHR ''/'' # p) = p" for p by (simp add: strip_slash_def)
  have keys: "p \<in> fst ` set (r_methods other) \<longleftrightarrow> contains_key (r_methods other) p" for p
    using map_fst_keys [of p "r_methods other"] by simp
  have look: "router_lookup x p = None \<longleftrightarrow> map_of (r_methods x) p = None" for x p
    by (simp add: router_lookup_def split: option.splits)
  let ?conf = "filter (contains_key (r_methods r)) (map fst (r_methods other))"
  show ?thesis
  proof (cases "\<not> r_allow_overrides r \<and> ?conf \<noteq> []")
    case True
    then have e: "try_merge_in_place r other = (Err (sort ?conf), r)"
      by (simp add: try_merge_in_place_def)
    have ne: "sort ?conf \<noteq> []" using True by (metis sort_key_simps(1) set_empty set_sort)
    have "set (sort ?conf) = {p. has_method r (CHR ''/'' # p) \<and> has_method other (CHR ''/'' # p)}"
      by (auto simp: has_method_def slash keys)
    moreover have "distinct (sort ?conf)" using d by simp
    ultimately show ?thesis using True ne unfolding e by simp
  next
    case False
    then have e: "try_merge_in_place r other =
        (Ok (), r\<lparr>r_methods := hash_extend (r_methods r) (r_methods other)\<rparr>)"
      unfolding try_merge_in_place_def Let_def by (rule if_not_P)
    have "r_allow_overrides r \<or> (\<forall>p. router_lookup r p = None \<or> router_lookup other p = None)"
      using False by (auto simp: conflicts_empty_iff look)
    then show ?thesis
      by (simp add: e router_lookup_def map_of_hash_extend [OF d] map_add_def split: option.splits)
  qed
qed

theorem try_merge_transactional_witness:
  "router_wf (sample_router ''a/b'') \<and> router_wf (sample_router ''c/d'') \<and>
   try_merge_in_place (sample_router ''a/b'') (sample_router ''a/b'') = (Err [''a/b''], sample_router ''a/b'') \<and>
   (\<forall>p. router_lookup (snd (try_merge_in_place (sample_router ''a/b'') (sample_router ''c/d''))) p =
     (case router_lookup (sample_router ''c/d'') p of Some d \<Rightarrow> Some d
      | None \<Rightarrow> router_lookup (sample_router ''a/b'') p))"
proof -
  have a: "try_merge_in_place (sample_router ''a/b'') (sample_router ''a/b'') =
      (Err [''a/b''], sample_router ''a/b'')"
    by (simp add: try_merge_in_place_def sample_router_def contains_key_def)
  have b: "fst (try_merge_in_place (sample_router ''a/b'') (sample_router ''c/d'')) = Ok ()"
    by (simp add: try_merge_in_place_def sample_router_def contains_key_def)
  show ?thesis
    using a b try_merge_transactional [of "sample_router ''a/b''" "sample_router ''c/d''"]
    by (cases "try_merge_in_place (sample_router ''a/b'') (sample_router ''c/d'')") simp
qed

text \<open>
  C34. Chaining two routers serves exactly what merging them serves: the chain of \<open>a\<close> and \<open>b\<close>
  is, operation for operation, the dispatcher of \<open>b\<close> with \<open>a\<close> merged over it with overrides
  allowed. The first router of a chain therefore shadows the second path by path.
\<close>

theorem chain_is_override_merge:
  assumes "router_wf a" and "router_wf b"
  shows "\<exists>m. router_merge (allow_overrides b) a = Some m \<and>
    chain (router_dispatcher a) (router_dispatcher b) = router_dispatcher m"
proof -
  let ?m = "(allow_overrides b)\<lparr>r_methods := hash_extend (r_methods b) (r_methods a)\<rparr>"
  have d: "distinct (map fst (r_methods a))" using assms by (simp add: router_wf_def)
  have merged: "router_merge (allow_overrides b) a = Some ?m"
    by (simp add: router_merge_def merge_in_place_def try_merge_in_place_def allow_overrides_def Let_def)
  have get: "map_of (hash_extend (r_methods b) (r_methods a)) p =
      (if router_lookup a p \<noteq> None then map_of (r_methods a) p else map_of (r_methods b) p)" for p
    by (simp add: map_of_hash_extend [OF d] map_add_def router_lookup_def split: option.splits)
  have "chain_lookup (router_dispatcher a) (router_dispatcher b) = router_lookup ?m"
    by (rule ext) (simp add: chain_lookup_def router_dispatcher_def router_lookup_def
        map_of_hash_extend [OF d] map_add_def split: option.splits)
  moreover have "chain_call_unary (router_dispatcher a) (router_dispatcher b) = router_call_unary ?m"
    by (intro ext) (simp add: chain_call_unary_def router_dispatcher_def router_call_unary_def get)
  moreover have "chain_call_server_streaming (router_dispatcher a) (router_dispatcher b) =
      router_call_server_streaming ?m"
    by (intro ext) (simp add: chain_call_server_streaming_def router_dispatcher_def router_call_server_streaming_def get)
  moreover have "chain_call_client_streaming (router_dispatcher a) (router_dispatcher b) =
      router_call_client_streaming ?m"
    by (intro ext) (simp add: chain_call_client_streaming_def router_dispatcher_def router_call_client_streaming_def get)
  moreover have "chain_call_bidi_streaming (router_dispatcher a) (router_dispatcher b) =
      router_call_bidi_streaming ?m"
    by (intro ext) (simp add: chain_call_bidi_streaming_def router_dispatcher_def router_call_bidi_streaming_def get)
  ultimately have "chain (router_dispatcher a) (router_dispatcher b) = router_dispatcher ?m"
    unfolding chain_def router_dispatcher_def [of ?m] by (simp only:)
  with merged show ?thesis by blast
qed

theorem chain_is_override_merge_witness:
  "router_wf (sample_router ''a/b'') \<and> router_wf (sample_router ''c/d'') \<and>
   (\<exists>m. router_merge (allow_overrides (sample_router ''c/d'')) (sample_router ''a/b'') = Some m \<and>
     chain (router_dispatcher (sample_router ''a/b'')) (router_dispatcher (sample_router ''c/d'')) =
       router_dispatcher m)"
  using chain_is_override_merge [of "sample_router ''a/b''" "sample_router ''c/d''"] by simp

section \<open>The contract of a dispatcher\<close>

text \<open>
  What the \<^verbatim>\<open>Dispatcher\<close> trait documents: a call whose variant does not match what the lookup
  reports (an unknown path included) answers \<^verbatim>\<open>unimplemented\<close>, and only unary methods are
  marked idempotent. The locale is over a set of dispatchers, those a service may be given.
\<close>

definition lookup_kind :: "('ctx, 'pay, 'reqs, 'ures, 'sres) dispatcher \<Rightarrow> string \<Rightarrow> method_kind option" where
  "lookup_kind d path = map_option md_kind (d_lookup d path)"

locale dispatcher_contract =
  fixes served :: "('ctx, 'pay, 'reqs, 'ures, 'sres) dispatcher set"
  assumes unary_miss: "d \<in> served \<Longrightarrow> lookup_kind d p \<noteq> Some Unary \<Longrightarrow>
      d_call_unary d p c q f = unimplemented_unary p"
    and server_streaming_miss: "d \<in> served \<Longrightarrow> lookup_kind d p \<noteq> Some ServerStreaming \<Longrightarrow>
      d_call_server_streaming d p c b f = unimplemented_streaming p"
    and client_streaming_miss: "d \<in> served \<Longrightarrow> lookup_kind d p \<noteq> Some ClientStreaming \<Longrightarrow>
      d_call_client_streaming d p c rs f = unimplemented_unary p"
    and bidi_streaming_miss: "d \<in> served \<Longrightarrow> lookup_kind d p \<noteq> Some BidiStreaming \<Longrightarrow>
      d_call_bidi_streaming d p c rs f = unimplemented_streaming p"
    and idempotent_unary: "d \<in> served \<Longrightarrow> d_lookup d p = Some m \<Longrightarrow> md_idempotent m \<Longrightarrow> md_kind m = Unary"
begin

lemma chain_kind: "lookup_kind (chain a b) p = (case lookup_kind a p of Some k \<Rightarrow> Some k | None \<Rightarrow> lookup_kind b p)"
  by (simp add: lookup_kind_def chain_def chain_lookup_def split: option.splits)

lemma chain_kind_miss:
  "lookup_kind (chain a b) p \<noteq> Some k \<Longrightarrow>
    (d_lookup a p \<noteq> None \<longrightarrow> lookup_kind a p \<noteq> Some k) \<and> (d_lookup a p = None \<longrightarrow> lookup_kind b p \<noteq> Some k)"
  unfolding chain_kind by (auto simp: lookup_kind_def split: option.splits)

lemma chain_closed:
  assumes "a \<in> served" "b \<in> served"
  shows "dispatcher_contract {chain a b}"
proof unfold_locales
  fix d p c q f
  assume "d \<in> {chain a b}" "lookup_kind d p \<noteq> Some Unary"
  then show "d_call_unary d p c q f = unimplemented_unary p"
    using chain_kind_miss [of a b p] assms by (auto simp: chain_def chain_call_unary_def unary_miss)
next
  fix d p c q f
  assume "d \<in> {chain a b}" "lookup_kind d p \<noteq> Some ServerStreaming"
  then show "d_call_server_streaming d p c q f = unimplemented_streaming p"
    using chain_kind_miss [of a b p] assms
    by (auto simp: chain_def chain_call_server_streaming_def server_streaming_miss)
next
  fix d p c q f
  assume "d \<in> {chain a b}" "lookup_kind d p \<noteq> Some ClientStreaming"
  then show "d_call_client_streaming d p c q f = unimplemented_unary p"
    using chain_kind_miss [of a b p] assms
    by (auto simp: chain_def chain_call_client_streaming_def client_streaming_miss)
next
  fix d p c q f
  assume "d \<in> {chain a b}" "lookup_kind d p \<noteq> Some BidiStreaming"
  then show "d_call_bidi_streaming d p c q f = unimplemented_streaming p"
    using chain_kind_miss [of a b p] assms
    by (auto simp: chain_def chain_call_bidi_streaming_def bidi_streaming_miss)
next
  fix d p m
  assume "d \<in> {chain a b}" "d_lookup d p = Some m" "md_idempotent m"
  then show "md_kind m = Unary"
    using assms by (auto simp: chain_def chain_lookup_def idempotent_unary split: option.splits)
qed

end

lemma contract_Union:
  assumes "\<And>d. d \<in> D \<Longrightarrow> dispatcher_contract {d}"
  shows "dispatcher_contract D"
  by unfold_locales
    (use assms in \<open>auto simp: dispatcher_contract_def\<close>)

lemma method_desc_idempotent: "md_idempotent (method_desc m) \<Longrightarrow> md_kind (method_desc m) = Unary"
  by (cases m) (simp_all add: desc_unary_def desc_client_streaming_def desc_bidi_streaming_def
      with_idempotent_def from_kind_def)

lemma router_contract:
  assumes wf: "router_wf r"
  shows "dispatcher_contract {router_dispatcher r}"
proof unfold_locales
  fix d :: "('a, 'b, 'c, 'd, 'e) dispatcher" and p c q f
  assume "d \<in> {router_dispatcher r}" "lookup_kind d p \<noteq> Some Unary"
  then show "d_call_unary d p c q f = unimplemented_unary p"
    by (auto simp: lookup_kind_def router_dispatcher_def router_lookup_def router_call_unary_def
        desc_unary_def with_idempotent_def from_kind_def split: option.splits rpc_method.splits)
next
  fix d :: "('a, 'b, 'c, 'd, 'e) dispatcher" and p c q f
  assume "d \<in> {router_dispatcher r}" "lookup_kind d p \<noteq> Some ServerStreaming"
  then show "d_call_server_streaming d p c q f = unimplemented_streaming p"
    using router_wf_methodD [OF wf, of p]
    by (auto simp: lookup_kind_def router_dispatcher_def router_lookup_def router_call_server_streaming_def
        from_kind_def split: option.splits rpc_method.splits)
next
  fix d :: "('a, 'b, 'c, 'd, 'e) dispatcher" and p c q f
  assume "d \<in> {router_dispatcher r}" "lookup_kind d p \<noteq> Some ClientStreaming"
  then show "d_call_client_streaming d p c q f = unimplemented_unary p"
    by (auto simp: lookup_kind_def router_dispatcher_def router_lookup_def router_call_client_streaming_def
        desc_client_streaming_def from_kind_def split: option.splits rpc_method.splits)
next
  fix d :: "('a, 'b, 'c, 'd, 'e) dispatcher" and p c q f
  assume "d \<in> {router_dispatcher r}" "lookup_kind d p \<noteq> Some BidiStreaming"
  then show "d_call_bidi_streaming d p c q f = unimplemented_streaming p"
    by (auto simp: lookup_kind_def router_dispatcher_def router_lookup_def router_call_bidi_streaming_def
        desc_bidi_streaming_def from_kind_def split: option.splits rpc_method.splits)
next
  fix d :: "('a, 'b, 'c, 'd, 'e) dispatcher" and p m
  assume "d \<in> {router_dispatcher r}" "d_lookup d p = Some m" "md_idempotent m"
  then show "md_kind m = Unary"
    by (auto simp: router_dispatcher_def router_lookup_def method_desc_idempotent split: option.splits)
qed

text \<open>The dispatchers built from routers by chaining, to any depth.\<close>

inductive_set composed :: "('ctx, 'pay, 'reqs, 'ures, 'sres) dispatcher set" where
  composed_router: "router_wf r \<Longrightarrow> router_dispatcher r \<in> composed"
| composed_chain: "a \<in> composed \<Longrightarrow> b \<in> composed \<Longrightarrow> chain a b \<in> composed"

lemma composed_contract: "d \<in> composed \<Longrightarrow> dispatcher_contract {d}"
proof (induction rule: composed.induct)
  case (composed_router r)
  then show ?case by (rule router_contract)
next
  case (composed_chain a b)
  have "dispatcher_contract {a, b}"
    by (rule contract_Union) (use composed_chain.IH in auto)
  then show ?case by (rule dispatcher_contract.chain_closed) simp_all
qed

interpretation composed: dispatcher_contract composed
  by (rule contract_Union) (rule composed_contract)

text \<open>
  C36. No dispatch reaches a handler of the wrong shape: for every dispatcher built from
  routers by chaining, a call whose variant is not the kind the lookup reports, or whose path
  is unknown, answers \<^verbatim>\<open>unimplemented\<close> with the path, and a method marked idempotent
  (eligible for GET) is unary.
\<close>

theorem composed_dispatch_by_kind:
  assumes "d \<in> composed"
  shows "(lookup_kind d p \<noteq> Some Unary \<longrightarrow> d_call_unary d p c q f = unimplemented_unary p) \<and>
    (lookup_kind d p \<noteq> Some ServerStreaming \<longrightarrow> d_call_server_streaming d p c b f = unimplemented_streaming p) \<and>
    (lookup_kind d p \<noteq> Some ClientStreaming \<longrightarrow> d_call_client_streaming d p c rs f = unimplemented_unary p) \<and>
    (lookup_kind d p \<noteq> Some BidiStreaming \<longrightarrow> d_call_bidi_streaming d p c rs f = unimplemented_streaming p) \<and>
    (\<forall>m. d_lookup d p = Some m \<longrightarrow> md_idempotent m \<longrightarrow> md_kind m = Unary)"
  using assms by (simp add: composed.unary_miss composed.server_streaming_miss
      composed.client_streaming_miss composed.bidi_streaming_miss composed.idempotent_unary)

theorem composed_dispatch_by_kind_witness:
  "router_dispatcher (sample_router ''a/b'') \<in> composed \<and>
   d_call_bidi_streaming (router_dispatcher (sample_router ''a/b'')) ''a/b'' () [] Proto =
     unimplemented_streaming ''a/b''"
proof -
  have "lookup_kind (router_dispatcher (sample_router ''a/b'')) ''a/b'' = Some Unary"
    by (simp add: lookup_kind_def router_dispatcher_def router_lookup_def sample_router_def from_method_def
        desc_unary_def with_idempotent_def from_kind_def)
  then show ?thesis
    using composed_dispatch_by_kind [OF composed_router [OF sample_router_wf],
        of "''a/b''" "''a/b''" "()" _ Proto _ "[]"]
    by (auto intro: composed_router)
qed

text \<open>
  Generated registration: after a unary route is registered and its spec attached, the
  lookup of its path reports a unary method with exactly that spec and the registered
  idempotency, the call reaches the registered handler, and every other path is dispatched as
  before.
\<close>

theorem registered_route_found:
  assumes "route_unary_internal wrap svc meth h idem r = Some r1" and "with_spec debug s r1 = Some r2"
    and "procedure s = CHR ''/'' # method_path svc meth"
  shows "router_lookup r2 (method_path svc meth) =
      Some \<lparr>md_kind = Unary, md_idempotent = idem, md_spec = Some s, md_limits = None\<rparr> \<and>
    router_call_unary r2 (method_path svc meth) = wrap h \<and>
    (\<forall>p. p \<noteq> method_path svc meth \<longrightarrow> router_lookup r2 p = router_lookup r p \<and>
      router_call_unary r2 p = router_call_unary r p)"
proof -
  let ?p = "method_path svc meth"
  let ?m = "from_method (MUnary (wrap h) idem)"
  have r1: "r_methods r1 = AList.update ?p ?m (r_methods r)"
    using assms(1) by (auto simp: route_unary_internal_def insert_method_def split: if_splits)
  have key: "strip_slash (procedure s) = ?p" by (simp add: assms(3) strip_slash_def)
  have r2: "r_methods r2 = AList.update ?p (?m\<lparr>rm_spec := Some s\<rparr>) (r_methods r1)"
    using assms(2) by (auto simp: with_spec_def key Let_def r1 from_method_def split: if_splits)
  have "map_of (r_methods r2) q = (if q = ?p then Some (?m\<lparr>rm_spec := Some s\<rparr>) else map_of (r_methods r) q)" for q
    by (simp add: r2 r1 update_conv')
  then show ?thesis
    by (simp add: router_lookup_def router_call_unary_def fun_eq_iff from_method_def desc_unary_def
        with_idempotent_def from_kind_def)
qed

end
