(* ===== verification/Health.thy ===== *)
theory Health
  imports Router Envelope Timeout
begin

text \<open>
  The health service (\<^verbatim>\<open>connectrpc-health\<close>): the status enum, the in-memory
  \<^verbatim>\<open>StaticChecker\<close>, the bridge to \<^verbatim>\<open>grpc.health.v1.Health\<close> and its installation on a
  router with per-route limits. The checker keeps one \<^verbatim>\<open>tokio\<close> watch channel per service; the
  channel operations are a parameter, a record \<open>watch_ops\<close>, and what the checker relies on of
  them is \<open>watch_laws\<close>. The checker's lock is held over each operation, so an operation is one
  step on the map.
\<close>

section \<open>Statuses\<close>

datatype health_status = HsUnknown | HsServing | HsNotServing

datatype serving_status = SsUNKNOWN | SsSERVING | SsNOT_SERVING | SsSERVICE_UNKNOWN

fun status_as_str :: "health_status \<Rightarrow> string" where
  "status_as_str HsUnknown = ''unknown''"
| "status_as_str HsServing = ''serving''"
| "status_as_str HsNotServing = ''not_serving''"

fun serving_from_status :: "health_status \<Rightarrow> serving_status" where
  "serving_from_status HsUnknown = SsUNKNOWN"
| "serving_from_status HsServing = SsSERVING"
| "serving_from_status HsNotServing = SsNOT_SERVING"

fun status_from_serving :: "serving_status \<Rightarrow> health_status" where
  "status_from_serving SsSERVING = HsServing"
| "status_from_serving SsNOT_SERVING = HsNotServing"
| "status_from_serving SsUNKNOWN = HsUnknown"
| "status_from_serving SsSERVICE_UNKNOWN = HsUnknown"

interpretation wire_status: wire_code serving_from_status "\<lambda>w. Some (status_from_serving w)"
proof
  show "Some (status_from_serving (serving_from_status s)) = Some s" for s by (cases s) simp_all
qed

section \<open>The static checker\<close>

text \<open>
  \<^verbatim>\<open>send_if_modified\<close> takes a closure that may update the value and says whether it did.
\<close>

record ('snd, 'rcv) watch_ops =
  watch_channel :: "health_status \<Rightarrow> 'snd"
  watch_borrow :: "'snd \<Rightarrow> health_status"
  watch_send_if_modified :: "(health_status \<Rightarrow> health_status \<times> bool) \<Rightarrow> 'snd \<Rightarrow> 'snd"
  watch_subscribe :: "'snd \<Rightarrow> 'rcv"

definition watch_laws :: "('snd, 'rcv) watch_ops \<Rightarrow> bool" where
  "watch_laws w \<longleftrightarrow>
     (\<forall>s. watch_borrow w (watch_channel w s) = s) \<and>
     (\<forall>f c. watch_borrow w (watch_send_if_modified w f c) = fst (f (watch_borrow w c)))"

type_synonym 'snd static_checker = "(string \<times> 'snd) list"

definition with_services :: "('snd, 'rcv) watch_ops \<Rightarrow> string list \<Rightarrow> 'snd static_checker" where
  "with_services w services =
     fold (\<lambda>(k, v). AList.update k v)
       (([], watch_channel w HsServing) # map (\<lambda>s. (s, watch_channel w HsServing)) services) []"

definition checker_new :: "('snd, 'rcv) watch_ops \<Rightarrow> 'snd static_checker" where
  "checker_new w = with_services w []"

definition register_with_status ::
    "('snd, 'rcv) watch_ops \<Rightarrow> string \<Rightarrow> health_status \<Rightarrow> 'snd static_checker \<Rightarrow> bool \<times> 'snd static_checker" where
  "register_with_status w service status services =
     (case map_of services service of
        None \<Rightarrow> (True, AList.update service (watch_channel w status) services)
      | Some _ \<Rightarrow> (False, services))"

definition checker_register ::
    "('snd, 'rcv) watch_ops \<Rightarrow> string \<Rightarrow> 'snd static_checker \<Rightarrow> bool \<times> 'snd static_checker" where
  "checker_register w service services = register_with_status w service HsServing services"

text \<open>The error of \<^verbatim>\<open>set_status\<close> carries the unknown name.\<close>

definition set_status ::
    "('snd, 'rcv) watch_ops \<Rightarrow> string \<Rightarrow> health_status \<Rightarrow> 'snd static_checker \<Rightarrow>
     (unit, string) result \<times> 'snd static_checker" where
  "set_status w service status services =
     (case map_of services service of
        None \<Rightarrow> (Err service, services)
      | Some sender \<Rightarrow>
          (Ok (), AList.update service
             (watch_send_if_modified w
                (\<lambda>current. if current = status then (current, False) else (status, True)) sender) services))"

definition remove_service :: "string \<Rightarrow> 'snd static_checker \<Rightarrow> bool \<times> 'snd static_checker" where
  "remove_service service services =
     (map_of services service \<noteq> None, AList.delete service services)"

definition shutdown :: "('snd, 'rcv) watch_ops \<Rightarrow> 'snd static_checker \<Rightarrow> 'snd static_checker" where
  "shutdown w services =
     map (\<lambda>(k, sender). (k, watch_send_if_modified w
       (\<lambda>status. if status = HsNotServing then (status, False) else (HsNotServing, True)) sender)) services"

definition checker_services :: "'snd static_checker \<Rightarrow> string list" where
  "checker_services services = map fst services"

section \<open>Errors for unknown names\<close>

definition MAX_ECHOED_NAME_BYTES :: usize where "MAX_ECHOED_NAME_BYTES = 128"

text \<open>\<^verbatim>\<open>str::is_char_boundary\<close> on the UTF-8 bytes of a string.\<close>

definition is_continuation :: "char \<Rightarrow> bool" where
  "is_continuation c \<longleftrightarrow> 128 \<le> (of_char c :: nat) \<and> (of_char c :: nat) < 192"

definition is_char_boundary :: "string \<Rightarrow> usize \<Rightarrow> bool" where
  "is_char_boundary s i \<longleftrightarrow> i = 0 \<or> i = length s \<or> (i < length s \<and> \<not> is_continuation (s ! i))"

fun floor_boundary :: "string \<Rightarrow> nat \<Rightarrow> nat" where
  "floor_boundary s 0 = 0"
| "floor_boundary s (Suc n) = (if is_char_boundary s (Suc n) then Suc n else floor_boundary s n)"

definition echoed :: "string \<Rightarrow> string" where
  "echoed name =
     (if length name \<le> MAX_ECHOED_NAME_BYTES then name
      else take (floor_boundary name MAX_ECHOED_NAME_BYTES) name @ ''... [name truncated, '' @
        show_nat (length name) @ '' bytes]'')"

definition unknown_service :: "string \<Rightarrow> connect_error" where
  "unknown_service service = not_found (''unknown service '' @ echoed service)"

definition checker_check ::
    "('snd, 'rcv) watch_ops \<Rightarrow> 'snd static_checker \<Rightarrow> string \<Rightarrow> health_status connect_result" where
  "checker_check w services service =
     ok_or (map_option (watch_borrow w) (map_of services service)) (unknown_service service)"

definition checker_watch ::
    "('snd, 'rcv) watch_ops \<Rightarrow> 'snd static_checker \<Rightarrow> string \<Rightarrow> 'rcv connect_result" where
  "checker_watch w services service =
     ok_or (map_option (watch_subscribe w) (map_of services service)) (unknown_service service)"

section \<open>The service\<close>

definition health_check :: "(string \<Rightarrow> health_status connect_result) \<Rightarrow> string \<Rightarrow> serving_status connect_result" where
  "health_check check service = result_bind (check service) (\<lambda>status. Ok (serving_from_status status))"

text \<open>The watch stream is the checker's, each item mapped.\<close>

definition health_watch ::
    "(string \<Rightarrow> health_status list connect_result) \<Rightarrow> string \<Rightarrow>
     (serving_status, connect_error) result list connect_result" where
  "health_watch watch service =
     result_bind (watch service) (\<lambda>stream. Ok (map (\<lambda>status. Ok (serving_from_status status)) stream))"

definition MAX_REQUEST_BYTES :: usize where "MAX_REQUEST_BYTES = 16 * 1024"

definition request_limits :: "usize \<Rightarrow> limits" where
  "request_limits buffa_DEFAULT_ELEMENT_MEMORY_LIMIT =
     with_element_memory_limit (4 * MAX_REQUEST_BYTES)
       (with_max_message_size MAX_REQUEST_BYTES
         (with_max_request_body_size (MAX_REQUEST_BYTES + HEADER_SIZE)
           (limits_default buffa_DEFAULT_ELEMENT_MEMORY_LIMIT)))"

definition HEALTH_SERVICE_NAME :: string where "HEALTH_SERVICE_NAME = ''grpc.health.v1.Health''"

definition HEALTH_CHECK_SPEC :: spec where
  "HEALTH_CHECK_SPEC = \<lparr>procedure = ''/grpc.health.v1.Health/Check'', spec_stream_type = StUnary,
     spec_origin_of = OriginServer, spec_idempotency_level = LevelUnknown\<rparr>"

definition HEALTH_WATCH_SPEC :: spec where
  "HEALTH_WATCH_SPEC = \<lparr>procedure = ''/grpc.health.v1.Health/Watch'', spec_stream_type = StServerStream,
     spec_origin_of = OriginServer, spec_idempotency_level = LevelUnknown\<rparr>"

definition apply_request_limits ::
    "limits \<Rightarrow> ('ctx, 'pay, 'reqs, 'ures, 'sres) router \<Rightarrow> ('ctx, 'pay, 'reqs, 'ures, 'sres) router option" where
  "apply_request_limits l r =
     Option.bind (with_route_limits (procedure HEALTH_CHECK_SPEC) l r)
       (with_route_limits (procedure HEALTH_WATCH_SPEC) l)"

text \<open>The generated \<^verbatim>\<open>HealthExt::register\<close>; the two adaptors wrap the service's methods.\<close>

definition health_register ::
    "bool \<Rightarrow> ('h \<Rightarrow> ('ctx, 'pay, 'ures) erased_handler) \<Rightarrow> ('h \<Rightarrow> ('ctx, bytes, 'sres) erased_handler) \<Rightarrow> 'h \<Rightarrow>
     ('ctx, 'pay, 'reqs, 'ures, 'sres) router \<Rightarrow> ('ctx, 'pay, 'reqs, 'ures, 'sres) router option" where
  "health_register debug wrap_check wrap_watch svc r =
     Option.bind (route_view wrap_check HEALTH_SERVICE_NAME ''Check'' svc r) (\<lambda>r1.
     Option.bind (with_spec debug HEALTH_CHECK_SPEC r1) (\<lambda>r2.
     Option.bind (route_view_server_stream wrap_watch HEALTH_SERVICE_NAME ''Watch'' svc r2) (\<lambda>r3.
     with_spec debug HEALTH_WATCH_SPEC r3)))"

definition install_static ::
    "bool \<Rightarrow> usize \<Rightarrow> ('snd, 'rcv) watch_ops \<Rightarrow>
     ('snd static_checker \<Rightarrow> ('ctx, 'pay, 'ures) erased_handler) \<Rightarrow>
     ('snd static_checker \<Rightarrow> ('ctx, bytes, 'sres) erased_handler) \<Rightarrow>
     ('ctx, 'pay, 'reqs, 'ures, 'sres) router \<Rightarrow> string list \<Rightarrow>
     (('ctx, 'pay, 'reqs, 'ures, 'sres) router \<times> 'snd static_checker) option" where
  "install_static debug element_limit w wrap_check wrap_watch r services =
     (let checker = with_services w services in
      map_option (\<lambda>r'. (r', checker))
        (Option.bind (health_register debug wrap_check wrap_watch checker r)
          (apply_request_limits (request_limits element_limit))))"

section \<open>The checker implements a status map\<close>

text \<open>
  The abstract checker is a partial map from service names to statuses; its operations are the
  operations of \<^verbatim>\<open>StaticChecker\<close> in any order.
\<close>

definition checker_view :: "('snd, 'rcv) watch_ops \<Rightarrow> 'snd static_checker \<Rightarrow> string \<Rightarrow> health_status option" where
  "checker_view w services name = map_option (watch_borrow w) (map_of services name)"

datatype checker_op =
    OpRegister string health_status
  | OpSetStatus string health_status
  | OpRemove string
  | OpShutdown

fun run_op :: "('snd, 'rcv) watch_ops \<Rightarrow> checker_op \<Rightarrow> 'snd static_checker \<Rightarrow> 'snd static_checker" where
  "run_op w (OpRegister name status) services = snd (register_with_status w name status services)"
| "run_op w (OpSetStatus name status) services = snd (set_status w name status services)"
| "run_op w (OpRemove name) services = snd (remove_service name services)"
| "run_op w OpShutdown services = shutdown w services"

fun spec_op :: "checker_op \<Rightarrow> (string \<Rightarrow> health_status option) \<Rightarrow> (string \<Rightarrow> health_status option)" where
  "spec_op (OpRegister name status) m = (if m name = None then m(name \<mapsto> status) else m)"
| "spec_op (OpSetStatus name status) m = (if m name = None then m else m(name \<mapsto> status))"
| "spec_op (OpRemove name) m = m(name := None)"
| "spec_op OpShutdown m = (\<lambda>name. map_option (\<lambda>_. HsNotServing) (m name))"

lemma watch_lawsD:
  assumes "watch_laws w"
  shows "watch_borrow w (watch_channel w s) = s"
    and "watch_borrow w (watch_send_if_modified w f c) = fst (f (watch_borrow w c))"
  using assms by (auto simp: watch_laws_def)

lemma map_of_shutdown:
  "map_of (shutdown w services) name =
     map_option (watch_send_if_modified w
       (\<lambda>status. if status = HsNotServing then (status, False) else (HsNotServing, True))) (map_of services name)"
  by (induction services) (auto simp: shutdown_def)

lemma run_op_refines:
  assumes "watch_laws w"
  shows "checker_view w (run_op w op services) = spec_op op (checker_view w services)"
proof (cases op)
  case (OpRegister name status)
  then show ?thesis
    by (auto simp: checker_view_def fun_eq_iff register_with_status_def update_conv' watch_lawsD [OF assms]
        split: option.splits)
next
  case (OpSetStatus name status)
  then show ?thesis
    by (auto simp: checker_view_def fun_eq_iff set_status_def update_conv' watch_lawsD [OF assms]
        split: option.splits)
next
  case (OpRemove name)
  then show ?thesis
    by (auto simp: checker_view_def fun_eq_iff remove_service_def delete_conv')
next
  case OpShutdown
  then show ?thesis
    by (auto simp: checker_view_def fun_eq_iff map_of_shutdown watch_lawsD [OF assms] option.map_comp
        intro!: option.map_cong)
qed

lemma run_ops_refine:
  assumes "watch_laws w"
  shows "checker_view w (fold (run_op w) ops services) = fold spec_op ops (checker_view w services)"
  by (induction ops arbitrary: services) (simp_all add: run_op_refines [OF assms])

lemma with_services_view:
  assumes "watch_laws w"
  shows "checker_view w (with_services w services) name =
    (if name = [] \<or> name \<in> set services then Some HsServing else None)"
proof -
  have "checker_view w (fold (\<lambda>(k, v). AList.update k v) (map (\<lambda>s. (s, watch_channel w HsServing)) ns) m) name =
      (if name \<in> set ns then Some HsServing else checker_view w m name)" for ns m
    by (induction ns arbitrary: m) (auto simp: checker_view_def update_conv' watch_lawsD [OF assms])
  from this [of services "AList.update [] (watch_channel w HsServing) []"] show ?thesis
    by (auto simp: with_services_def checker_view_def watch_lawsD [OF assms])
qed

text \<open>
  C21. The static checker implements the status map: after any sequence of registrations,
  status changes, removals and shutdowns, a check answers exactly what the map of the same
  operations holds, starting from every given service and the empty name serving, and answers
  \<^verbatim>\<open>not_found\<close> for any other name; \<^verbatim>\<open>set_status\<close> fails exactly on an unregistered name and
  then changes nothing.
\<close>

theorem static_checker_implements_map:
  fixes names :: "string list" and ops :: "checker_op list" and w :: "('snd, 'rcv) watch_ops"
  assumes "watch_laws w"
  defines "init \<equiv> \<lambda>name. if name = [] \<or> name \<in> set names then Some HsServing else None"
  defines "c \<equiv> fold (run_op w) ops (with_services w names)"
  shows "checker_check w c name =
      (case fold spec_op ops init name of Some status \<Rightarrow> Ok status | None \<Rightarrow> Err (unknown_service name)) \<and>
    err_code (unknown_service name) = NotFound \<and>
    set_status w name status c =
      (if fold spec_op ops init name = None then (Err name, c) else (Ok (), run_op w (OpSetStatus name status) c)) \<and>
    fst (register_with_status w name status c) = (fold spec_op ops init name = None)"
proof -
  have "checker_view w (with_services w names) = init"
    by (rule ext) (simp add: with_services_view [OF assms(1)] init_def)
  then have view: "checker_view w c = fold spec_op ops init"
    by (simp add: c_def run_ops_refine [OF assms(1)])
  have look: "fold spec_op ops init name = map_option (watch_borrow w) (map_of c name)"
    by (simp flip: view add: checker_view_def)
  show ?thesis
    by (auto simp: look checker_check_def set_status_def register_with_status_def unknown_service_def
        not_found_def new_error_def split: option.splits)
qed

text \<open>A cell with a version counter satisfies the channel laws.\<close>

definition sample_watch :: "(health_status \<times> nat, health_status \<times> nat) watch_ops" where
  "sample_watch = \<lparr>watch_channel = (\<lambda>s. (s, 0)), watch_borrow = fst,
     watch_send_if_modified = (\<lambda>f c. let (s, changed) = f (fst c) in (s, if changed then snd c + 1 else snd c)),
     watch_subscribe = (\<lambda>c. c)\<rparr>"

lemma sample_watch_laws: "watch_laws sample_watch"
  by (simp add: watch_laws_def sample_watch_def case_prod_beta Let_def)

theorem static_checker_implements_map_witness:
  "watch_laws sample_watch \<and>
   checker_check sample_watch (fold (run_op sample_watch) [OpRegister ''a.B'' HsServing, OpShutdown]
     (with_services sample_watch [''c.D''])) ''a.B'' = Ok HsNotServing"
  using static_checker_implements_map [OF sample_watch_laws, where ops = "[OpRegister ''a.B'' HsServing, OpShutdown]"
      and names = "[''c.D'']" and name = "''a.B''"] sample_watch_laws
  by simp

section \<open>Bounded echo\<close>

lemma floor_boundary_le: "floor_boundary s n \<le> n"
  by (induction n) (auto intro: le_SucI)

lemma floor_boundary_is_boundary: "is_char_boundary s (floor_boundary s n)"
  by (induction n) (auto simp: is_char_boundary_def)

lemma floor_boundary_greatest: "m \<le> n \<Longrightarrow> is_char_boundary s m \<Longrightarrow> m \<le> floor_boundary s n"
  by (induction n) (auto simp: le_Suc_eq)

text \<open>
  An unknown service name is echoed verbatim when it has at most 128 bytes; a longer one
  is cut at the last character boundary within 128 bytes, so the \<^verbatim>\<open>not_found\<close> message is valid
  text of at most 192 bytes whatever the request sent.
\<close>

theorem echoed_bounded:
  assumes "length name \<le> usize_MAX"
  shows "(length name \<le> 128 \<longrightarrow> echoed name = name) \<and> length (''unknown service '' @ echoed name) \<le> 192 \<and>
    (128 < length name \<longrightarrow> (\<exists>k rest. echoed name = take k name @ ''... [name truncated, '' @ rest \<and>
       k \<le> 128 \<and> is_char_boundary name k \<and> (\<forall>m. k < m \<and> m \<le> 128 \<longrightarrow> \<not> is_char_boundary name m)))"
proof -
  let ?k = "floor_boundary name 128"
  have "length (show_nat (length name)) \<le> 20"
    using assms by (intro length_show_nat) (simp_all add: usize_MAX_def)
  moreover have "?k \<le> 128" by (rule floor_boundary_le)
  ultimately have "length (''unknown service '' @ echoed name) \<le> 192"
    by (simp add: echoed_def MAX_ECHOED_NAME_BYTES_def)
  moreover have "\<forall>m. ?k < m \<and> m \<le> 128 \<longrightarrow> \<not> is_char_boundary name m"
    using floor_boundary_greatest [of _ 128 name] by (metis not_le)
  ultimately show ?thesis
    using \<open>?k \<le> 128\<close> floor_boundary_is_boundary [of name 128]
    unfolding echoed_def MAX_ECHOED_NAME_BYTES_def by auto
qed

section \<open>Installation\<close>

definition HEALTH_CHECK_PATH :: string where "HEALTH_CHECK_PATH = ''grpc.health.v1.Health/Check''"
definition HEALTH_WATCH_PATH :: string where "HEALTH_WATCH_PATH = ''grpc.health.v1.Health/Watch''"

lemma health_paths:
  "method_path HEALTH_SERVICE_NAME ''Check'' = HEALTH_CHECK_PATH"
  "method_path HEALTH_SERVICE_NAME ''Watch'' = HEALTH_WATCH_PATH"
  "strip_slash (procedure HEALTH_CHECK_SPEC) = HEALTH_CHECK_PATH"
  "strip_slash (procedure HEALTH_WATCH_SPEC) = HEALTH_WATCH_PATH"
  "HEALTH_CHECK_PATH \<noteq> HEALTH_WATCH_PATH" "HEALTH_WATCH_PATH \<noteq> HEALTH_CHECK_PATH"
  "spec_idempotency_level HEALTH_CHECK_SPEC \<noteq> NoSideEffects"
  by (simp_all add: method_path_def HEALTH_SERVICE_NAME_def HEALTH_CHECK_PATH_def HEALTH_WATCH_PATH_def
      HEALTH_CHECK_SPEC_def HEALTH_WATCH_SPEC_def strip_slash_def)

text \<open>The two routes as installed.\<close>

definition check_route ::
    "('ctx, 'pay, 'ures) erased_handler \<Rightarrow> limits option \<Rightarrow> ('ctx, 'pay, 'reqs, 'ures, 'sres) registered_method" where
  "check_route h l = \<lparr>rm_method = MUnary h False, rm_spec = Some HEALTH_CHECK_SPEC, rm_limits = l\<rparr>"

definition watch_route ::
    "('ctx, bytes, 'sres) erased_handler \<Rightarrow> limits option \<Rightarrow> ('ctx, 'pay, 'reqs, 'ures, 'sres) registered_method" where
  "watch_route h l = \<lparr>rm_method = MStreaming h ServerStreaming, rm_spec = Some HEALTH_WATCH_SPEC, rm_limits = l\<rparr>"

lemma health_register_methods:
  assumes "health_register debug wc ww svc r = Some r'"
  shows "map_of (r_methods r') = (map_of (r_methods r))(HEALTH_CHECK_PATH \<mapsto> check_route (wc svc) None,
      HEALTH_WATCH_PATH \<mapsto> watch_route (ww svc) None)"
  using assms
  by (auto simp: health_register_def route_view_def route_view_internal_def route_view_server_stream_def
      insert_method_def with_spec_def health_paths Let_def bind_eq_Some_conv from_method_def check_route_def
      watch_route_def update_conv' fun_eq_iff split: if_splits)

lemma health_register_succeeds:
  assumes "r_allow_overrides r \<or>
    map_of (r_methods r) HEALTH_CHECK_PATH = None \<and> map_of (r_methods r) HEALTH_WATCH_PATH = None"
  shows "\<exists>r'. health_register debug wc ww svc r = Some r'"
  using assms
  by (auto simp: health_register_def route_view_def route_view_internal_def route_view_server_stream_def
      insert_method_def with_spec_def health_paths Let_def bind_eq_Some_conv from_method_def
      contains_key_def update_conv' split: if_splits)

lemma apply_request_limits_methods:
  assumes "map_of (r_methods r) HEALTH_CHECK_PATH = Some a" "map_of (r_methods r) HEALTH_WATCH_PATH = Some b"
  shows "\<exists>r'. apply_request_limits l r = Some r' \<and>
    map_of (r_methods r') = (map_of (r_methods r))(HEALTH_CHECK_PATH \<mapsto> a\<lparr>rm_limits := Some l\<rparr>,
      HEALTH_WATCH_PATH \<mapsto> b\<lparr>rm_limits := Some l\<rparr>)"
  using assms by (simp add: apply_request_limits_def with_route_limits_def health_paths Let_def update_conv' fun_eq_iff)

text \<open>
  Installing the health service succeeds, in debug and release builds alike, on every
  router that has neither route (or allows overrides); afterwards its two routes carry their
  specs and the 16 KiB profile, reach the service's handlers, and no other route changes.
\<close>

theorem install_static_mounts:
  assumes "r_allow_overrides r \<or>
    \<not> has_method r ''/grpc.health.v1.Health/Check'' \<and> \<not> has_method r ''/grpc.health.v1.Health/Watch''"
  shows "\<exists>r' c. install_static debug el w wc ww r names = Some (r', c) \<and> c = with_services w names \<and>
    router_lookup r' ''grpc.health.v1.Health/Check'' =
      Some \<lparr>md_kind = Unary, md_idempotent = False, md_spec = Some HEALTH_CHECK_SPEC,
        md_limits = Some \<lparr>max_request_body_size = 16389, max_message_size = 16384, element_memory_limit = 65536\<rparr>\<rparr> \<and>
    router_lookup r' ''grpc.health.v1.Health/Watch'' =
      Some \<lparr>md_kind = ServerStreaming, md_idempotent = False, md_spec = Some HEALTH_WATCH_SPEC,
        md_limits = Some \<lparr>max_request_body_size = 16389, max_message_size = 16384, element_memory_limit = 65536\<rparr>\<rparr> \<and>
    router_call_unary r' ''grpc.health.v1.Health/Check'' = wc c \<and>
    router_call_server_streaming r' ''grpc.health.v1.Health/Watch'' = ww c \<and>
    (\<forall>p. p \<noteq> ''grpc.health.v1.Health/Check'' \<longrightarrow> p \<noteq> ''grpc.health.v1.Health/Watch'' \<longrightarrow>
      router_lookup r' p = router_lookup r p)"
proof -
  let ?c = "with_services w names"
  have sl: "strip_slash ''/grpc.health.v1.Health/Check'' = HEALTH_CHECK_PATH"
    "strip_slash ''/grpc.health.v1.Health/Watch'' = HEALTH_WATCH_PATH"
    by (simp_all add: strip_slash_def HEALTH_CHECK_PATH_def HEALTH_WATCH_PATH_def)
  have free: "r_allow_overrides r \<or>
      map_of (r_methods r) HEALTH_CHECK_PATH = None \<and> map_of (r_methods r) HEALTH_WATCH_PATH = None"
    using assms by (simp add: has_method_def contains_key_def sl)
  obtain r1 where r1: "health_register debug wc ww ?c r = Some r1"
    using health_register_succeeds [OF free, of debug wc ww ?c] by (elim exE)
  note m1 = health_register_methods [OF r1]
  let ?l = "request_limits el"
  have "map_of (r_methods r1) HEALTH_CHECK_PATH = Some (check_route (wc ?c) None)"
    "map_of (r_methods r1) HEALTH_WATCH_PATH = Some (watch_route (ww ?c) None)"
    by (simp_all add: m1 health_paths)
  then obtain r2 where r2: "apply_request_limits ?l r1 = Some r2"
    and m2: "map_of (r_methods r2) = (map_of (r_methods r1))(HEALTH_CHECK_PATH \<mapsto> check_route (wc ?c) (Some ?l),
      HEALTH_WATCH_PATH \<mapsto> watch_route (ww ?c) (Some ?l))"
    using apply_request_limits_methods [of r1 _ _ ?l] by (fastforce simp: check_route_def watch_route_def)
  have inst: "install_static debug el w wc ww r names = Some (r2, ?c)"
    by (simp add: install_static_def r1 r2)
  have lim: "?l = \<lparr>max_request_body_size = 16389, max_message_size = 16384, element_memory_limit = 65536\<rparr>"
    by (simp add: request_limits_def with_element_memory_limit_def with_max_message_size_def
        with_max_request_body_size_def limits_default_def MAX_REQUEST_BYTES_def HEADER_SIZE_def)
  have "router_lookup r2 HEALTH_CHECK_PATH =
      Some \<lparr>md_kind = Unary, md_idempotent = False, md_spec = Some HEALTH_CHECK_SPEC, md_limits = Some ?l\<rparr>"
    "router_lookup r2 HEALTH_WATCH_PATH =
      Some \<lparr>md_kind = ServerStreaming, md_idempotent = False, md_spec = Some HEALTH_WATCH_SPEC, md_limits = Some ?l\<rparr>"
    "router_call_unary r2 HEALTH_CHECK_PATH = wc ?c"
    "router_call_server_streaming r2 HEALTH_WATCH_PATH = ww ?c"
    "\<forall>p. p \<noteq> HEALTH_CHECK_PATH \<longrightarrow> p \<noteq> HEALTH_WATCH_PATH \<longrightarrow> router_lookup r2 p = router_lookup r p"
    by (simp_all add: router_lookup_def router_call_unary_def router_call_server_streaming_def m2 m1 health_paths
        check_route_def watch_route_def desc_unary_def with_idempotent_def from_kind_def fun_eq_iff)
  then show ?thesis
    using inst unfolding lim HEALTH_CHECK_PATH_def HEALTH_WATCH_PATH_def
    by (intro exI [of _ r2] exI [of _ ?c] conjI) (assumption | rule refl)+
qed

end
