(* ===== verification/GrpcStatus.thy ===== *)
theory GrpcStatus
  imports ErrorModel
begin

text \<open>
  The \<^verbatim>\<open>google.rpc.Status\<close> message of the \<^verbatim>\<open>grpc-status-details-bin\<close> trailer
  (\<^verbatim>\<open>connectrpc/src/grpc_status.rs\<close>), written and read field by field. The protobuf
  primitives (varints and tags) and base64 are library code: a record \<open>wire_ops\<close> of those
  functions is a parameter, and \<open>wire_laws\<close> states what is relied on, that each decoder undoes
  its encoder and consumes its input. The reading loops run with fuel for the number of input
  bytes; \<open>None\<close> would be running out, which the laws exclude.
\<close>

section \<open>UTF-8\<close>

text \<open>\<^verbatim>\<open>str::from_utf8\<close> accepts exactly the well-formed byte sequences.\<close>

definition in_range :: "nat \<Rightarrow> nat \<Rightarrow> byte \<Rightarrow> bool" where
  "in_range lo hi b \<longleftrightarrow> lo \<le> unat b \<and> unat b \<le> hi"

definition utf8_tail :: "byte \<Rightarrow> bool" where
  "utf8_tail = in_range 0x80 0xBF"

fun utf8_valid :: "bytes \<Rightarrow> bool" where
  "utf8_valid [] = True"
| "utf8_valid (a # s) =
     (if in_range 0x00 0x7F a then utf8_valid s
      else (case s of
        [] \<Rightarrow> False
      | b # s2 \<Rightarrow>
          (if in_range 0xC2 0xDF a then utf8_tail b \<and> utf8_valid s2
           else (case s2 of
             [] \<Rightarrow> False
           | c # s3 \<Rightarrow>
               (if in_range 0xE0 0xEF a
                then (if unat a = 0xE0 then in_range 0xA0 0xBF b
                      else if unat a = 0xED then in_range 0x80 0x9F b
                      else utf8_tail b) \<and> utf8_tail c \<and> utf8_valid s3
                else (case s3 of
                  [] \<Rightarrow> False
                | d # s4 \<Rightarrow>
                    in_range 0xF0 0xF4 a \<and>
                    (if unat a = 0xF0 then in_range 0x90 0xBF b
                     else if unat a = 0xF4 then in_range 0x80 0x8F b
                     else utf8_tail b) \<and> utf8_tail c \<and> utf8_tail d \<and> utf8_valid s4))))))"

definition str_from_utf8 :: "bytes \<Rightarrow> string option" where
  "str_from_utf8 b = (if utf8_valid b then Some (from_bytes b) else None)"

section \<open>The primitives\<close>

datatype wire_type = Varint | Fixed64 | LengthDelimited | Fixed32 | OtherWireType

record wire_ops =
  encode_varint :: "nat \<Rightarrow> bytes"
  decode_varint :: "bytes \<Rightarrow> (nat \<times> bytes) option"
  encode_tag :: "nat \<Rightarrow> wire_type \<Rightarrow> bytes"
  decode_tag :: "bytes \<Rightarrow> ((nat \<times> wire_type) \<times> bytes) option"
  b64_encode_no_pad :: "bytes \<Rightarrow> string"
  b64_decode_no_pad :: "string \<Rightarrow> bytes option"
  b64_decode_padded :: "string \<Rightarrow> bytes option"

definition wire_laws :: "wire_ops \<Rightarrow> bool" where
  "wire_laws w \<longleftrightarrow>
     (\<forall>n r. n \<le> u64_MAX \<longrightarrow> decode_varint w (encode_varint w n @ r) = Some (n, r)) \<and>
     (\<forall>k t r. decode_tag w (encode_tag w k t @ r) = Some ((k, t), r)) \<and>
     (\<forall>b v r. decode_varint w b = Some (v, r) \<longrightarrow> length r < length b) \<and>
     (\<forall>b v r. decode_tag w b = Some (v, r) \<longrightarrow> length r < length b) \<and>
     (\<forall>b. b64_decode_no_pad w (b64_encode_no_pad w b) = Some b)"

definition detail_b64_encode :: "wire_ops \<Rightarrow> bytes \<Rightarrow> string" where
  "detail_b64_encode w b = b64_encode_no_pad w b"

definition decode_lenient :: "wire_ops \<Rightarrow> string \<Rightarrow> bytes option" where
  "decode_lenient w s =
     (case b64_decode_no_pad w s of Some b \<Rightarrow> Some b | None \<Rightarrow> b64_decode_padded w s)"

definition from_message :: "wire_ops \<Rightarrow> string \<Rightarrow> bytes \<Rightarrow> error_detail" where
  "from_message w type_name message_bytes =
     \<lparr>type_url = type_name, detail_value = Some (detail_b64_encode w message_bytes), detail_debug = None\<rparr>"

section \<open>Encoding\<close>

definition write_bytes_field :: "wire_ops \<Rightarrow> nat \<Rightarrow> bytes \<Rightarrow> bytes \<Rightarrow> bytes" where
  "write_bytes_field w k data buf = buf @ encode_tag w k LengthDelimited @ encode_varint w (length data) @ data"

definition any_type_url :: "string \<Rightarrow> string" where
  "any_type_url url = (if CHR ''/'' \<in> set url then url else ''type.googleapis.com/'' @ url)"

definition encode_any :: "wire_ops \<Rightarrow> string \<Rightarrow> string option \<Rightarrow> bytes" where
  "encode_any w url value =
     (let buf = write_bytes_field w 1 (as_bytes (any_type_url url)) [] in
      case value of
        Some s \<Rightarrow> (case decode_lenient w s of Some b \<Rightarrow> write_bytes_field w 2 b buf | None \<Rightarrow> buf)
      | None \<Rightarrow> buf)"

definition status_encode :: "wire_ops \<Rightarrow> connect_error \<Rightarrow> bytes" where
  "status_encode w err =
     (let buf = encode_tag w 1 Varint @ encode_varint w (unat (grpc_code (err_code err)));
          buf = (case err_message err of
                   Some m \<Rightarrow> write_bytes_field w 2 (as_bytes m) buf | None \<Rightarrow> buf)
      in fold (\<lambda>d buf. write_bytes_field w 3 (encode_any w (type_url d) (detail_value d)) buf)
           (err_details err) buf)"

section \<open>Decoding\<close>

text \<open>The loop of \<^verbatim>\<open>decode_any\<close>: \<open>Some None\<close> is its \<^verbatim>\<open>None\<close>.\<close>

fun any_loop ::
    "wire_ops \<Rightarrow> nat \<Rightarrow> bytes \<Rightarrow> string option \<Rightarrow> bytes option \<Rightarrow> (string option \<times> bytes option) option option" where
  "any_loop w 0 buf url value = None"
| "any_loop w (Suc n) buf url value =
     (if buf = [] then Some (Some (url, value))
      else (case decode_tag w buf of
        None \<Rightarrow> Some None
      | Some ((k, t), buf) \<Rightarrow>
          (case t of
             LengthDelimited \<Rightarrow>
               (case decode_varint w buf of
                  None \<Rightarrow> Some None
                | Some (len, buf) \<Rightarrow>
                    (if length buf < len then Some (Some (url, value))
                     else if k = 1
                     then (case str_from_utf8 (take len buf) of
                             None \<Rightarrow> Some None
                           | Some s \<Rightarrow> any_loop w n (drop len buf) (Some s) value)
                     else if k = 2 then any_loop w n (drop len buf) url (Some (take len buf))
                     else any_loop w n (drop len buf) url value))
           | Varint \<Rightarrow>
               (case decode_varint w buf of
                  None \<Rightarrow> Some None
                | Some (_, buf) \<Rightarrow> any_loop w n buf url value)
           | _ \<Rightarrow> Some (Some (url, value)))))"

definition decode_any :: "wire_ops \<Rightarrow> bytes \<Rightarrow> error_detail option option" where
  "decode_any w data =
     map_option (\<lambda>r. Option.bind r (\<lambda>(url, value). Option.bind url (\<lambda>u.
       Some \<lparr>type_url = u,
             detail_value = Some (detail_b64_encode w (case value of Some v \<Rightarrow> v | None \<Rightarrow> [])),
             detail_debug = None\<rparr>)))
       (any_loop w (Suc (length data)) data None None)"

fun details_loop :: "wire_ops \<Rightarrow> nat \<Rightarrow> bytes \<Rightarrow> error_detail list \<Rightarrow> error_detail list option" where
  "details_loop w 0 buf ds = None"
| "details_loop w (Suc n) buf ds =
     (if buf = [] then Some ds
      else (case decode_tag w buf of
        None \<Rightarrow> Some ds
      | Some ((k, t), buf) \<Rightarrow>
          (case t of
             Varint \<Rightarrow>
               (case decode_varint w buf of None \<Rightarrow> Some ds | Some (_, buf) \<Rightarrow> details_loop w n buf ds)
           | LengthDelimited \<Rightarrow>
               (case decode_varint w buf of
                  None \<Rightarrow> Some ds
                | Some (len, buf) \<Rightarrow>
                    (if length buf < len then Some ds
                     else if k = 3
                     then (case decode_any w (take len buf) of
                             None \<Rightarrow> None
                           | Some None \<Rightarrow> details_loop w n (drop len buf) ds
                           | Some (Some d) \<Rightarrow> details_loop w n (drop len buf) (ds @ [d]))
                     else details_loop w n (drop len buf) ds))
           | Fixed64 \<Rightarrow> (if length buf < 8 then Some ds else details_loop w n (drop 8 buf) ds)
           | Fixed32 \<Rightarrow> (if length buf < 4 then Some ds else details_loop w n (drop 4 buf) ds)
           | OtherWireType \<Rightarrow> Some ds)))"

definition decode_details :: "wire_ops \<Rightarrow> bytes \<Rightarrow> error_detail list option" where
  "decode_details w data = details_loop w (Suc (length data)) data []"

section \<open>Reading back what was written\<close>

lemma wire_lawsD:
  assumes "wire_laws w"
  shows "n \<le> u64_MAX \<Longrightarrow> decode_varint w (encode_varint w n @ r) = Some (n, r)"
    and "decode_tag w (encode_tag w k t @ r) = Some ((k, t), r)"
    and "decode_varint w b = Some (v, r) \<Longrightarrow> length r < length b"
    and "decode_tag w b = Some (u, r) \<Longrightarrow> length r < length b"
    and "b64_decode_no_pad w (b64_encode_no_pad w b) = Some b"
  using assms unfolding wire_laws_def by blast+

lemma tag_nonempty: "wire_laws w \<Longrightarrow> encode_tag w k t \<noteq> []"
proof
  assume w: "wire_laws w" and "encode_tag w k t = []"
  then show False using wire_lawsD(2) [OF w, of k t "[]"] wire_lawsD(4) [OF w, of "[]"] by simp
qed

lemma any_loop_terminates:
  assumes "wire_laws w"
  shows "length buf < n \<Longrightarrow> any_loop w n buf url vl \<noteq> None"
proof (induction n arbitrary: buf url vl)
  case 0
  then show ?case by simp
next
  case (Suc n)
  have step: "any_loop w n b' u v \<noteq> None" if "length b' < length buf" for b' u v
    using Suc that by (metis Suc_lessE le_less_trans less_Suc_eq_le not_less_eq order_less_le_trans)
  show ?case
    by (auto simp del: not_None_eq split: option.splits prod.splits wire_type.splits
        intro!: step dest!: wire_lawsD(3) [OF assms] wire_lawsD(4) [OF assms])
qed

lemma decode_any_terminates: "wire_laws w \<Longrightarrow> decode_any w data \<noteq> None"
  using any_loop_terminates [of w data "Suc (length data)" None None] by (simp add: decode_any_def)

lemma details_loop_terminates:
  assumes "wire_laws w"
  shows "length buf < n \<Longrightarrow> details_loop w n buf ds \<noteq> None"
proof (induction n arbitrary: buf ds)
  case 0
  then show ?case by simp
next
  case (Suc n)
  have step: "details_loop w n b' e \<noteq> None" if "length b' < length buf" for b' e
    using Suc that by (metis Suc_lessE le_less_trans less_Suc_eq_le not_less_eq order_less_le_trans)
  show ?case
    using decode_any_terminates [OF assms]
    by (auto simp del: not_None_eq split: option.splits prod.splits wire_type.splits
        intro!: step dest!: wire_lawsD(3) [OF assms] wire_lawsD(4) [OF assms])
qed

text \<open>One field, as written.\<close>

definition bytes_field :: "wire_ops \<Rightarrow> nat \<Rightarrow> bytes \<Rightarrow> bytes" where
  "bytes_field w k data = encode_tag w k LengthDelimited @ encode_varint w (length data) @ data"

lemma write_bytes_field_eq: "write_bytes_field w k data buf = buf @ bytes_field w k data"
  by (simp add: write_bytes_field_def bytes_field_def)

lemma length_bytes_field: "length data \<le> length (bytes_field w k data)"
  by (simp add: bytes_field_def)

lemma encode_any_eq:
  "encode_any w url v = bytes_field w 1 (as_bytes (any_type_url url)) @
     (case Option.bind v (decode_lenient w) of Some b \<Rightarrow> bytes_field w 2 b | None \<Rightarrow> [])"
  by (cases v) (simp_all add: encode_any_def write_bytes_field_eq Let_def split: option.splits)

lemma status_encode_eq:
  "status_encode w err = encode_tag w 1 Varint @ encode_varint w (unat (grpc_code (err_code err))) @
     (case err_message err of Some m \<Rightarrow> bytes_field w 2 (as_bytes m) | None \<Rightarrow> []) @
     concat (map (\<lambda>d. bytes_field w 3 (encode_any w (type_url d) (detail_value d))) (err_details err))"
proof -
  have "fold (\<lambda>d buf. buf @ bytes_field w 3 (encode_any w (type_url d) (detail_value d))) ds b =
      b @ concat (map (\<lambda>d. bytes_field w 3 (encode_any w (type_url d) (detail_value d))) ds)"
    for ds :: "error_detail list" and b
    by (induction ds arbitrary: b) simp_all
  then show ?thesis by (simp add: status_encode_def write_bytes_field_eq split: option.splits)
qed

lemma any_loop_field:
  assumes w: "wire_laws w" and len: "length data \<le> u64_MAX"
  shows "any_loop w (Suc n) (bytes_field w 1 data @ r) url v =
      (case str_from_utf8 data of None \<Rightarrow> Some None | Some s \<Rightarrow> any_loop w n r (Some s) v)"
    and "any_loop w (Suc n) (bytes_field w 2 data @ r) url v = any_loop w n r url (Some data)"
  using wire_lawsD(1) [OF w len] tag_nonempty [OF w]
  by (simp_all add: bytes_field_def wire_lawsD(2) [OF w] split: option.splits)

lemma details_loop_field:
  assumes w: "wire_laws w" and len: "length data \<le> u64_MAX"
  shows "k \<noteq> 3 \<Longrightarrow> details_loop w (Suc n) (bytes_field w k data @ r) ds = details_loop w n r ds"
    and "decode_any w data = Some (Some d) \<Longrightarrow>
      details_loop w (Suc n) (bytes_field w 3 data @ r) ds = details_loop w n r (ds @ [d])"
  using wire_lawsD(1) [OF w len] tag_nonempty [OF w]
  by (simp_all add: bytes_field_def wire_lawsD(2) [OF w])

lemma details_loop_code:
  assumes w: "wire_laws w" and "c \<le> u64_MAX"
  shows "details_loop w (Suc n) (encode_tag w 1 Varint @ encode_varint w c @ r) ds = details_loop w n r ds"
  using wire_lawsD(1) [OF w assms(2)] tag_nonempty [OF w] by (simp add: wire_lawsD(2) [OF w])

lemma field_pos: "wire_laws w \<Longrightarrow> 0 < length (bytes_field w k data)"
  using tag_nonempty [of w k LengthDelimited] by (simp add: bytes_field_def)

lemma field_longer: "wire_laws w \<Longrightarrow> length r < length (bytes_field w k data @ r)"
  using tag_nonempty [of w k LengthDelimited] by (simp add: bytes_field_def)

text \<open>What a detail looks like after a trip over the wire.\<close>

definition wire_detail :: "wire_ops \<Rightarrow> error_detail \<Rightarrow> error_detail" where
  "wire_detail w d =
     \<lparr>type_url = any_type_url (type_url d),
      detail_value = Some (detail_b64_encode w
        (case Option.bind (detail_value d) (decode_lenient w) of Some b \<Rightarrow> b | None \<Rightarrow> [])),
      detail_debug = None\<rparr>"

lemma decode_any_encode_any:
  assumes w: "wire_laws w" and utf8: "utf8_valid (as_bytes (any_type_url (type_url d)))"
    and len: "length (encode_any w (type_url d) (detail_value d)) \<le> u64_MAX"
  shows "decode_any w (encode_any w (type_url d) (detail_value d)) = Some (Some (wire_detail w d))"
proof -
  let ?u = "as_bytes (any_type_url (type_url d))"
  let ?v = "Option.bind (detail_value d) (decode_lenient w)"
  let ?tail = "case ?v of Some b \<Rightarrow> bytes_field w 2 b | None \<Rightarrow> []"
  let ?data = "bytes_field w 1 ?u @ ?tail"
  have data: "encode_any w (type_url d) (detail_value d) = ?data" by (rule encode_any_eq)
  have lu: "length ?u \<le> u64_MAX"
    using len length_bytes_field [of ?u w 1] unfolding data by (simp del: length_as_bytes)
  obtain m where m: "length ?data = Suc m" and mt: "length ?tail \<le> m"
    using field_longer [OF w, of ?tail 1 ?u] by (cases "length ?data") (simp_all only: less_Suc_eq_le not_less0)
  have url: "str_from_utf8 ?u = Some (any_type_url (type_url d))" using utf8 by (simp add: str_from_utf8_def)
  have "any_loop w (Suc (length ?data)) ?data None None =
      any_loop w (Suc m) ?tail (Some (any_type_url (type_url d))) None"
    unfolding m any_loop_field(1) [OF w lu] url by simp
  also have "\<dots> = Some (Some (Some (any_type_url (type_url d)), ?v))"
  proof (cases ?v)
    case None
    then show ?thesis by simp
  next
    case (Some b)
    have "length b \<le> u64_MAX"
      using len length_bytes_field [of b w 2] unfolding data Some by simp
    moreover obtain k where "m = Suc k" using mt Some field_longer [OF w, of "[]" 2 b] by (cases m) auto
    ultimately show ?thesis
      using any_loop_field(2) [OF w, of b m "[]"] by (simp del: any_loop.simps(2) add: Some) simp
  qed
  finally show ?thesis unfolding data decode_any_def by (simp add: wire_detail_def)
qed

lemma details_loop_details:
  assumes w: "wire_laws w"
    and "\<forall>d \<in> set ds. utf8_valid (as_bytes (any_type_url (type_url d)))"
    and "length (concat (map (\<lambda>d. bytes_field w 3 (encode_any w (type_url d) (detail_value d))) ds)) \<le> u64_MAX"
    and "length (concat (map (\<lambda>d. bytes_field w 3 (encode_any w (type_url d) (detail_value d))) ds)) < n"
  shows "details_loop w n (concat (map (\<lambda>d. bytes_field w 3 (encode_any w (type_url d) (detail_value d))) ds)) acc =
    Some (acc @ map (wire_detail w) ds)"
  using assms(2-)
proof (induction ds arbitrary: n acc)
  case Nil
  then obtain m where "n = Suc m" by (cases n) auto
  then show ?case by simp
next
  case (Cons d ds)
  let ?any = "encode_any w (type_url d) (detail_value d)"
  let ?rest = "concat (map (\<lambda>d. bytes_field w 3 (encode_any w (type_url d) (detail_value d))) ds)"
  have any: "length ?any \<le> u64_MAX" using Cons.prems(2) length_bytes_field [of ?any w 3] by simp
  have lt: "length (bytes_field w 3 ?any) + length ?rest < n" using Cons.prems(3) by simp
  obtain m where n: "n = Suc m" using lt by (cases n) simp_all
  have "length ?rest < m" using lt field_pos [OF w, of 3 ?any] unfolding n by linarith
  note m = n this
  have "decode_any w ?any = Some (Some (wire_detail w d))"
    using Cons.prems(1) any by (intro decode_any_encode_any [OF w]) auto
  from details_loop_field(2) [OF w any this, of m ?rest acc] Cons.IH [of m "acc @ [wire_detail w d]"] Cons.prems m
  show ?case by (simp del: details_loop.simps)
qed

lemma decode_encoded_status:
  assumes "wire_laws w" and "length (status_encode w err) \<le> u64_MAX"
    and "\<forall>d \<in> set (err_details err). utf8_valid (as_bytes (any_type_url (type_url d)))"
  shows "decode_details w (status_encode w err) = Some (map (wire_detail w) (err_details err))"
proof -
  let ?msg = "case err_message err of Some m \<Rightarrow> bytes_field w 2 (as_bytes m) | None \<Rightarrow> []"
  let ?fields = "concat (map (\<lambda>d. bytes_field w 3 (encode_any w (type_url d) (detail_value d))) (err_details err))"
  let ?code = "unat (grpc_code (err_code err))"
  let ?head = "encode_tag w 1 Varint @ encode_varint w ?code"
  have enc: "status_encode w err = ?head @ ?msg @ ?fields" by (simp add: status_encode_eq)
  have c: "?code \<le> u64_MAX"
    using unat_u32_le [of "grpc_code (err_code err)"] by (simp add: u32_MAX_def u64_MAX_def)
  have fl: "length ?fields \<le> u64_MAX" using assms(2) unfolding enc by simp
  have "0 < length ?head" using tag_nonempty [OF assms(1)] by simp
  moreover have "length (status_encode w err) = length ?head + length (?msg @ ?fields)" unfolding enc by simp
  ultimately obtain k where k: "length (status_encode w err) = Suc k" and kl: "length (?msg @ ?fields) \<le> k"
    by (cases "length ?head") auto
  have "decode_details w (status_encode w err) = details_loop w (Suc k) (?msg @ ?fields) []"
    unfolding decode_details_def k unfolding enc using details_loop_code [OF assms(1) c, of "Suc k" "?msg @ ?fields" "[]"]
    by simp
  also have "\<dots> = Some (map (wire_detail w) (err_details err))"
  proof (cases "err_message err")
    case None
    then show ?thesis using details_loop_details [OF assms(1,3) fl, of "Suc k" "[]"] kl by simp
  next
    case (Some m)
    have ml: "length (as_bytes m) \<le> u64_MAX"
      using assms(2) length_bytes_field [of "as_bytes m" w 2] unfolding enc Some by simp
    have "length (bytes_field w 2 (as_bytes m)) + length ?fields \<le> k" using kl by (simp add: Some)
    then have "length ?fields < k" using field_pos [OF assms(1), of 2 "as_bytes m"] by linarith
    then show ?thesis
      using details_loop_details [OF assms(1,3) fl, of k "[]"] details_loop_field(1) [OF assms(1) ml, of 2 k ?fields "[]"]
      by (simp add: Some del: details_loop.simps)
  qed
  finally show ?thesis .
qed

text \<open>A self-delimiting code that satisfies the laws.\<close>

definition sample_read :: "bytes \<Rightarrow> (nat \<times> bytes) option" where
  "sample_read b =
     (case dropWhile (\<lambda>x. x = 0) b of [] \<Rightarrow> None | _ # r \<Rightarrow> Some (length (takeWhile (\<lambda>x. x = 0) b), r))"

fun sample_type_byte :: "wire_type \<Rightarrow> byte" where
  "sample_type_byte Varint = 0"
| "sample_type_byte Fixed64 = 1"
| "sample_type_byte LengthDelimited = 2"
| "sample_type_byte OtherWireType = 3"
| "sample_type_byte Fixed32 = 5"

definition sample_type_of :: "byte \<Rightarrow> wire_type" where
  "sample_type_of b = (if b = 0 then Varint else if b = 1 then Fixed64 else if b = 2 then LengthDelimited
     else if b = 5 then Fixed32 else OtherWireType)"

definition sample_wire :: wire_ops where
  "sample_wire =
     \<lparr>encode_varint = (\<lambda>n. replicate n 0 @ [1]), decode_varint = sample_read,
      encode_tag = (\<lambda>k t. replicate k 0 @ [1, sample_type_byte t]),
      decode_tag = (\<lambda>b. case sample_read b of Some (k, t # r) \<Rightarrow> Some ((k, sample_type_of t), r) | _ \<Rightarrow> None),
      b64_encode_no_pad = from_bytes, b64_decode_no_pad = (\<lambda>s. Some (as_bytes s)),
      b64_decode_padded = (\<lambda>_. None)\<rparr>"

lemma sample_read_replicate: "sample_read (replicate n 0 @ 1 # r) = Some (n, r)"
  by (induction n) (auto simp: sample_read_def split: list.splits)

lemma sample_read_shrinks: "sample_read b = Some (v, r) \<Longrightarrow> length r < length b"
  using length_dropWhile_le [of "\<lambda>x. x = 0" b] by (auto simp: sample_read_def split: list.splits)

lemma sample_type_inverse: "sample_type_of (sample_type_byte t) = t"
  by (cases t) (simp_all add: sample_type_of_def)

lemma sample_wire_laws: "wire_laws sample_wire"
  unfolding wire_laws_def sample_wire_def
  by (auto simp: sample_read_replicate sample_type_inverse dest!: sample_read_shrinks
      split: option.splits list.splits prod.splits)

text \<open>
  C40. Decoding a status trailer returns on every input: the details that could be read, in
  order, whatever bytes the peer sent.
\<close>

theorem status_decode_returns:
  assumes "wire_laws w"
  shows "\<exists>ds. decode_details w data = Some ds"
  using details_loop_terminates [OF assms, of data "Suc (length data)" "[]"]
  by (auto simp: decode_details_def simp del: details_loop.simps)

theorem status_decode_returns_witness:
  "wire_laws sample_wire \<and> (\<exists>ds. decode_details sample_wire [0x1A, 0x80] = Some ds)"
  using status_decode_returns [OF sample_wire_laws] sample_wire_laws by blast

end
