(* ===== verification/Trailers.thy ===== *)
theory Trailers
  imports GrpcStatus Envelope Timeout
begin

text \<open>
  Trailing metadata and error responses: what the server writes
  (\<^verbatim>\<open>connectrpc/src/service.rs\<close>: the gRPC trailers, the gRPC-Web trailer frame, the Connect
  end-of-stream message, the headers echoed from a propagated error) and what the client reads
  (\<^verbatim>\<open>connectrpc/src/client/mod.rs\<close>). Percent coding, the parsers of header names and values
  and the entry ceiling of the header map are library code: a record \<open>text_ops\<close> of those
  functions is a parameter, with \<open>text_laws\<close> what is relied on.
\<close>

record text_ops =
  percent_encode :: "string \<Rightarrow> string"
  percent_decode_lossy :: "string \<Rightarrow> string"
  name_from_bytes :: "bytes \<Rightarrow> string option"
  value_from_str :: "string \<Rightarrow> string option"
  map_full :: "headers \<Rightarrow> bool"
  debug_value :: "string \<Rightarrow> string"

section \<open>The server: headers of an error response\<close>

definition is_unforwardable_header :: "string \<Rightarrow> bool" where
  "is_unforwardable_header name \<longleftrightarrow>
     name = ''connection'' \<or> name = ''keep-alive'' \<or> name = ''proxy-authenticate'' \<or>
     name = ''proxy-authorization'' \<or> name = ''te'' \<or> name = ''trailer'' \<or>
     name = ''transfer-encoding'' \<or> name = ''upgrade'' \<or>
     name = ''content-length'' \<or> name = ''content-type'' \<or> name = ''content-encoding'' \<or>
     name = ''grpc-encoding'' \<or> name = ''connect-content-encoding'' \<or>
     name = ''date'' \<or> name = ''grpc-status-details-bin''"

text \<open>\<open>response\<close> are the headers of the response under construction.\<close>

definition echo_error_headers :: "headers \<Rightarrow> connect_error \<Rightarrow> headers" where
  "echo_error_headers response err =
     (let already_set = map fst response in
      fold (\<lambda>(key, value) response.
          if is_unforwardable_header key \<or> key \<in> set already_set then response
          else hm_append key value response)
        (hm_iter (err_response_headers err)) response)"

definition add_trailers :: "headers \<Rightarrow> headers \<Rightarrow> headers" where
  "add_trailers response trailers =
     fold (\<lambda>(key, value) response. hm_append (''trailer-'' @ key) value response) (hm_iter trailers) response"

section \<open>The server: gRPC trailers\<close>

definition GRPC_STATUS :: string where "GRPC_STATUS = ''grpc-status''"
definition GRPC_MESSAGE :: string where "GRPC_MESSAGE = ''grpc-message''"
definition GRPC_STATUS_DETAILS_BIN :: string where "GRPC_STATUS_DETAILS_BIN = ''grpc-status-details-bin''"

lemmas grpc_header_defs = GRPC_STATUS_def GRPC_MESSAGE_def GRPC_STATUS_DETAILS_BIN_def

definition grpc_percent_encode :: "text_ops \<Rightarrow> string \<Rightarrow> string" where
  "grpc_percent_encode t message = percent_encode t message"

definition status_trailers :: "text_ops \<Rightarrow> wire_ops \<Rightarrow> connect_error \<Rightarrow> headers" where
  "status_trailers t w err =
     (let h = hm_insert GRPC_STATUS (show_nat (unat (grpc_code (err_code err)))) hm_new;
          h = (case Option.bind (err_message err) (\<lambda>m. value_from_str t (grpc_percent_encode t m)) of
                 Some val \<Rightarrow> hm_insert GRPC_MESSAGE val h | None \<Rightarrow> h)
      in (case value_from_str t (b64_encode_no_pad w (status_encode w err)) of
            Some val \<Rightarrow> hm_insert GRPC_STATUS_DETAILS_BIN val h | None \<Rightarrow> h))"

definition build_grpc_trailers ::
    "text_ops \<Rightarrow> wire_ops \<Rightarrow> connect_error option \<Rightarrow> headers \<Rightarrow> headers" where
  "build_grpc_trailers t w error custom_trailers =
     (let trailers = (case error of
            Some err \<Rightarrow> hm_append_all (hm_iter (err_trailers err)) (status_trailers t w err)
          | None \<Rightarrow> hm_insert GRPC_STATUS ''0'' hm_new);
          error_has_own_trailers = (case error of Some e \<Rightarrow> \<not> hm_is_empty (err_trailers e) | None \<Rightarrow> False)
      in if error_has_own_trailers then trailers
         else hm_append_all (hm_iter custom_trailers) trailers)"

definition CRLF :: string where "CRLF = [CHR 13, CHR 10]"

definition trailer_line :: "string \<times> string \<Rightarrow> string" where
  "trailer_line kv = fst kv @ '': '' @ snd kv @ CRLF"

definition encode_grpc_web_trailers :: "headers \<Rightarrow> bytes" where
  "encode_grpc_web_trailers trailers =
     (let payload = as_bytes (concat (map trailer_line (hm_iter trailers)));
          len = (word_of_nat (length payload) :: u32)
      in [flags_GRPC_WEB_TRAILER] @ u32_to_be_bytes len @ payload)"

section \<open>The server: the Connect end of stream\<close>

type_synonym metadata = "(string \<times> string list) list"

definition headers_to_metadata :: "headers \<Rightarrow> metadata" where
  "headers_to_metadata h =
     fold (\<lambda>(key, value) m.
         let v = (case header_to_str value of Some s \<Rightarrow> s | None \<Rightarrow> [])
         in AList.update key ((case map_of m key of Some vs \<Rightarrow> vs | None \<Rightarrow> []) @ [v]) m)
       (hm_iter h) []"

text \<open>Details are serialized by the JSON library, one value each; here they are kept as data.\<close>

record end_stream_error =
  es_code :: string
  es_message :: "string option"
  es_details :: "error_detail list option"

record end_stream_response =
  es_error :: "end_stream_error option"
  es_metadata :: "metadata option"

definition metadata_from_trailers :: "headers \<Rightarrow> metadata option" where
  "metadata_from_trailers trailers =
     (if hm_is_empty trailers then None else Some (headers_to_metadata trailers))"

definition end_stream_success :: "headers \<Rightarrow> end_stream_response" where
  "end_stream_success trailers = \<lparr>es_error = None, es_metadata = metadata_from_trailers trailers\<rparr>"

definition end_stream_failure :: "connect_error \<Rightarrow> headers \<Rightarrow> end_stream_response" where
  "end_stream_failure err context_trailers =
     (let source = (if hm_is_empty (err_trailers err) then context_trailers else err_trailers err) in
      \<lparr>es_error = Some \<lparr>es_code = as_str (err_code err), es_message = err_message err,
         es_details = (if err_details err = [] then None else Some (err_details err))\<rparr>,
       es_metadata = metadata_from_trailers source\<rparr>)"

section \<open>The client: reading trailers\<close>

definition is_status_trailer :: "string \<Rightarrow> bool" where
  "is_status_trailer name \<longleftrightarrow> name = GRPC_STATUS \<or> name = GRPC_MESSAGE \<or> name = GRPC_STATUS_DETAILS_BIN"

definition error_metadata_from_trailers :: "headers \<Rightarrow> headers" where
  "error_metadata_from_trailers trailers =
     hm_append_all (filter (\<lambda>(key, value). \<not> is_status_trailer key) (hm_iter trailers)) hm_new"

definition grpc_percent_decode :: "text_ops \<Rightarrow> string \<Rightarrow> string" where
  "grpc_percent_decode t s = percent_decode_lossy t s"

text \<open>\<^verbatim>\<open>str::parse::<u32>\<close>.\<close>

definition parse_u32 :: "string \<Rightarrow> u32 option" where
  "parse_u32 s =
     (case parse_u64 s of Some n \<Rightarrow> (if n \<le> u32_MAX then Some (word_of_nat n) else None) | None \<Rightarrow> None)"

definition status_details :: "wire_ops \<Rightarrow> headers \<Rightarrow> error_detail list option" where
  "status_details w trailers =
     Option.bind (hm_get_str trailers GRPC_STATUS_DETAILS_BIN) (\<lambda>b64.
       Option.bind (case b64_decode_padded w b64 of Some b \<Rightarrow> Some b | None \<Rightarrow> b64_decode_no_pad w b64)
         (decode_details w))"

definition parse_grpc_error_from_trailers :: "text_ops \<Rightarrow> wire_ops \<Rightarrow> headers \<Rightarrow> connect_error option" where
  "parse_grpc_error_from_trailers t w trailers =
     (case hm_get trailers GRPC_STATUS of
        None \<Rightarrow> None
      | Some raw \<Rightarrow>
          (case Option.bind (header_to_str raw) parse_u32 of
             None \<Rightarrow> Some (new_error Unknown (''protocol error: malformed grpc-status: '' @ debug_value t raw))
           | Some status \<Rightarrow>
               (if status = 0 then None
                else
                  (let code = (case from_grpc_code status of Some c \<Rightarrow> c | None \<Rightarrow> Unknown);
                       message = map_option (grpc_percent_decode t) (hm_get_str trailers GRPC_MESSAGE);
                       err = new_error code (case message of Some m \<Rightarrow> m | None \<Rightarrow> []);
                       err = (case status_details w trailers of Some ds \<Rightarrow> err\<lparr>err_details := ds\<rparr> | None \<Rightarrow> err)
                   in Some (set_trailers (error_metadata_from_trailers trailers) err)))))"

definition MAX_GRPC_WEB_TRAILER_SIZE :: usize where "MAX_GRPC_WEB_TRAILER_SIZE = 1024 * 1024"

text \<open>
  \<^verbatim>\<open>str::trim\<close> on arbitrary text strips the characters with the Unicode property
  \<^verbatim>\<open>White_Space\<close>, listed here by their UTF-8 encodings.
\<close>

definition unicode_spaces :: "string list" where
  "unicode_spaces =
     '' '' # map (\<lambda>n. [char_of n]) [9, 10, 11, 12, 13 :: nat] @
     map (\<lambda>n. [char_of (0xC2 :: nat), char_of n]) [0x85, 0xA0 :: nat] @
     [[char_of (0xE1 :: nat), char_of (0x9A :: nat), char_of (0x80 :: nat)]] @
     map (\<lambda>n. [char_of (0xE2 :: nat), char_of (0x80 :: nat), char_of n])
       [0x80, 0x81, 0x82, 0x83, 0x84, 0x85, 0x86, 0x87, 0x88, 0x89, 0x8A, 0xA8, 0xA9, 0xAF :: nat] @
     [[char_of (0xE2 :: nat), char_of (0x81 :: nat), char_of (0x9F :: nat)],
      [char_of (0xE3 :: nat), char_of (0x80 :: nat), char_of (0x80 :: nat)]]"

function trim_prefixes :: "string list \<Rightarrow> string \<Rightarrow> string" where
  "trim_prefixes ws s =
     (case find (\<lambda>w. w \<noteq> [] \<and> starts_with s w) ws of
        None \<Rightarrow> s
      | Some w \<Rightarrow> trim_prefixes ws (drop (length w) s))"
  by pat_completeness auto

termination
proof (relation "measure (\<lambda>(ws, s). length s)", goal_cases)
  case 1
  then show ?case by simp
next
  case (2 ws s w)
  then have "w \<noteq> []" "starts_with s w" using find_SomeD by force+
  then show ?case by (cases s; cases w) (auto simp: starts_with_def)
qed

declare trim_prefixes.simps [simp del]

definition str_trim :: "string \<Rightarrow> string" where
  "str_trim s = rev (trim_prefixes (map rev unicode_spaces) (rev (trim_prefixes unicode_spaces s)))"

definition trim_end_matches :: "char \<Rightarrow> string \<Rightarrow> string" where
  "trim_end_matches c s = rev (dropWhile (\<lambda>d. d = c) (rev s))"

definition split_once :: "char \<Rightarrow> string \<Rightarrow> (string \<times> string) option" where
  "split_once c s =
     (if c \<in> set s then Some (takeWhile (\<lambda>d. d \<noteq> c) s, tl (dropWhile (\<lambda>d. d \<noteq> c) s)) else None)"

text \<open>The header of one line of the trailer block, if it is one.\<close>

definition parse_trailer_line :: "text_ops \<Rightarrow> string \<Rightarrow> (string \<times> string) option" where
  "parse_trailer_line t line0 =
     (let line = trim_end_matches (CHR 13) line0 in
      if line = [] then None
      else (case split_once (CHR '':'') line of
              None \<Rightarrow> None
            | Some (key, value) \<Rightarrow>
                (case (name_from_bytes t (as_bytes (str_trim key)), value_from_str t (str_trim value)) of
                   (Some name, Some val) \<Rightarrow> Some (name, val)
                 | _ \<Rightarrow> None)))"

fun trailer_lines :: "text_ops \<Rightarrow> string list \<Rightarrow> headers \<Rightarrow> headers" where
  "trailer_lines t [] h = h"
| "trailer_lines t (line # lines) h =
     (case parse_trailer_line t line of
        None \<Rightarrow> trailer_lines t lines h
      | Some (name, val) \<Rightarrow> (if map_full t h then h else trailer_lines t lines (hm_append name val h)))"

definition parse_grpc_web_trailer_payload ::
    "text_ops \<Rightarrow> bool \<Rightarrow> bytes \<Rightarrow> (compression_registry \<times> string) option \<Rightarrow> headers option" where
  "parse_grpc_web_trailer_payload t compressed raw_payload decompression =
     Option.bind
       (if compressed
        then (case decompression of
                Some (registry, encoding) \<Rightarrow>
                  (case registry_decompress_with_limit registry encoding raw_payload MAX_GRPC_WEB_TRAILER_SIZE of
                     Ok payload_bytes \<Rightarrow> str_from_utf8 payload_bytes
                   | Err _ \<Rightarrow> None)
              | None \<Rightarrow> None)
        else str_from_utf8 raw_payload)
       (\<lambda>payload. Some (trailer_lines t (split_on (CHR 10) payload) hm_new))"

definition parse_grpc_web_trailer_frame_with_compression ::
    "text_ops \<Rightarrow> bytes \<Rightarrow> (compression_registry \<times> string) option \<Rightarrow> headers option" where
  "parse_grpc_web_trailer_frame_with_compression t data decompression =
     (if length data < 5 \<or> data ! 0 AND flags_GRPC_WEB_TRAILER = 0 then None
      else
        (let compressed = data ! 0 AND flags_COMPRESSED \<noteq> 0;
             len = unat (u32_from_be_bytes (data ! 1) (data ! 2) (data ! 3) (data ! 4))
         in if len > MAX_GRPC_WEB_TRAILER_SIZE \<or> length data < saturating_add len 5 then None
            else parse_grpc_web_trailer_payload t compressed (take len (drop 5 data)) decompression))"

text \<open>The metadata of an end-of-stream message, flattened to the pairs the two loops visit.\<close>

fun append_pairs_capped :: "text_ops \<Rightarrow> (string \<times> string) list \<Rightarrow> headers \<Rightarrow> headers" where
  "append_pairs_capped t [] h = h"
| "append_pairs_capped t ((n, v) # kvs) h =
     (case (name_from_bytes t (as_bytes n), value_from_str t v) of
        (Some name, Some val) \<Rightarrow> (if map_full t h then h else append_pairs_capped t kvs (hm_append name val h))
      | _ \<Rightarrow> append_pairs_capped t kvs h)"

definition append_metadata_capped :: "text_ops \<Rightarrow> headers \<Rightarrow> metadata \<Rightarrow> headers" where
  "append_metadata_capped t trailers m =
     append_pairs_capped t (concat (map (\<lambda>(n, vs). map (Pair n) vs) m)) trailers"

section \<open>Echoed headers\<close>

lemma echo_fold:
  "hm_values (fold (\<lambda>(key, value) response. if P key then response else hm_append key value response) kvs r) k =
     (if P k then hm_values r k else hm_values r k @ map snd (filter (\<lambda>p. fst p = k) kvs))"
  by (induction kvs arbitrary: r) auto

lemma hm_values_notin: "k \<notin> fst ` set h \<Longrightarrow> hm_values h k = []"
  by (simp add: hm_values_def map_of_eq_None_iff [THEN iffD2])

text \<open>
  C20. A propagated error never corrupts the response it is echoed onto: headers the response
  already has keep exactly their values, connection-scoped and framing headers of the error
  are dropped, and every other header of the error is forwarded with all its values in order.
\<close>

theorem echo_error_headers_exact:
  assumes "hm_wf (err_response_headers err)"
  shows "hm_values (echo_error_headers response err) k =
    (if is_unforwardable_header k \<or> k \<in> set (map fst response) then hm_values response k
     else hm_values (err_response_headers err) k)"
proof -
  have "hm_values (echo_error_headers response err) k =
      (if is_unforwardable_header k \<or> k \<in> set (map fst response) then hm_values response k
       else hm_values response k @ map snd (filter (\<lambda>p. fst p = k) (hm_iter (err_response_headers err))))"
    unfolding echo_error_headers_def Let_def by (rule echo_fold)
  with assms show ?thesis by (simp add: hm_values_iter hm_wf_def hm_values_notin)
qed

theorem echo_error_headers_exact_witness:
  "\<exists>err. hm_wf (err_response_headers err) \<and>
     hm_values (echo_error_headers [(''content-type'', [''application/json''])] err) ''x-id'' = [''7'', ''8''] \<and>
     hm_values (echo_error_headers [(''content-type'', [''application/json''])] err) ''content-length'' = []"
proof -
  let ?err = "with_headers [(''content-length'', [''12'']), (''x-id'', [''7'', ''8''])] (internal ''boom'')"
  have wf: "hm_wf (err_response_headers ?err)"
    by (simp add: err_response_headers_def with_headers_def box_headers_def hm_is_empty_def hm_wf_def)
  have "hm_values (err_response_headers ?err) ''x-id'' = [''7'', ''8'']"
    by (simp add: err_response_headers_def with_headers_def box_headers_def hm_is_empty_def hm_values_def)
  with wf echo_error_headers_exact [OF wf, of "[(''content-type'', [''application/json''])]"] show ?thesis
    by (intro exI [of _ ?err]) (simp add: is_unforwardable_header_def hm_values_def)
qed

section \<open>Rebuilding a header map from its entries\<close>

lemma alist_update_new: "k \<notin> fst ` set h \<Longrightarrow> AList.update k v h = h @ [(k, v)]"
  by (induction h) auto

lemma alist_update_last: "k \<notin> fst ` set h \<Longrightarrow> AList.update k v (h @ [(k, u)]) = h @ [(k, v)]"
  by (induction h) auto

lemma append_group:
  assumes "k \<notin> fst ` set h"
  shows "hm_append_all (map (Pair k) vs) (h @ [(k, us)]) = h @ [(k, us @ vs)]"
  using assms
proof (induction vs arbitrary: us)
  case Nil
  then show ?case by (simp add: hm_append_all_def)
next
  case (Cons v vs)
  have none: "map_of h k = None" using assms by (simp add: map_of_eq_None_iff)
  then have "hm_append k v (h @ [(k, us)]) = h @ [(k, us @ [v])]"
    using assms by (simp add: hm_append_def hm_values_def map_add_def alist_update_last)
  with Cons show ?case by (simp add: hm_append_all_def)
qed

lemma hm_append_all_append: "hm_append_all (a @ b) h = hm_append_all b (hm_append_all a h)"
  by (simp add: hm_append_all_def)

lemma length_alist_update: "length (AList.update k v m) \<le> Suc (length m)"
  by (induction m) auto

lemma length_hm_append_all: "length (hm_append_all kvs h) \<le> length h + length kvs"
proof (induction kvs arbitrary: h)
  case Nil
  then show ?case by (simp add: hm_append_all_def)
next
  case (Cons kv kvs)
  have "length (hm_append (fst kv) (snd kv) h) \<le> Suc (length h)"
    unfolding hm_append_def by (rule length_alist_update)
  with Cons [of "hm_append (fst kv) (snd kv) h"] show ?case
    by (simp add: hm_append_all_def case_prod_beta)
qed

lemma rebuild_from_iter:
  assumes "hm_wf h" and "fst ` set h0 \<inter> fst ` set h = {}"
  shows "hm_append_all (hm_iter h) h0 = h0 @ h"
  using assms
proof (induction h arbitrary: h0)
  case Nil
  then show ?case by (simp add: hm_iter_def hm_append_all_def)
next
  case (Cons p h)
  obtain k vs where p: "p = (k, vs)" by (cases p)
  with Cons.prems obtain v us where vs: "vs = v # us" by (cases vs) (auto simp: hm_wf_def)
  have k: "k \<notin> fst ` set h0" using Cons.prems p by auto
  have "hm_append k v h0 = h0 @ [(k, [v])]"
    using k by (simp add: hm_append_def hm_values_notin alist_update_new)
  then have "hm_append_all (map (Pair k) vs) h0 = hm_append_all (map (Pair k) us) (h0 @ [(k, [v])])"
    by (simp add: vs hm_append_all_def)
  then have g: "hm_append_all (map (Pair k) vs) h0 = h0 @ [(k, vs)]" using append_group [OF k] by (simp add: vs)
  have "hm_append_all (hm_iter (p # h)) h0 = hm_append_all (hm_iter h) (h0 @ [(k, vs)])"
    using g by (simp add: p hm_iter_def hm_append_all_append)
  also have "\<dots> = (h0 @ [(k, vs)]) @ h"
    using Cons.prems p by (intro Cons.IH) (auto simp: hm_wf_def)
  finally show ?case by (simp add: p)
qed

section \<open>The gRPC-Web trailer frame\<close>

lemma utf8_ascii: "\<forall>b \<in> set bs. unat b < 128 \<Longrightarrow> utf8_valid bs"
  by (induction bs) (auto simp: in_range_def)

lemma as_bytes_ascii: "\<forall>c \<in> set s. (of_char c :: nat) < 128 \<Longrightarrow> utf8_valid (as_bytes s)"
  by (rule utf8_ascii) (auto simp: as_bytes_def unat_of_nat)

lemma trim_space: "trim_prefixes unicode_spaces (CHR '' '' # s) = trim_prefixes unicode_spaces s"
proof -
  obtain rest where sp: "unicode_spaces = '' '' # rest" by (simp add: unicode_spaces_def)
  have "find (\<lambda>w. w \<noteq> [] \<and> starts_with (CHR '' '' # s) w) unicode_spaces = Some '' ''"
    unfolding sp by (simp add: starts_with_def)
  then show ?thesis by (subst trim_prefixes.simps) simp
qed

lemma str_trim_space: "str_trim (CHR '' '' # s) = str_trim s"
  by (simp add: str_trim_def trim_space)

text \<open>Text that starts and ends with a visible ASCII character is not trimmed.\<close>

definition visible_char :: "char \<Rightarrow> bool" where
  "visible_char c \<longleftrightarrow> 32 < (of_char c :: nat) \<and> (of_char c :: nat) < 127"

lemma trim_prefixes_other:
  assumes "\<forall>w \<in> set ws. w \<noteq> [] \<longrightarrow> hd w \<noteq> c"
  shows "trim_prefixes ws (c # s) = c # s"
proof -
  have "\<not> (w \<noteq> [] \<and> starts_with (c # s) w)" if "w \<in> set ws" for w
    using assms that by (cases w) (auto simp: starts_with_def)
  then have "find (\<lambda>w. w \<noteq> [] \<and> starts_with (c # s) w) ws = None" by (simp add: find_None_iff)
  then show ?thesis by (subst trim_prefixes.simps) simp
qed

lemma unicode_spaces_ends:
  "\<forall>w \<in> set unicode_spaces. \<not> visible_char (hd w) \<and> \<not> visible_char (last w)"
  by (simp add: unicode_spaces_def visible_char_def of_char_of)

lemma str_trim_visible:
  assumes "s \<noteq> []" and "visible_char (hd s)" and "visible_char (last s)"
  shows "str_trim s = s"
proof -
  obtain c cs where s: "s = c # cs" using assms(1) by (cases s) auto
  obtain ds d where r: "s = ds @ [d]" using assms(1) by (cases s rule: rev_cases) auto
  have "trim_prefixes unicode_spaces s = s"
    using assms(2) unicode_spaces_ends unfolding s by (intro trim_prefixes_other) auto
  moreover have "trim_prefixes (map rev unicode_spaces) (rev s) = rev s"
    using assms(3) unicode_spaces_ends unfolding r
    by (simp, intro trim_prefixes_other) (auto simp: hd_rev)
  ultimately show ?thesis by (simp add: str_trim_def)
qed

text \<open>What a trailer entry must look like to be read back as it was written.\<close>

definition entry_ok :: "text_ops \<Rightarrow> string \<times> string \<Rightarrow> bool" where
  "entry_ok t kv \<longleftrightarrow>
     CHR '':'' \<notin> set (fst kv) \<and> str_trim (fst kv) = fst kv \<and> str_trim (snd kv) = snd kv \<and>
     header_to_str (fst kv) = Some (fst kv) \<and> header_to_str (snd kv) = Some (snd kv) \<and>
     name_from_bytes t (as_bytes (fst kv)) = Some (fst kv) \<and> value_from_str t (snd kv) = Some (snd kv)"

lemma header_to_str_chars:
  "header_to_str s = Some s \<Longrightarrow> c \<in> set s \<Longrightarrow> (of_char c :: nat) < 128 \<and> c \<noteq> CHR 10 \<and> c \<noteq> CHR 13"
  by (auto simp: header_to_str_def list_all_iff split: if_splits)

lemma trailer_line_chars:
  assumes "entry_ok t kv" and "c \<in> set (trailer_line kv)"
  shows "(of_char c :: nat) < 128"
  using assms header_to_str_chars by (auto simp: trailer_line_def CRLF_def entry_ok_def)

lemma split_trailer_lines:
  assumes "\<forall>kv \<in> set kvs. entry_ok t kv"
  shows "split_on (CHR 10) (concat (map trailer_line kvs)) =
    map (\<lambda>kv. fst kv @ '': '' @ snd kv @ [CHR 13]) kvs @ [[]]"
  using assms
proof (induction kvs)
  case Nil
  then show ?case by simp
next
  case (Cons kv kvs)
  let ?line = "fst kv @ '': '' @ snd kv @ [CHR 13]"
  have "CHR 10 \<notin> set ?line"
    using Cons.prems header_to_str_chars [of "fst kv"] header_to_str_chars [of "snd kv"]
    by (auto simp: entry_ok_def)
  then have "split_on (CHR 10) (?line @ CHR 10 # concat (map trailer_line kvs)) =
      ?line # split_on (CHR 10) (concat (map trailer_line kvs))"
    by (rule split_on_append_sep)
  with Cons show ?case by (simp add: trailer_line_def [of kv] CRLF_def)
qed

lemma split_once_first: "c \<notin> set k \<Longrightarrow> split_once c (k @ c # v) = Some (k, v)"
  by (simp add: split_once_def takeWhile_append dropWhile_append)

lemma parse_trailer_line_ok:
  assumes "entry_ok t kv"
  shows "parse_trailer_line t (fst kv @ '': '' @ snd kv @ [CHR 13]) = Some kv"
proof -
  have last: "CHR 13 \<notin> set (fst kv @ '': '' @ snd kv)"
    using assms header_to_str_chars by (auto simp: entry_ok_def)
  then have "dropWhile (\<lambda>d. d = CHR 13) (rev (fst kv @ '': '' @ snd kv)) = rev (fst kv @ '': '' @ snd kv)"
    by (intro dropWhile_eq_self_iff [THEN iffD2]) (metis hd_in_set set_rev)
  then have line: "trim_end_matches (CHR 13) (fst kv @ '': '' @ snd kv @ [CHR 13]) = fst kv @ '': '' @ snd kv"
    by (simp add: trim_end_matches_def)
  have "split_once (CHR '':'') (fst kv @ '': '' @ snd kv) = Some (fst kv, CHR '' '' # snd kv)"
    using assms split_once_first [of "CHR '':''" "fst kv" "CHR '' '' # snd kv"] by (simp add: entry_ok_def)
  then show ?thesis
    using assms unfolding parse_trailer_line_def line by (simp add: entry_ok_def str_trim_space)
qed

lemma trailer_lines_all:
  assumes "\<forall>kv \<in> set kvs. entry_ok t kv"
    and "\<forall>n \<le> length kvs. \<not> map_full t (hm_append_all (take n kvs) h)"
  shows "trailer_lines t (map (\<lambda>kv. fst kv @ '': '' @ snd kv @ [CHR 13]) kvs @ [[]]) h = hm_append_all kvs h"
  using assms
proof (induction kvs arbitrary: h)
  case Nil
  then show ?case by (simp add: hm_append_all_def parse_trailer_line_def trim_end_matches_def)
next
  case (Cons kv kvs)
  obtain k v where kv: "kv = (k, v)" by (cases kv)
  have full: "\<not> map_full t h" using Cons.prems(2) [rule_format, of 0] by (simp add: hm_append_all_def)
  have "\<not> map_full t (hm_append_all (take n kvs) (hm_append k v h))" if "n \<le> length kvs" for n
    using Cons.prems(2) [rule_format, of "Suc n"] that by (simp add: kv hm_append_all_def)
  then have "trailer_lines t (map (\<lambda>kv. fst kv @ '': '' @ snd kv @ [CHR 13]) kvs @ [[]]) (hm_append k v h) =
      hm_append_all kvs (hm_append k v h)"
    using Cons.prems(1) by (intro Cons.IH) auto
  then show ?case
    using full parse_trailer_line_ok [of t kv] Cons.prems(1) by (simp add: kv hm_append_all_def)
qed

lemma unat_word_of_nat_u32: "n \<le> u32_MAX \<Longrightarrow> unat (word_of_nat n :: u32) = n"
  by (simp add: unat_of_nat u32_MAX_def)

lemma frame_fields:
  fixes b :: byte and l :: u32 and p :: bytes
  defines "f \<equiv> [b] @ u32_to_be_bytes l @ p"
  shows "u32_from_be_bytes (f ! 1) (f ! 2) (f ! 3) (f ! 4) = l" and "f ! 0 = b" and "drop 5 f = p"
    and "length f = 5 + length p"
  by (simp_all add: f_def u32_to_be_bytes_def u32_be_roundtrip)

lemma trailer_flag_bits:
  "flags_GRPC_WEB_TRAILER AND flags_GRPC_WEB_TRAILER \<noteq> 0" "flags_GRPC_WEB_TRAILER AND flags_COMPRESSED = 0"
  by (simp_all add: flags_defs)

lemma web_payload_survives:
  assumes "hm_wf h" and "\<forall>kv \<in> set (hm_iter h). entry_ok t kv"
    and "\<forall>n \<le> length (hm_iter h). \<not> map_full t (hm_append_all (take n (hm_iter h)) hm_new)"
  shows "parse_grpc_web_trailer_payload t False (as_bytes (concat (map trailer_line (hm_iter h)))) decompression = Some h"
proof -
  let ?p = "concat (map trailer_line (hm_iter h))"
  have "utf8_valid (as_bytes ?p)"
    using assms(2) trailer_line_chars by (intro as_bytes_ascii) auto
  then have utf8: "str_from_utf8 (as_bytes ?p) = Some ?p" by (simp add: str_from_utf8_def)
  have "trailer_lines t (split_on (CHR 10) ?p) hm_new = h"
    using trailer_lines_all [OF assms(2,3)] rebuild_from_iter [OF assms(1), of hm_new]
    by (simp add: split_trailer_lines [OF assms(2)] hm_new_def)
  then show ?thesis by (simp add: parse_grpc_web_trailer_payload_def utf8)
qed

lemma web_trailers_survive:
  assumes "hm_wf h" and "\<forall>kv \<in> set (hm_iter h). entry_ok t kv"
    and "length (concat (map trailer_line (hm_iter h))) \<le> MAX_GRPC_WEB_TRAILER_SIZE"
    and "\<forall>n \<le> length (hm_iter h). \<not> map_full t (hm_append_all (take n (hm_iter h)) hm_new)"
  shows "parse_grpc_web_trailer_frame_with_compression t (encode_grpc_web_trailers h) decompression = Some h"
proof -
  let ?p = "concat (map trailer_line (hm_iter h))"
  let ?l = "word_of_nat (length ?p) :: u32"
  let ?f = "[flags_GRPC_WEB_TRAILER] @ u32_to_be_bytes ?l @ as_bytes ?p"
  have enc: "encode_grpc_web_trailers h = ?f" by (simp add: encode_grpc_web_trailers_def)
  have l: "unat ?l = length ?p"
    using assms(3) by (intro unat_word_of_nat_u32) (simp add: u32_MAX_def MAX_GRPC_WEB_TRAILER_SIZE_def)
  note f = frame_fields [of flags_GRPC_WEB_TRAILER ?l "as_bytes ?p"]
  note payload = web_payload_survives [OF assms(1,2,4)]
  have bound: "\<not> (length ?p > MAX_GRPC_WEB_TRAILER_SIZE \<or> length ?f < saturating_add (length ?p) 5)"
    using assms(3) unfolding f(4) by (simp add: saturating_add_def)
  show ?thesis
    unfolding enc parse_grpc_web_trailer_frame_with_compression_def f l Let_def
    using payload bound trailer_flag_bits unfolding f(4) by simp
qed

section \<open>The metadata of the end of a Connect stream\<close>

text \<open>An entry that survives the JSON metadata: its value is text, and both parts parse back.\<close>

definition metadata_entry_ok :: "text_ops \<Rightarrow> string \<times> string \<Rightarrow> bool" where
  "metadata_entry_ok t kv \<longleftrightarrow> header_to_str (snd kv) = Some (snd kv) \<and>
     name_from_bytes t (as_bytes (fst kv)) = Some (fst kv) \<and> value_from_str t (snd kv) = Some (snd kv)"

lemma headers_to_metadata_same:
  assumes "hm_wf h" and "\<forall>kv \<in> set (hm_iter h). metadata_entry_ok t kv"
  shows "headers_to_metadata h = h"
proof -
  have "fold (\<lambda>(key, value) m. let v = (case header_to_str value of Some s \<Rightarrow> s | None \<Rightarrow> [])
        in AList.update key ((case map_of m key of Some vs \<Rightarrow> vs | None \<Rightarrow> []) @ [v]) m) kvs m = hm_append_all kvs m"
    if "\<forall>kv \<in> set kvs. metadata_entry_ok t kv" for kvs m
    using that
  proof (induction kvs arbitrary: m)
    case (Cons kv kvs)
    then show ?case
      by (cases kv; cases "map_of m (fst kv)") (simp_all add: hm_append_all_def metadata_entry_ok_def hm_append_def hm_values_def)
  qed (simp add: hm_append_all_def)
  then show ?thesis
    using assms rebuild_from_iter [OF assms(1), of "[]"] by (simp add: headers_to_metadata_def)
qed

lemma append_pairs_all:
  assumes "\<forall>kv \<in> set kvs. metadata_entry_ok t kv"
    and "\<forall>n \<le> length kvs. \<not> map_full t (hm_append_all (take n kvs) h)"
  shows "append_pairs_capped t kvs h = hm_append_all kvs h"
  using assms
proof (induction kvs arbitrary: h)
  case (Cons kv kvs)
  obtain k v where kv: "kv = (k, v)" by (cases kv)
  have full: "\<not> map_full t h" using Cons.prems(2) [rule_format, of 0] by (simp add: hm_append_all_def)
  have "\<not> map_full t (hm_append_all (take n kvs) (hm_append k v h))" if "n \<le> length kvs" for n
    using Cons.prems(2) [rule_format, of "Suc n"] that by (simp add: kv hm_append_all_def)
  then have "append_pairs_capped t kvs (hm_append k v h) = hm_append_all kvs (hm_append k v h)"
    using Cons.prems(1) by (intro Cons.IH) auto
  then show ?case using full Cons.prems(1) by (simp add: kv metadata_entry_ok_def hm_append_all_def)
qed (simp add: hm_append_all_def)

lemma metadata_survives:
  assumes "hm_wf h" and "\<forall>kv \<in> set (hm_iter h). metadata_entry_ok t kv"
    and "\<forall>n \<le> length (hm_iter h). \<not> map_full t (hm_append_all (take n (hm_iter h)) hm_new)"
  shows "append_metadata_capped t hm_new (headers_to_metadata h) = h"
  using append_pairs_all [OF assms(2,3)] rebuild_from_iter [OF assms(1), of hm_new]
  by (simp add: append_metadata_capped_def headers_to_metadata_same [OF assms(1,2)] hm_iter_def [symmetric] hm_new_def)

text \<open>
  C19. A trailer block crosses gRPC-Web intact: the client parses the frame the server encodes
  for a header map back to exactly that map, entry order included, when its entries are plain
  visible ASCII without surrounding space, the block fits the client's 1 MiB bound and the
  header map has room for it.
\<close>

theorem grpc_web_trailers_roundtrip:
  assumes "hm_wf h" and "\<forall>kv \<in> set (hm_iter h). entry_ok t kv"
    and "length (concat (map trailer_line (hm_iter h))) \<le> MAX_GRPC_WEB_TRAILER_SIZE"
    and "\<forall>n \<le> length (hm_iter h). \<not> map_full t (hm_append_all (take n (hm_iter h)) hm_new)"
  shows "parse_grpc_web_trailer_frame_with_compression t (encode_grpc_web_trailers h) decompression = Some h"
  using assms by (rule web_trailers_survive)

text \<open>Library functions for the concrete instances.\<close>

definition sample_text :: text_ops where
  "sample_text = \<lparr>percent_encode = (\<lambda>s. s), percent_decode_lossy = (\<lambda>s. s),
     name_from_bytes = (\<lambda>b. Some (from_bytes b)), value_from_str = header_to_str,
     map_full = (\<lambda>h. 32768 \<le> length h), debug_value = (\<lambda>s. s)\<rparr>"

theorem grpc_web_trailers_roundtrip_witness:
  "\<exists>h. h = [(''grpc-status'', [''0'']), (''x-id'', [''7'', ''8''])] \<and> hm_wf h \<and>
     parse_grpc_web_trailer_frame_with_compression sample_text (encode_grpc_web_trailers h) None = Some h"
proof -
  let ?h = "[(''grpc-status'', [''0'']), (''x-id'', [''7'', ''8''])]"
  have it: "hm_iter ?h = [(''grpc-status'', ''0''), (''x-id'', ''7''), (''x-id'', ''8'')]"
    by (simp add: hm_iter_def)
  have trims: "str_trim ''grpc-status'' = ''grpc-status''" "str_trim ''x-id'' = ''x-id''"
    "str_trim ''0'' = ''0''" "str_trim ''7'' = ''7''" "str_trim ''8'' = ''8''"
    by (rule str_trim_visible; simp add: visible_char_def)+
  have wf: "hm_wf ?h" by (simp add: hm_wf_def)
  have ok: "\<forall>kv \<in> set (hm_iter ?h). entry_ok sample_text kv"
    by (simp add: it entry_ok_def trims sample_text_def header_to_str_def)
  have len: "length (concat (map trailer_line (hm_iter ?h))) \<le> MAX_GRPC_WEB_TRAILER_SIZE"
    by (simp add: it trailer_line_def CRLF_def MAX_GRPC_WEB_TRAILER_SIZE_def)
  have full: "\<not> map_full sample_text (hm_append_all (take n (hm_iter ?h)) hm_new)" for n
    using length_hm_append_all [of "take n (hm_iter ?h)" hm_new] by (simp add: it sample_text_def hm_new_def)
  from grpc_web_trailers_roundtrip [OF wf ok len, of None] full wf show ?thesis by blast
qed

section \<open>The gRPC status\<close>

definition text_laws :: "text_ops \<Rightarrow> wire_ops \<Rightarrow> bool" where
  "text_laws t w \<longleftrightarrow>
     (\<forall>v. header_to_str v = Some v \<longrightarrow> value_from_str t v = Some v) \<and>
     (\<forall>m. header_to_str (percent_encode t m) = Some (percent_encode t m)) \<and>
     (\<forall>m. utf8_valid (as_bytes m) \<longrightarrow> percent_decode_lossy t (percent_encode t m) = m) \<and>
     (\<forall>b. header_to_str (b64_encode_no_pad w b) = Some (b64_encode_no_pad w b)) \<and>
     (\<forall>b. b64_decode_padded w (b64_encode_no_pad w b) \<in> {None, Some b})"

lemma header_to_str_show_nat: "header_to_str (show_nat n) = Some (show_nat n)"
  using show_nat_digits [of _ n] by (force simp: header_to_str_def list_all_iff is_ascii_digit_def)

lemma parse_u32_show: "n \<le> u32_MAX \<Longrightarrow> parse_u32 (show_nat n) = Some (word_of_nat n)"
  by (simp add: parse_u32_def parse_u64_show u32_MAX_def u64_MAX_def)

lemma status_names_distinct:
  "GRPC_MESSAGE \<noteq> GRPC_STATUS" "GRPC_STATUS_DETAILS_BIN \<noteq> GRPC_STATUS" "GRPC_STATUS_DETAILS_BIN \<noteq> GRPC_MESSAGE"
  "GRPC_STATUS \<noteq> GRPC_MESSAGE" "GRPC_STATUS \<noteq> GRPC_STATUS_DETAILS_BIN" "GRPC_MESSAGE \<noteq> GRPC_STATUS_DETAILS_BIN"
  by (simp_all add: grpc_header_defs)

lemma status_trailers_eq:
  assumes "text_laws t w" and "err_message err = Some m"
  shows "status_trailers t w err =
    hm_insert GRPC_STATUS_DETAILS_BIN (b64_encode_no_pad w (status_encode w err))
      (hm_insert GRPC_MESSAGE (percent_encode t m)
        (hm_insert GRPC_STATUS (show_nat (unat (grpc_code (err_code err)))) hm_new))"
  using assms by (simp add: status_trailers_def text_laws_def grpc_percent_encode_def)

lemma build_grpc_trailers_eq:
  "build_grpc_trailers t w (Some err) custom =
     hm_append_all (hm_iter (if hm_is_empty (err_trailers err) then custom else err_trailers err))
       (status_trailers t w err)"
  by (simp add: build_grpc_trailers_def hm_is_empty_def hm_iter_def hm_append_all_def Let_def)

lemma err_trailers_set [simp]: "err_trailers (set_trailers h e) = h"
  by (simp add: err_trailers_def set_trailers_def box_headers_def hm_is_empty_def hm_new_def)

lemma error_metadata_values:
  assumes "hm_wf h"
  shows "hm_values (error_metadata_from_trailers h) k = (if is_status_trailer k then [] else hm_values h k)"
proof -
  have "filter (\<lambda>p. fst p = k) (filter (\<lambda>(key, value). \<not> is_status_trailer key) kvs) =
      (if is_status_trailer k then [] else filter (\<lambda>p. fst p = k) kvs)" for kvs :: "(string \<times> string) list"
    by (induction kvs) auto
  then show ?thesis
    using hm_values_iter [of h k] assms
    by (simp add: error_metadata_from_trailers_def hm_values_append_all hm_wf_def)
qed

lemma grpc_success_parsed: "parse_grpc_error_from_trailers t w (build_grpc_trailers t w None custom) = None"
proof -
  have "hm_get (build_grpc_trailers t w None custom) GRPC_STATUS = Some ''0''"
    by (simp add: build_grpc_trailers_def hm_get_append_all)
  moreover have "Option.bind (header_to_str ''0'') parse_u32 = Some 0"
    by (simp add: header_to_str_def parse_u32_def parse_u64_def is_ascii_digit_def digit_value_def u64_MAX_def u32_MAX_def)
  ultimately show ?thesis by (simp add: parse_grpc_error_from_trailers_def)
qed

lemma built_error_metadata:
  assumes "text_laws t w" and "err_message err = Some m" and "hm_wf (err_trailers err)" and "hm_wf custom"
  shows "hm_values (error_metadata_from_trailers (build_grpc_trailers t w (Some err) custom)) k =
    (if is_status_trailer k then []
     else hm_values (if hm_is_empty (err_trailers err) then custom else err_trailers err) k)"
proof -
  let ?src = "if hm_is_empty (err_trailers err) then custom else err_trailers err"
  note st = status_trailers_eq [OF assms(1,2)]
  have wfs: "hm_wf ?src" using assms(3,4) by simp
  have wfb: "hm_wf (build_grpc_trailers t w (Some err) custom)" unfolding build_grpc_trailers_eq st by (intro inv_intros)
  show ?thesis
    unfolding error_metadata_values [OF wfb] unfolding build_grpc_trailers_eq hm_append_all_iter [OF wfs] st
    by (simp add: is_status_trailer_def)
qed

lemma grpc_error_survives:
  assumes "text_laws t w" and "wire_laws w" and "length (status_encode w err) \<le> u64_MAX"
    and "\<forall>d \<in> set (err_details err). utf8_valid (as_bytes (any_type_url (type_url d)))"
    and "err_message err = Some m" and "utf8_valid (as_bytes m)"
    and "hm_wf (err_trailers err)" and "hm_wf custom"
  shows "parse_grpc_error_from_trailers t w (build_grpc_trailers t w None custom) = None \<and>
    (\<exists>e. parse_grpc_error_from_trailers t w (build_grpc_trailers t w (Some err) custom) = Some e \<and>
      err_code e = err_code err \<and> err_message e = Some m \<and>
      err_details e = map (wire_detail w) (err_details err) \<and>
      (\<forall>k. hm_values (err_trailers e) k =
        (if is_status_trailer k then []
         else hm_values (if hm_is_empty (err_trailers err) then custom else err_trailers err) k)))"
proof -
  let ?b = "build_grpc_trailers t w (Some err) custom"
  let ?code = "grpc_code (err_code err)"
  note st = status_trailers_eq [OF assms(1,5)]
  have get: "hm_get ?b k = hm_get (status_trailers t w err) k" if "hm_get (status_trailers t w err) k \<noteq> None" for k
    using that by (auto simp: build_grpc_trailers_eq hm_get_append_all)
  have g1: "hm_get ?b GRPC_STATUS = Some (show_nat (unat ?code))"
    and g2: "hm_get ?b GRPC_MESSAGE = Some (percent_encode t m)"
    and g3: "hm_get ?b GRPC_STATUS_DETAILS_BIN = Some (b64_encode_no_pad w (status_encode w err))"
    by (subst get; simp add: st status_names_distinct)+
  have "parse_u32 (show_nat (unat ?code)) = Some ?code"
    using parse_u32_show [OF unat_u32_le, of ?code] by simp
  then have status: "Option.bind (header_to_str (show_nat (unat ?code))) parse_u32 = Some ?code"
    by (simp add: header_to_str_show_nat)
  have code: "from_grpc_code ?code = Some (err_code err)" "?code \<noteq> 0"
    by (rule grpc_codes.dec_enc) (cases "err_code err"; simp)
  have msg: "map_option (grpc_percent_decode t) (hm_get_str ?b GRPC_MESSAGE) = Some m"
    using assms(1,6) by (simp add: hm_get_str_def g2 text_laws_def grpc_percent_decode_def)
  have "decode_details w (status_encode w err) = Some (map (wire_detail w) (err_details err))"
    by (rule decode_encoded_status [OF assms(2,3,4)])
  moreover have "(case b64_decode_padded w (b64_encode_no_pad w x) of Some b \<Rightarrow> Some b
      | None \<Rightarrow> b64_decode_no_pad w (b64_encode_no_pad w x)) = Some x" for x
  proof -
    have "b64_decode_padded w (b64_encode_no_pad w x) \<in> {None, Some x}" using assms(1) unfolding text_laws_def by blast
    then show ?thesis using wire_lawsD(5) [OF assms(2), of x] by auto
  qed
  ultimately have det: "status_details w ?b = Some (map (wire_detail w) (err_details err))"
    using assms(1) by (simp add: status_details_def hm_get_str_def g3 text_laws_def)
  note vals = built_error_metadata [OF assms(1,5,7,8)]
  have "parse_grpc_error_from_trailers t w ?b =
      Some (set_trailers (error_metadata_from_trailers ?b)
        ((new_error (err_code err) m)\<lparr>err_details := map (wire_detail w) (err_details err)\<rparr>))"
    by (simp add: parse_grpc_error_from_trailers_def g1 status code msg det Let_def)
  moreover have "err_code (set_trailers h e) = err_code e" "err_message (set_trailers h e) = err_message e"
    "err_details (set_trailers h e) = err_details e" for h e
    by (simp_all add: set_trailers_def)
  ultimately show ?thesis using vals by (simp add: new_error_def grpc_success_parsed)
qed


text \<open>
  Base64 and percent coding for the concrete instance: a hexadecimal alphabet in place of the
  base64 one, and messages that need no escape.
\<close>

definition hex_char :: "nat \<Rightarrow> char" where "hex_char n = char_of (65 + n)"

definition sample_b64 :: "bytes \<Rightarrow> string" where
  "sample_b64 b = concat (map (\<lambda>x. [hex_char (unat x div 16), hex_char (unat x mod 16)]) b)"

fun sample_b64_decode :: "string \<Rightarrow> bytes option" where
  "sample_b64_decode [] = Some []"
| "sample_b64_decode [c] = None"
| "sample_b64_decode (c # d # s) =
     map_option ((#) (word_of_nat ((of_char c - 65) * 16 + (of_char d - 65)))) (sample_b64_decode s)"

definition sample_wire_text :: wire_ops where
  "sample_wire_text = sample_wire\<lparr>b64_encode_no_pad := sample_b64, b64_decode_no_pad := sample_b64_decode\<rparr>"

definition sample_text_escape :: text_ops where
  "sample_text_escape = sample_text\<lparr>percent_encode := (\<lambda>s. sample_b64 (as_bytes s)),
     percent_decode_lossy := (\<lambda>s. case sample_b64_decode s of Some b \<Rightarrow> from_bytes b | None \<Rightarrow> [])\<rparr>"

lemma hex_char_code: "n < 16 \<Longrightarrow> (of_char (hex_char n) :: nat) = 65 + n"
  by (simp add: hex_char_def of_char_of)

lemma sample_b64_inverse: "sample_b64_decode (sample_b64 b) = Some b"
proof (induction b)
  case (Cons x b)
  have "unat x < 256" using unsigned_less [where 'a = nat, of x] by simp
  then have "(of_char (hex_char (unat x div 16)) :: nat) - 65 = unat x div 16"
    "(of_char (hex_char (unat x mod 16)) :: nat) - 65 = unat x mod 16"
    by (subst hex_char_code; simp)+
  with Cons show ?case by (simp add: sample_b64_def)
qed (simp add: sample_b64_def)

lemma sample_b64_visible: "header_to_str (sample_b64 b) = Some (sample_b64 b)"
proof -
  have "32 \<le> (of_char (hex_char (unat x div 16)) :: nat) \<and> (of_char (hex_char (unat x div 16)) :: nat) < 127"
    "32 \<le> (of_char (hex_char (unat x mod 16)) :: nat) \<and> (of_char (hex_char (unat x mod 16)) :: nat) < 127" for x :: byte
    using unsigned_less [where 'a = nat, of x] by (subst hex_char_code; simp)+
  then show ?thesis by (auto simp: header_to_str_def sample_b64_def list_all_iff)
qed

lemma sample_laws: "wire_laws sample_wire_text" "text_laws sample_text_escape sample_wire_text"
proof -
  show "wire_laws sample_wire_text"
    using sample_wire_laws by (simp add: wire_laws_def sample_wire_text_def sample_b64_inverse)
  show "text_laws sample_text_escape sample_wire_text"
    by (simp add: text_laws_def sample_text_escape_def sample_wire_text_def sample_text_def sample_wire_def
        sample_b64_visible sample_b64_inverse)
qed


end
