(* ===== verification/EnvelopeStream.thy ===== *)
theory EnvelopeStream
  imports Envelope
begin

text \<open>
  Envelope streams end to end: the request-stream decoder as an incremental decoder, the bytes
  an encoder puts on the wire independently of how it splits them between its buffer and
  chained segments, the memory an assembler holds, and the round trip of a message stream from
  \<^verbatim>\<open>EnvelopeEncoder\<close> to \<^verbatim>\<open>EnvelopeDecoder\<close> through any cutting into transport frames.
\<close>

section \<open>Memory held by the assembler\<close>

lemma asm_inv_memory:
  assumes "asm_inv M None a"
  shows "asm_body_capacity a \<le> M \<and> asm_body_capacity a \<le> 2 * length (asm_pend a) \<and>
    length (slab_bytes a) \<le> READ_SLAB_SIZE div 2"
  using assms unfolding asm_inv_def
proof
  assume "asm_header_len a < 5 \<and> asm_max_message_size a = M \<and> asm_grpc_web_trailer_limit a = None \<and>
      length (asm_header a) = 5 \<and> idle_buffers a"
  then show ?thesis by (simp add: idle_buffers_def)
next
  assume "payload_inv M None a \<and> 0 < asm_expected a"
  then show ?thesis
    by (auto simp: payload_inv_def header_limit_def asm_pend_def asm_payload_def READ_SLAB_SIZE_def
        split: if_splits)
qed

text \<open>
  C38. A peer cannot make the assembler reserve memory it has not paid for: after any frames,
  the body buffer's capacity is within the message limit and within twice the bytes of the
  unfinished envelope actually received, and the shared slab holds at most half its size.
\<close>

theorem assembler_memory_bounded:
  assumes "snd (feed_frames feed (assembler_new M) frames) = Ok a"
  shows "asm_body_capacity a \<le> M \<and> asm_body_capacity a \<le> 2 * length (asm_pend a) \<and>
    length (slab_bytes a) \<le> READ_SLAB_SIZE div 2 \<and>
    snd (decode_all (spec_decode M None) (concat frames)) = Ok (asm_pend a)"
proof -
  note ref = assembler_feed.feed_frames_refines [OF asm_inv_new, of M frames]
  have "asm_inv M None a" using ref assms by blast
  moreover have "snd (decode_all (spec_decode M None) (concat frames)) = Ok (asm_pend a)"
    using ref assms by simp
  ultimately show ?thesis using asm_inv_memory by blast
qed

theorem assembler_memory_bounded_witness:
  "\<exists>a. snd (feed_frames feed (assembler_new 4194304) [[0, 0, 64], [0, 0, 7, 7]]) = Ok a \<and>
     asm_body_capacity a \<le> 2 * length (asm_pend a) \<and> asm_expected a = 4194304"
proof -
  have "\<exists>a. snd (feed_frames feed (assembler_new 4194304) [[0, 0, 64], [0, 0, 7, 7]]) = Ok a \<and>
      asm_expected a = 4194304"
    by (simp add: feed_def HEADER_SIZE_def assembler_new_def Let_def unat_u32_from_be_bytes
        header_limit_def feed_payload_def READ_SLAB_SIZE_def fill_body_def
        saturating_mul_def usize_MAX_def)
  then obtain a where a: "snd (feed_frames feed (assembler_new 4194304) [[0, 0, 64], [0, 0, 7, 7]]) = Ok a"
    "asm_expected a = 4194304" by blast
  from assembler_memory_bounded [OF a(1)] a show ?thesis by blast
qed

section \<open>The encoder's output\<close>

definition envelope_bytes :: "byte \<Rightarrow> bytes \<Rightarrow> bytes" where
  "envelope_bytes flag data = [flag] @ u32_to_be_bytes (word_of_nat (length data)) @ data"

lemma write_envelope_Ok:
  "write_envelope flag data dst =
     (if length data \<le> u32_MAX then Ok (dst @ envelope_bytes flag data)
      else Err (resource_exhausted (''envelope payload '' @ show_nat (length data) @ '' bytes exceeds u32::MAX'')))"
  by (simp add: write_envelope_def envelope_length_def u32_try_from_def put_envelope_header_def envelope_bytes_def)

lemma fold_append_segments: "fold (\<lambda>segment d. d @ segment) segs d = d @ concat segs"
  by (induction segs arbitrary: d) auto

lemma body_segments_concat: "concat (body_segments b) = into_contiguous b"
  by (cases b) (auto simp: fold_append_segments)

lemma write_chained_bytes:
  "result_map (\<lambda>(dst', chained). dst' @ concat chained) (write_envelope_chained flag body dst [] min_chain) =
   write_envelope flag (into_contiguous body) dst"
proof (cases "envelope_length (length (into_contiguous body))")
  case (Ok len)
  then show ?thesis
    by (cases body) (auto simp: write_envelope_chained_def write_envelope_def body_len_contiguous
        fold_append_segments body_segments_concat Let_def)
next
  case (Err x)
  then show ?thesis by (simp add: write_envelope_chained_def write_envelope_def body_len_contiguous Let_def)
qed

section \<open>The request-stream decoder\<close>

definition message_decode ::
    "string option \<Rightarrow> compression_registry \<Rightarrow> usize \<Rightarrow> bytes \<Rightarrow> ((decoded \<times> bytes) option, connect_error) result" where
  "message_decode enc r M w =
     result_bind (spec_decode M None w) (\<lambda>x. case x of
       None \<Rightarrow> Ok None
     | Some (e, rest) \<Rightarrow> result_bind (classify_envelope enc r M e) (\<lambda>m. Ok (Some (m, rest))))"

lemma message_decode_cases:
  "message_decode enc r M w = Err x \<longleftrightarrow> spec_decode M None w = Err x \<or>
     (\<exists>e rest. spec_decode M None w = Ok (Some (e, rest)) \<and> classify_envelope enc r M e = Err x)"
  "message_decode enc r M w = Ok None \<longleftrightarrow> spec_decode M None w = Ok None"
  "message_decode enc r M w = Ok (Some (m, rest)) \<longleftrightarrow>
     (\<exists>e. spec_decode M None w = Ok (Some (e, rest)) \<and> classify_envelope enc r M e = Ok m)"
  by (auto simp: message_decode_def result_bind_Err_iff result_bind_Ok_iff split: option.splits)

definition decoder_inv :: "string option \<Rightarrow> compression_registry \<Rightarrow> usize \<Rightarrow> envelope_decoder \<Rightarrow> bool" where
  "decoder_inv enc r M d \<longleftrightarrow> asm_inv M None (assembler_of d) \<and> streaming_encoding d = enc \<and> compression_of d = r"

definition decoder_pend :: "envelope_decoder \<Rightarrow> bytes" where
  "decoder_pend d = asm_pend (assembler_of d)"

lemma decoder_inv_new [simp, inv_intros]: "decoder_inv enc r M (decoder_new M enc r)"
  by (simp add: decoder_inv_def decoder_new_def)

lemma decoder_pend_new [simp]: "decoder_pend (decoder_new M enc r) = []"
  by (simp add: decoder_pend_def decoder_new_def)

lemma asm_inv_limit: "asm_inv M T a \<Longrightarrow> asm_max_message_size a = M"
  by (auto simp: asm_inv_def payload_inv_def)

lemma decoder_decode_item:
  assumes "decoder_inv enc r M d" and "spec_decode M None (decoder_pend d @ frame) = Ok (Some (e, rest))"
  shows "\<exists>d'. decoder_decode d frame = (result_bind (classify_envelope enc r M e) (\<lambda>m. Ok (Some m)), d', rest) \<and>
    decoder_inv enc r M d' \<and> decoder_pend d' = [] \<and> length rest < length frame"
proof -
  have inv: "asm_inv M None (assembler_of d)" using assms(1) by (simp add: decoder_inv_def)
  from assembler_feed.feed_item [OF inv, of frame e rest] assms(2)
  obtain a' where a': "feed (assembler_of d) frame = (Ok (Some e), a', rest)" "asm_inv M None a'" "asm_pend a' = []"
    "length rest < length frame" by (auto simp: decoder_pend_def)
  then show ?thesis
    using assms(1) asm_inv_limit [OF a'(2)]
    by (intro exI [of _ "d\<lparr>assembler_of := a'\<rparr>"]) (simp add: decoder_decode_def decoder_inv_def decoder_pend_def)
qed

interpretation message_frames: incremental_decoder "message_decode enc r M" decoder_decode decoder_pend
  "decoder_inv enc r M" for enc r M
proof unfold_locales
  fix w v x
  assume "message_decode enc r M w = Err x"
  then show "message_decode enc r M (w @ v) = Err x"
    unfolding message_decode_cases
    using envelope_frames.dec_err_stable envelope_frames.dec_item_stable by blast
next
  fix w v i rest
  assume "message_decode enc r M w = Ok (Some (i, rest))"
  then show "message_decode enc r M (w @ v) = Ok (Some (i, rest @ v))"
    unfolding message_decode_cases using envelope_frames.dec_item_stable by blast
next
  fix w i rest
  assume "message_decode enc r M w = Ok (Some (i, rest))"
  then show "length rest < length w"
    unfolding message_decode_cases using envelope_frames.dec_item_shrinks by blast
next
  fix s
  assume "decoder_inv enc r M s"
  then show "message_decode enc r M (decoder_pend s) = Ok None"
    by (simp add: message_decode_cases decoder_inv_def decoder_pend_def assembler_feed.inv_partial)
next
  fix s frame x
  assume inv: "decoder_inv enc r M s" and "message_decode enc r M (decoder_pend s @ frame) = Err x"
  then consider "spec_decode M None (decoder_pend s @ frame) = Err x"
    | e rest where "spec_decode M None (decoder_pend s @ frame) = Ok (Some (e, rest))" "classify_envelope enc r M e = Err x"
    unfolding message_decode_cases by blast
  then show "fst (decoder_decode s frame) = Err x"
  proof cases
    case 1
    then have "fst (feed (assembler_of s) frame) = Err x"
      using inv assembler_feed.feed_err [of M None] by (simp add: decoder_inv_def decoder_pend_def)
    then show ?thesis by (cases "feed (assembler_of s) frame") (simp add: decoder_decode_def)
  next
    case 2
    then show ?thesis using decoder_decode_item [OF inv 2(1)] by auto
  qed
next
  fix s frame
  assume inv: "decoder_inv enc r M s" and "message_decode enc r M (decoder_pend s @ frame) = Ok None"
  then have "spec_decode M None (asm_pend (assembler_of s) @ frame) = Ok None" "asm_inv M None (assembler_of s)"
    by (simp_all add: message_decode_cases decoder_inv_def decoder_pend_def)
  from assembler_feed.feed_more [OF this(2,1)] inv
  show "\<exists>s'. decoder_decode s frame = (Ok None, s', []) \<and> decoder_inv enc r M s' \<and>
      decoder_pend s' = decoder_pend s @ frame"
    by (auto simp: decoder_decode_def decoder_inv_def decoder_pend_def)
next
  fix s frame i rest
  assume inv: "decoder_inv enc r M s" and "message_decode enc r M (decoder_pend s @ frame) = Ok (Some (i, rest))"
  then obtain e where "spec_decode M None (decoder_pend s @ frame) = Ok (Some (e, rest))"
    "classify_envelope enc r M e = Ok i" unfolding message_decode_cases by blast
  with decoder_decode_item [OF inv this(1)]
  show "\<exists>s'. decoder_decode s frame = (Ok (Some i), s', rest) \<and> decoder_inv enc r M s' \<and> decoder_pend s' = [] \<and>
      length rest < length frame" by auto
qed

lemma decoder_finish_iff:
  assumes "decoder_inv enc r M d"
  shows "decoder_finish d =
    (if decoder_pend d = [] then Ok () else Err (invalid_argument ''incomplete request envelope''))"
  using assms
  by (auto simp: decoder_inv_def decoder_finish_def has_partial_def decoder_pend_def asm_pend_def asm_inv_def
      payload_inv_def)

section \<open>Streams of messages\<close>

definition envelope_of :: "envelope_encoder \<Rightarrow> bytes \<Rightarrow> (byte \<times> bytes) connect_result" where
  "envelope_of enc m =
     (case enc_compression enc of
        Some (reg, encoding) \<Rightarrow>
          (if should_compress (enc_policy enc) (length m)
           then result_bind (registry_compress reg encoding m) (\<lambda>c. Ok (flags_COMPRESSED, c))
           else Ok (flags_DATA, m))
      | None \<Rightarrow> Ok (flags_DATA, m))"

fun encode_messages :: "envelope_encoder \<Rightarrow> bytes list \<Rightarrow> bytes \<Rightarrow> bytes connect_result" where
  "encode_messages enc [] dst = Ok dst"
| "encode_messages enc (m # ms) dst = result_bind (encoder_encode enc m dst) (encode_messages enc ms)"

lemma chained_small:
  assumes "length data < min_chain"
  shows "write_envelope_chained flag (Contiguous data) dst chained min_chain =
    result_bind (write_envelope flag data dst) (\<lambda>d. Ok (d, chained))"
  using assms by (cases "envelope_length (length data)")
    (simp_all add: write_envelope_chained_def write_envelope_def)

lemma chained_too_long:
  assumes "\<not> length data \<le> u32_MAX"
  shows "write_envelope_chained flag (Contiguous data) dst chained min_chain =
    result_bind (write_envelope flag data dst) (\<lambda>d. Ok (d, chained))"
  using assms by (simp add: write_envelope_chained_def write_envelope_def envelope_length_def u32_try_from_def)

lemma encoder_encode_eq:
  "encoder_encode enc m dst = result_bind (envelope_of enc m) (\<lambda>(flag, data). write_envelope flag data dst)"
proof -
  have w: "result_bind (write_envelope_chained flag (Contiguous data) dst [] usize_MAX) (\<lambda>(d, c). Ok d) =
      write_envelope flag data dst" for flag data
  proof (cases "length data \<le> u32_MAX")
    case True
    then have "length data < usize_MAX" by (simp add: u32_MAX_def usize_MAX_def)
    then show ?thesis by (cases "write_envelope flag data dst") (simp_all add: chained_small)
  next
    case False
    then show ?thesis by (cases "write_envelope flag data dst") (simp_all add: chained_too_long)
  qed
  have assoc: "result_bind (result_bind x f) g = result_bind x (\<lambda>y. result_bind (f y) g)"
    for x :: "bytes connect_result" and f :: "bytes \<Rightarrow> (bytes \<times> bytes list) connect_result"
      and g :: "bytes \<times> bytes list \<Rightarrow> bytes connect_result"
    by (cases x) simp_all
  have assoc2: "result_bind (result_bind x f) g = result_bind x (\<lambda>y. result_bind (f y) g)"
    for x :: "bytes connect_result" and f :: "bytes \<Rightarrow> (byte \<times> bytes) connect_result"
      and g :: "byte \<times> bytes \<Rightarrow> bytes connect_result"
    by (cases x) simp_all
  show ?thesis
    by (auto simp: encoder_encode_def encode_chained_def envelope_of_def w assoc assoc2 split: option.splits)
qed

lemma spec_decode_any_envelope:
  assumes "length data \<le> snd (header_limit M T flag)" and "length data \<le> u32_MAX"
  shows "spec_decode M T (envelope_bytes flag data @ rest) = Ok (Some (\<lparr>env_flags = flag, env_data = data\<rparr>, rest))"
proof -
  let ?w = "envelope_bytes flag data @ rest"
  have w: "?w = flag # u32_to_be_bytes (word_of_nat (length data)) @ data @ rest"
    by (simp add: envelope_bytes_def)
  have l: "unat (word_of_nat (length data) :: u32) = length data"
    using assms(2) by (simp add: unat_of_nat u32_MAX_def)
  have d: "declared_length ?w = length data"
    unfolding w declared_length_def
    by (simp add: u32_to_be_bytes_def u32_be_roundtrip l)
  have five: "?w ! 0 = flag" "drop 5 ?w = data @ rest" and len: "\<not> length ?w < 5" "\<not> length ?w < 5 + length data"
    by (simp_all add: w u32_to_be_bytes_def)
  have "drop (5 + length data) ?w = drop (length data) (drop 5 ?w)" by (simp only: drop_drop add.commute)
  then have "drop (5 + length data) ?w = rest" unfolding five by simp
  note parts = five this
  show ?thesis
    unfolding spec_decode_def d parts using assms(1) len by simp
qed

lemma spec_decode_envelope:
  assumes "length data \<le> M" and "length data \<le> u32_MAX"
  shows "spec_decode M None (envelope_bytes flag data @ rest) = Ok (Some (\<lparr>env_flags = flag, env_data = data\<rparr>, rest))"
  using assms by (intro spec_decode_any_envelope) (simp_all add: header_limit_def)

lemma message_decode_envelope:
  assumes "length data \<le> M" and "length data \<le> u32_MAX"
    and "classify_envelope enc r M \<lparr>env_flags = flag, env_data = data\<rparr> = Ok m"
  shows "decode_all (message_decode enc r M) (envelope_bytes flag data @ rest) =
    (m # fst (decode_all (message_decode enc r M) rest), snd (decode_all (message_decode enc r M) rest))"
  by (rule message_frames.decode_all_item)
    (auto simp: message_decode_cases spec_decode_envelope [OF assms(1,2)] assms(3))

lemma classify_flags:
  "classify_envelope enc r M \<lparr>env_flags = flags_DATA, env_data = d\<rparr> = Ok (Message d)"
  "classify_envelope enc r M \<lparr>env_flags = flags_END_STREAM, env_data = d\<rparr> = Ok EndStream"
  "name \<noteq> ''identity'' \<Longrightarrow> classify_envelope (Some name) r M \<lparr>env_flags = flags_COMPRESSED, env_data = d\<rparr> =
     result_bind (registry_decompress_with_limit r name d M) (\<lambda>x. Ok (Message x))"
  by (simp_all add: classify_envelope_def is_end_stream_def is_compressed_def flags_defs)

text \<open>
  What a stream needs of its compression provider: every compressed message decompresses to
  itself within the limit, and compression does not grow a message past the limit.
\<close>

definition faithful_codec :: "compression_registry \<Rightarrow> string \<Rightarrow> usize \<Rightarrow> bytes list \<Rightarrow> bool" where
  "faithful_codec reg name M ms \<longleftrightarrow>
     (\<forall>m \<in> set ms. \<forall>c. registry_compress reg name m = Ok c \<longrightarrow>
        length c \<le> M \<and> registry_decompress_with_limit reg name c M = Ok m)"

lemma encode_messages_decode:
  fixes reg :: compression_registry
  assumes "enc_compression enc = Some (reg, name)" and "name \<noteq> ''identity''" and "M \<le> u32_MAX"
    and "faithful_codec reg name M ms" and "\<forall>m \<in> set ms. length m \<le> M" and "encode_messages enc ms dst = Ok w"
  shows "\<exists>v. w = dst @ v \<and> (\<forall>rest. decode_all (message_decode (Some name) reg M) (v @ rest) =
    (map Message ms @ fst (decode_all (message_decode (Some name) reg M) rest),
     snd (decode_all (message_decode (Some name) reg M) rest)))"
  using assms(4-)
proof (induction ms arbitrary: dst)
  case Nil
  then show ?case by simp
next
  case (Cons m ms)
  let ?dec = "decode_all (message_decode (Some name) reg M)"
  from Cons.prems(3) obtain d1 where d1: "encoder_encode enc m dst = Ok d1" "encode_messages enc ms d1 = Ok w"
    by (auto simp: result_bind_Ok_iff)
  then obtain flag data where e: "envelope_of enc m = Ok (flag, data)" and len: "length data \<le> u32_MAX"
    and dd: "d1 = dst @ envelope_bytes flag data"
    by (auto simp: encoder_encode_eq result_bind_Ok_iff write_envelope_Ok split: if_splits)
  have "length data \<le> M \<and> classify_envelope (Some name) reg M \<lparr>env_flags = flag, env_data = data\<rparr> = Ok (Message m)"
    using e assms(1,2) Cons.prems(1,2)
    by (auto simp: envelope_of_def result_bind_Ok_iff classify_flags faithful_codec_def split: if_splits)
  note item = message_decode_envelope [OF this [THEN conjunct1] len this [THEN conjunct2]]
  have "faithful_codec reg name M ms" "\<forall>m \<in> set ms. length m \<le> M"
    using Cons.prems by (auto simp: faithful_codec_def)
  from Cons.IH [OF this d1(2)] obtain v where "w = d1 @ v"
    and v: "\<forall>rest. ?dec (v @ rest) = (map Message ms @ fst (?dec rest), snd (?dec rest))" by blast
  then have "w = dst @ (envelope_bytes flag data @ v)" by (simp add: dd)
  moreover have "?dec ((envelope_bytes flag data @ v) @ rest) =
      (map Message (m # ms) @ fst (?dec rest), snd (?dec rest))" for rest
    using item [of "v @ rest"] v by simp
  ultimately show ?case by blast
qed



end
