(* ===== verification/Payload.thy ===== *)
theory Payload
  imports Body Protocol Timeout MethodSpec
begin

text \<open>
  What a handler and an interceptor see of a call: \<^verbatim>\<open>RequestContext\<close> and \<^verbatim>\<open>Response<B>\<close>
  (\<^verbatim>\<open>connectrpc/src/response.rs\<close>) and the lazily decoded \<^verbatim>\<open>Payload\<close>
  (\<^verbatim>\<open>connectrpc/src/payload.rs\<close>). A message is a value of a type \<open>'m\<close> that knows its dynamic
  type \<open>'t\<close>; the codecs of the protobuf and JSON libraries are the functions of a record
  \<open>message_ops\<close>. \<^verbatim>\<open>buffa::DecodeOptions\<close> is represented by the element-memory limit set on it
  (\<open>None\<close> for \<^verbatim>\<open>DecodeOptions::new()\<close>), and \<^verbatim>\<open>http::Extensions\<close> is a type parameter \<open>'x\<close>.
  A method that fills a \<^verbatim>\<open>OnceLock\<close> through \<^verbatim>\<open>&self\<close> returns the updated payload.
\<close>

section \<open>Request context\<close>

type_synonym decode_options = "usize option"

record 'x request_context =
  ctx_headers :: headers
  ctx_deadline :: "instant option"
  ctx_extensions :: 'x
  ctx_spec :: "spec option"
  ctx_protocol :: "protocol option"
  ctx_path :: "string option"
  ctx_decode_options :: decode_options

definition request_context_new :: "'x \<Rightarrow> headers \<Rightarrow> 'x request_context" where
  "request_context_new no_extensions h =
     \<lparr>ctx_headers = h, ctx_deadline = None, ctx_extensions = no_extensions, ctx_spec = None,
      ctx_protocol = None, ctx_path = None, ctx_decode_options = None\<rparr>"

definition ctx_with_decode_options :: "decode_options \<Rightarrow> 'x request_context \<Rightarrow> 'x request_context" where
  "ctx_with_decode_options d c = c\<lparr>ctx_decode_options := d\<rparr>"

definition ctx_with_deadline :: "instant option \<Rightarrow> 'x request_context \<Rightarrow> 'x request_context" where
  "ctx_with_deadline d c = c\<lparr>ctx_deadline := d\<rparr>"

definition ctx_with_extensions :: "'x \<Rightarrow> 'x request_context \<Rightarrow> 'x request_context" where
  "ctx_with_extensions x c = c\<lparr>ctx_extensions := x\<rparr>"

definition ctx_with_spec :: "spec option \<Rightarrow> 'x request_context \<Rightarrow> 'x request_context" where
  "ctx_with_spec s c = c\<lparr>ctx_spec := s\<rparr>"

definition ctx_with_protocol :: "protocol option \<Rightarrow> 'x request_context \<Rightarrow> 'x request_context" where
  "ctx_with_protocol p c = c\<lparr>ctx_protocol := p\<rparr>"

definition ctx_with_path :: "string \<Rightarrow> 'x request_context \<Rightarrow> 'x request_context" where
  "ctx_with_path p c = c\<lparr>ctx_path := Some p\<rparr>"

lemmas ctx_defs = request_context_new_def ctx_with_decode_options_def ctx_with_deadline_def
  ctx_with_extensions_def ctx_with_spec_def ctx_with_protocol_def ctx_with_path_def

section \<open>Responses\<close>

record 'b response =
  resp_body :: 'b
  resp_headers :: headers
  resp_trailers :: headers
  resp_compress :: "bool option"

definition response_new :: "'b \<Rightarrow> 'b response" where
  "response_new b = \<lparr>resp_body = b, resp_headers = hm_new, resp_trailers = hm_new, resp_compress = None\<rparr>"

definition response_ok :: "'b \<Rightarrow> 'b response connect_result" where
  "response_ok b = Ok (response_new b)"

text \<open>
  \<^verbatim>\<open>with_header\<close> and \<^verbatim>\<open>with_trailer\<close> panic (\<open>None\<close>) on a name or value that does not convert; the
  \<^verbatim>\<open>try_\<close> forms return the conversion's error, the name's first.
\<close>

definition resp_with_header :: "string option \<Rightarrow> string option \<Rightarrow> 'b response \<Rightarrow> 'b response option" where
  "resp_with_header name value r =
     Option.bind name (\<lambda>n. Option.bind value (\<lambda>v.
       Some (r\<lparr>resp_headers := hm_append n v (resp_headers r)\<rparr>)))"

definition resp_try_with_header ::
    "(string, 'e) result \<Rightarrow> (string, 'e) result \<Rightarrow> 'b response \<Rightarrow> ('b response, 'e) result" where
  "resp_try_with_header name value r =
     result_bind name (\<lambda>n. result_bind value (\<lambda>v.
       Ok (r\<lparr>resp_headers := hm_append n v (resp_headers r)\<rparr>)))"

definition resp_with_trailer :: "string option \<Rightarrow> string option \<Rightarrow> 'b response \<Rightarrow> 'b response option" where
  "resp_with_trailer name value r =
     Option.bind name (\<lambda>n. Option.bind value (\<lambda>v.
       Some (r\<lparr>resp_trailers := hm_append n v (resp_trailers r)\<rparr>)))"

definition resp_try_with_trailer ::
    "(string, 'e) result \<Rightarrow> (string, 'e) result \<Rightarrow> 'b response \<Rightarrow> ('b response, 'e) result" where
  "resp_try_with_trailer name value r =
     result_bind name (\<lambda>n. result_bind value (\<lambda>v.
       Ok (r\<lparr>resp_trailers := hm_append n v (resp_trailers r)\<rparr>)))"

definition set_compress :: "bool option \<Rightarrow> 'b response \<Rightarrow> 'b response" where
  "set_compress enabled r = r\<lparr>resp_compress := enabled\<rparr>"

definition map_body :: "('b \<Rightarrow> 'c) \<Rightarrow> 'b response \<Rightarrow> 'c response" where
  "map_body f r = \<lparr>resp_body = f (resp_body r), resp_headers = resp_headers r,
     resp_trailers = resp_trailers r, resp_compress = resp_compress r\<rparr>"

type_synonym encoded_response = "encoded_body response"

section \<open>Payloads\<close>

record ('m, 't) message_ops =
  msg_encode :: "'m \<Rightarrow> codec_format \<Rightarrow> bytes connect_result"
  msg_decode_proto :: "'t \<Rightarrow> decode_options \<Rightarrow> bytes \<Rightarrow> 'm connect_result"
  msg_decode_json :: "'t \<Rightarrow> bytes \<Rightarrow> 'm connect_result"
  msg_type :: "'m \<Rightarrow> 't"
  type_name :: "'t \<Rightarrow> string"

record 'm replacement =
  rep_message :: 'm
  rep_encoded :: "bytes option"

record 'm payload =
  pl_bytes :: bytes
  pl_format :: codec_format
  pl_decoded :: "'m option"
  pl_replaced :: "'m replacement option"
  pl_decode_options :: decode_options

definition replacement_new :: "'m \<Rightarrow> 'm replacement" where
  "replacement_new m = \<lparr>rep_message = m, rep_encoded = None\<rparr>"

definition payload_new :: "bytes \<Rightarrow> codec_format \<Rightarrow> 'm payload" where
  "payload_new b f = \<lparr>pl_bytes = b, pl_format = f, pl_decoded = None, pl_replaced = None, pl_decode_options = None\<rparr>"

definition payload_from_message :: "'m \<Rightarrow> codec_format \<Rightarrow> 'm payload" where
  "payload_from_message m f = (payload_new [] f)\<lparr>pl_replaced := Some (replacement_new m)\<rparr>"

definition pl_with_decode_options :: "decode_options \<Rightarrow> 'm payload \<Rightarrow> 'm payload" where
  "pl_with_decode_options d p = p\<lparr>pl_decode_options := d\<rparr>"

definition payload_encoded :: "('m, 't) message_ops \<Rightarrow> 'm payload \<Rightarrow> bytes connect_result \<times> 'm payload" where
  "payload_encoded q p =
     (case pl_replaced p of
        None \<Rightarrow> (Ok (pl_bytes p), p)
      | Some r \<Rightarrow>
          (case rep_encoded r of
             Some cached \<Rightarrow> (Ok cached, p)
           | None \<Rightarrow>
               (case msg_encode q (rep_message r) (pl_format p) of
                  Err e \<Rightarrow> (Err e, p)
                | Ok b \<Rightarrow> (Ok b, p\<lparr>pl_replaced := Some (r\<lparr>rep_encoded := Some b\<rparr>)\<rparr>))))"

fun codec_debug :: "codec_format \<Rightarrow> string" where
  "codec_debug Proto = ''Proto''"
| "codec_debug Json = ''Json''"

definition payload_encoded_as ::
    "('m, 't) message_ops \<Rightarrow> codec_format \<Rightarrow> 'm payload \<Rightarrow> bytes connect_result \<times> 'm payload" where
  "payload_encoded_as q format p =
     (if format = pl_format p then payload_encoded q p
      else (case pl_replaced p of
              Some r \<Rightarrow> (msg_encode q (rep_message r) format, p)
            | None \<Rightarrow> (Err (internal (''payload carries '' @ codec_debug (pl_format p) @
                 '' wire bytes but the call negotiated '' @ codec_debug format)), p)))"

definition payload_try_clone ::
    "('m, 't) message_ops \<Rightarrow> 'm payload \<Rightarrow> 'm payload connect_result \<times> 'm payload" where
  "payload_try_clone q p =
     (case payload_encoded q p of
        (Err e, p') \<Rightarrow> (Err e, p')
      | (Ok b, p') \<Rightarrow>
          (let copy = payload_new b (pl_format p')
           in (Ok (if pl_replaced p' \<noteq> None then copy
                   else pl_with_decode_options (pl_decode_options p') copy), p')))"

definition wrong_replacement :: "('m, 't) message_ops \<Rightarrow> 'm \<Rightarrow> 't \<Rightarrow> connect_error" where
  "wrong_replacement q m t = internal (''payload replacement is a '' @ type_name q (msg_type q m) @
     '', not a '' @ type_name q t)"

definition wrong_decoded :: "('m, 't) message_ops \<Rightarrow> 'm \<Rightarrow> 't \<Rightarrow> connect_error" where
  "wrong_decoded q m t = internal (''payload was previously decoded as a '' @ type_name q (msg_type q m) @
     '', not a '' @ type_name q t)"

definition decode_wire :: "('m, 't) message_ops \<Rightarrow> 't \<Rightarrow> 'm payload \<Rightarrow> 'm connect_result" where
  "decode_wire q t p =
     (case pl_format p of
        Proto \<Rightarrow> msg_decode_proto q t (pl_decode_options p) (pl_bytes p)
      | Json \<Rightarrow> msg_decode_json q t (pl_bytes p))"

definition payload_message ::
    "('m, 't) message_ops \<Rightarrow> 't \<Rightarrow> 'm payload \<Rightarrow> 'm connect_result \<times> 'm payload" where
  "payload_message q t p =
     (case pl_replaced p of
        Some r \<Rightarrow>
          ((if msg_type q (rep_message r) = t then Ok (rep_message r)
            else Err (wrong_replacement q (rep_message r) t)), p)
      | None \<Rightarrow>
          (case pl_decoded p of
             Some cached \<Rightarrow> ((if msg_type q cached = t then Ok cached else Err (wrong_decoded q cached t)), p)
           | None \<Rightarrow>
               (case decode_wire q t p of
                  Err e \<Rightarrow> (Err e, p)
                | Ok m \<Rightarrow>
                    ((if msg_type q m = t then Ok m else Err (wrong_decoded q m t)),
                     p\<lparr>pl_decoded := Some m\<rparr>))))"

definition payload_take_message :: "('m, 't) message_ops \<Rightarrow> 't \<Rightarrow> 'm payload \<Rightarrow> 'm connect_result" where
  "payload_take_message q t p =
     (case pl_replaced p of
        Some r \<Rightarrow> (if msg_type q (rep_message r) = t then Ok (rep_message r)
                   else Err (wrong_replacement q (rep_message r) t))
      | None \<Rightarrow>
          (case pl_decoded p of
             Some cached \<Rightarrow> (if msg_type q cached = t then Ok cached else Err (wrong_decoded q cached t))
           | None \<Rightarrow> decode_wire q t p))"

definition payload_set_message :: "'m \<Rightarrow> 'm payload \<Rightarrow> 'm payload" where
  "payload_set_message m p = p\<lparr>pl_replaced := Some (replacement_new m), pl_decoded := None\<rparr>"

section \<open>Caching is transparent\<close>

text \<open>
  A decoder of type \<open>t\<close> returns a message of type \<open>t\<close>: the typing of \<^verbatim>\<open>decode_proto::<M>\<close> and
  \<^verbatim>\<open>decode_json::<M>\<close>.
\<close>

definition message_laws :: "('m, 't) message_ops \<Rightarrow> bool" where
  "message_laws q \<longleftrightarrow>
     (\<forall>t d b m. msg_decode_proto q t d b = Ok m \<longrightarrow> msg_type q m = t) \<and>
     (\<forall>t b m. msg_decode_json q t b = Ok m \<longrightarrow> msg_type q m = t)"

text \<open>The caches hold what recomputing them would give.\<close>

definition payload_wf :: "('m, 't) message_ops \<Rightarrow> 'm payload \<Rightarrow> bool" where
  "payload_wf q p \<longleftrightarrow>
     (\<forall>m. pl_decoded p = Some m \<longrightarrow> decode_wire q (msg_type q m) p = Ok m) \<and>
     (\<forall>r b. pl_replaced p = Some r \<longrightarrow> rep_encoded r = Some b \<longrightarrow> msg_encode q (rep_message r) (pl_format p) = Ok b)"

text \<open>What a payload means on the wire and to a reader of type \<open>t\<close>, without the caches.\<close>

definition wire_meaning :: "('m, 't) message_ops \<Rightarrow> 'm payload \<Rightarrow> bytes connect_result" where
  "wire_meaning q p =
     (case pl_replaced p of None \<Rightarrow> Ok (pl_bytes p) | Some r \<Rightarrow> msg_encode q (rep_message r) (pl_format p))"

definition message_meaning :: "('m, 't) message_ops \<Rightarrow> 't \<Rightarrow> 'm payload \<Rightarrow> 'm connect_result" where
  "message_meaning q t p =
     (case pl_replaced p of
        Some r \<Rightarrow> (if msg_type q (rep_message r) = t then Ok (rep_message r)
                   else Err (wrong_replacement q (rep_message r) t))
      | None \<Rightarrow> decode_wire q t p)"

lemma decode_wire_decoded [simp]: "decode_wire q t (p\<lparr>pl_decoded := x\<rparr>) = decode_wire q t p"
  by (simp add: decode_wire_def cong: codec_format.case_cong)

lemma decode_wire_replaced [simp]: "decode_wire q t (p\<lparr>pl_replaced := x\<rparr>) = decode_wire q t p"
  by (simp add: decode_wire_def cong: codec_format.case_cong)

lemma decode_wire_type: "message_laws q \<Longrightarrow> decode_wire q t p = Ok m \<Longrightarrow> msg_type q m = t"
  by (auto simp: decode_wire_def message_laws_def split: codec_format.splits)

lemma payload_wf_new [simp, inv_intros]: "payload_wf q (payload_new b f)"
  by (simp add: payload_wf_def payload_new_def)

lemma payload_wf_from_message [simp, inv_intros]: "payload_wf q (payload_from_message m f)"
  by (simp add: payload_wf_def payload_new_def payload_from_message_def replacement_new_def)

lemma payload_wf_set_message [simp, inv_intros]: "payload_wf q (payload_set_message m p)"
  by (simp add: payload_wf_def payload_set_message_def replacement_new_def)

lemma payload_wf_message [inv_intros]:
  "message_laws q \<Longrightarrow> payload_wf q p \<Longrightarrow> payload_wf q (snd (payload_message q t p))"
  by (auto simp: payload_wf_def payload_message_def decode_wire_type split: option.splits result.splits)

lemma payload_wf_encoded [inv_intros]: "payload_wf q p \<Longrightarrow> payload_wf q (snd (payload_encoded q p))"
  by (auto simp: payload_wf_def payload_encoded_def split: option.splits result.splits)

lemma payload_encoded_meaning: "payload_wf q p \<Longrightarrow> fst (payload_encoded q p) = wire_meaning q p"
  by (auto simp: payload_wf_def payload_encoded_def wire_meaning_def split: option.splits result.splits)

lemma payload_message_meaning:
  assumes "message_laws q" and "payload_wf q p" and "\<forall>m. pl_decoded p = Some m \<longrightarrow> msg_type q m = t"
  shows "fst (payload_message q t p) = message_meaning q t p"
    and "payload_take_message q t p = message_meaning q t p"
  using assms decode_wire_type [OF assms(1)]
  by (auto simp: payload_message_def payload_take_message_def message_meaning_def payload_wf_def
      split: option.splits result.splits)

text \<open>
  An access an interceptor or a handler makes to a payload of type \<open>t\<close>, and what it leaves.
\<close>

datatype 'm access = ReadMessage | ReadWire | SetMessage 'm

fun run_access :: "('m, 't) message_ops \<Rightarrow> 't \<Rightarrow> 'm access \<Rightarrow> 'm payload \<Rightarrow> 'm payload" where
  "run_access q t ReadMessage p = snd (payload_message q t p)"
| "run_access q t ReadWire p = snd (payload_encoded q p)"
| "run_access q t (SetMessage m) p = payload_set_message m p"

fun last_set :: "'m access list \<Rightarrow> 'm option \<Rightarrow> 'm option" where
  "last_set [] acc = acc"
| "last_set (SetMessage m # as) acc = last_set as (Some m)"
| "last_set (_ # as) acc = last_set as acc"

definition typed_decode :: "('m, 't) message_ops \<Rightarrow> 't \<Rightarrow> 'm payload \<Rightarrow> bool" where
  "typed_decode q t p \<longleftrightarrow> (\<forall>m. pl_decoded p = Some m \<longrightarrow> msg_type q m = t)"

lemma run_access_wf:
  assumes "message_laws q" and "payload_wf q p \<and> typed_decode q t p"
  shows "payload_wf q (run_access q t a p) \<and> typed_decode q t (run_access q t a p)"
proof (cases a)
  case ReadMessage
  then show ?thesis
    using assms payload_wf_message [OF assms(1)] decode_wire_type [OF assms(1)]
    by (auto simp: typed_decode_def payload_message_def split: option.splits result.splits)
next
  case ReadWire
  then show ?thesis
    using assms payload_wf_encoded [of q p]
    by (auto simp: typed_decode_def payload_encoded_def split: option.splits result.splits)
next
  case (SetMessage m)
  then show ?thesis by (simp add: typed_decode_def) (simp add: payload_set_message_def)
qed

lemma run_accesses:
  assumes "message_laws q" and "payload_wf q p \<and> typed_decode q t p"
  shows "payload_wf q (fold (run_access q t) as p) \<and> typed_decode q t (fold (run_access q t) as p)"
  using assms(2)
proof (induction as arbitrary: p)
  case (Cons a as)
  then show ?case using run_access_wf [OF assms(1), of p t a] by simp
qed simp

lemma run_accesses_meaning:
  "pl_format (fold (run_access q t) as p) = pl_format p \<and>
   pl_bytes (fold (run_access q t) as p) = pl_bytes p \<and>
   pl_decode_options (fold (run_access q t) as p) = pl_decode_options p \<and>
   map_option rep_message (pl_replaced (fold (run_access q t) as p)) =
     last_set as (map_option rep_message (pl_replaced p))"
proof (induction as arbitrary: p)
  case (Cons a as)
  have "pl_format (run_access q t a p) = pl_format p \<and> pl_bytes (run_access q t a p) = pl_bytes p \<and>
      pl_decode_options (run_access q t a p) = pl_decode_options p \<and>
      last_set as (map_option rep_message (pl_replaced (run_access q t a p))) =
      last_set (a # as) (map_option rep_message (pl_replaced p))"
    by (cases a) (auto simp: payload_message_def payload_encoded_def payload_set_message_def
        replacement_new_def split: option.splits result.splits)
  then show ?case using Cons.IH [of "run_access q t a p"] by simp
qed simp


text \<open>A concrete message type for the witness: a tagged byte string, encoded as itself.\<close>

definition sample_messages :: "(bool \<times> bytes, bool) message_ops" where
  "sample_messages =
     \<lparr>msg_encode = (\<lambda>m f. Ok (snd m)), msg_decode_proto = (\<lambda>t d b. Ok (t, b)),
      msg_decode_json = (\<lambda>t b. if b = [] then Err (invalid_argument ''empty'') else Ok (t, b)),
      msg_type = fst, type_name = (\<lambda>t. if t then ''A'' else ''B'')\<rparr>"

lemma sample_messages_laws: "message_laws sample_messages"
  by (auto simp: message_laws_def sample_messages_def split: if_splits)


end
