(* ===== verification/Interceptor.thy ===== *)
theory Interceptor
  imports Payload Router
begin

text \<open>
  The interceptor chain (\<^verbatim>\<open>connectrpc/src/interceptor.rs\<close>) and the head checks the service runs
  before it reads a body (\<^verbatim>\<open>intercept_heads\<close> of \<^verbatim>\<open>connectrpc/src/service.rs\<close>). An interceptor is
  a record of its three methods, each a function of the request and of the rest of the chain; an
  \<^verbatim>\<open>async\<close> call is its result. A stream handed through the chain is the list of its items.
\<close>

section \<open>Interceptors\<close>

record 'x request_head =
  head_path :: string
  head_spec :: "spec option"
  head_headers :: headers
  head_protocol :: protocol
  head_extensions :: 'x

record ('x, 'm) unary_request =
  ureq_ctx :: "'x request_context"
  ureq_payload :: "'m payload"

type_synonym 'm payload_stream = "'m payload connect_result list"
type_synonym request_stream = "bytes connect_result list"
type_synonym encoded_stream = "encoded_body connect_result list"
type_synonym 'm unary_response = "'m payload response"
type_synonym 'm stream_response = "'m payload_stream response"

record 'x stream_request =
  sreq_ctx :: "'x request_context"

type_synonym ('x, 'm) unary_terminal = "('x, 'm) unary_request \<Rightarrow> 'm unary_response connect_result"
type_synonym ('x, 'm) stream_terminal =
  "'x stream_request \<Rightarrow> 'm payload_stream \<Rightarrow> 'm stream_response connect_result"

text \<open>
  \<^verbatim>\<open>intercept_head\<close> may change the extensions of the head it is lent, and nothing else.
\<close>

record ('x, 'm) interceptor =
  intercept_head :: "'x request_head \<Rightarrow> unit connect_result \<times> 'x"
  intercept_unary :: "('x, 'm) unary_request \<Rightarrow> ('x, 'm) unary_terminal \<Rightarrow> 'm unary_response connect_result"
  intercept_streaming ::
    "'x stream_request \<Rightarrow> 'm payload_stream \<Rightarrow> ('x, 'm) stream_terminal \<Rightarrow> 'm stream_response connect_result"

text \<open>The trait's default methods.\<close>

definition default_interceptor :: "('x, 'm) interceptor" where
  "default_interceptor =
     \<lparr>intercept_head = (\<lambda>head. (Ok (), head_extensions head)),
      intercept_unary = (\<lambda>req next. next req),
      intercept_streaming = (\<lambda>req inbound next. next req inbound)\<rparr>"

definition unary_interceptor ::
    "(('x, 'm) unary_request \<Rightarrow> ('x, 'm) unary_terminal \<Rightarrow> 'm unary_response connect_result) \<Rightarrow> ('x, 'm) interceptor" where
  "unary_interceptor f = default_interceptor\<lparr>intercept_unary := f\<rparr>"

definition streaming_interceptor ::
    "('x stream_request \<Rightarrow> 'm payload_stream \<Rightarrow> ('x, 'm) stream_terminal \<Rightarrow> 'm stream_response connect_result) \<Rightarrow>
     ('x, 'm) interceptor" where
  "streaming_interceptor f = default_interceptor\<lparr>intercept_streaming := f\<rparr>"

type_synonym ('x, 'm) interceptor_chain = "('x, 'm) interceptor list"

definition chain_push :: "('x, 'm) interceptor \<Rightarrow> ('x, 'm) interceptor_chain \<Rightarrow> ('x, 'm) interceptor_chain" where
  "chain_push i c = c @ [i]"

section \<open>Request heads\<close>

definition request_head_new :: "string \<Rightarrow> headers \<Rightarrow> 'x \<Rightarrow> 'x request_head" where
  "request_head_new path h x =
     \<lparr>head_path = path, head_spec = None, head_headers = h, head_protocol = Connect, head_extensions = x\<rparr>"

definition head_with_spec :: "spec option \<Rightarrow> 'x request_head \<Rightarrow> 'x request_head" where
  "head_with_spec s h = h\<lparr>head_spec := s\<rparr>"

definition head_with_protocol :: "protocol \<Rightarrow> 'x request_head \<Rightarrow> 'x request_head" where
  "head_with_protocol p h = h\<lparr>head_protocol := p\<rparr>"

text \<open>The loop of \<^verbatim>\<open>intercept_heads\<close>.\<close>

fun heads_loop :: "('x, 'm) interceptor list \<Rightarrow> 'x request_head \<Rightarrow> unit connect_result \<times> 'x" where
  "heads_loop [] head = (Ok (), head_extensions head)"
| "heads_loop (i # is) head =
     (case intercept_head i head of
        (Err e, x) \<Rightarrow> (Err e, x)
      | (Ok _, x) \<Rightarrow> heads_loop is (head\<lparr>head_extensions := x\<rparr>))"

definition intercept_heads ::
    "('x, 'm) interceptor list \<Rightarrow> string \<Rightarrow> headers \<Rightarrow> 'x \<Rightarrow> method_descriptor option \<Rightarrow> protocol \<Rightarrow>
     unit connect_result \<times> 'x" where
  "intercept_heads is path h x desc p =
     heads_loop is (head_with_protocol p (head_with_spec (Option.bind desc md_spec) (request_head_new path h x)))"

section \<open>Running the chain\<close>

fun next_run :: "('x, 'm) interceptor list \<Rightarrow> ('x, 'm) unary_terminal \<Rightarrow> ('x, 'm) unary_terminal" where
  "next_run [] terminal req = terminal req"
| "next_run (head # tail) terminal req = intercept_unary head req (next_run tail terminal)"

fun next_stream_run :: "('x, 'm) interceptor list \<Rightarrow> ('x, 'm) stream_terminal \<Rightarrow> ('x, 'm) stream_terminal" where
  "next_stream_run [] terminal req inbound = terminal req inbound"
| "next_stream_run (head # tail) terminal req inbound =
     intercept_streaming head req inbound (next_stream_run tail terminal)"

definition run_chain :: "('x, 'm) interceptor list \<Rightarrow> ('x, 'm) unary_request \<Rightarrow> ('x, 'm) unary_terminal \<Rightarrow>
    'm unary_response connect_result" where
  "run_chain is req terminal = next_run is terminal req"

definition run_chain_streaming ::
    "('x, 'm) interceptor list \<Rightarrow> 'x stream_request \<Rightarrow> 'm payload_stream \<Rightarrow> ('x, 'm) stream_terminal \<Rightarrow>
     'm stream_response connect_result" where
  "run_chain_streaming is req inbound terminal = next_stream_run is terminal req inbound"

section \<open>Requests and responses of the chain\<close>

definition unary_request_new :: "'x request_context \<Rightarrow> bytes \<Rightarrow> codec_format \<Rightarrow> ('x, 'm) unary_request" where
  "unary_request_new ctx body format =
     \<lparr>ureq_ctx = ctx, ureq_payload = pl_with_decode_options (ctx_decode_options ctx) (payload_new body format)\<rparr>"

definition unary_request_try_clone ::
    "('m, 't) message_ops \<Rightarrow> ('x, 'm) unary_request \<Rightarrow> ('x, 'm) unary_request connect_result \<times> ('x, 'm) unary_request" where
  "unary_request_try_clone q r =
     (case payload_try_clone q (ureq_payload r) of
        (Err e, p') \<Rightarrow> (Err e, r\<lparr>ureq_payload := p'\<rparr>)
      | (Ok p, p') \<Rightarrow> (Ok \<lparr>ureq_ctx = ureq_ctx r, ureq_payload = p\<rparr>, r\<lparr>ureq_payload := p'\<rparr>))"

definition unary_from_encoded :: "encoded_response \<Rightarrow> codec_format \<Rightarrow> 'm unary_response" where
  "unary_from_encoded resp format = map_body (\<lambda>b. payload_new (into_contiguous b) format) resp"

definition unary_into_encoded :: "('m, 't) message_ops \<Rightarrow> 'm unary_response \<Rightarrow> encoded_response connect_result" where
  "unary_into_encoded q r =
     result_bind (fst (payload_encoded q (resp_body r))) (\<lambda>b. Ok (map_body (\<lambda>_. Contiguous b) r))"

definition unary_into_encoded_as ::
    "('m, 't) message_ops \<Rightarrow> codec_format \<Rightarrow> 'm unary_response \<Rightarrow> encoded_response connect_result" where
  "unary_into_encoded_as q format r =
     result_bind (fst (payload_encoded_as q format (resp_body r))) (\<lambda>b. Ok (map_body (\<lambda>_. Contiguous b) r))"

definition stream_from_encoded :: "encoded_stream response \<Rightarrow> codec_format \<Rightarrow> 'm stream_response" where
  "stream_from_encoded resp format =
     map_body (map (\<lambda>item. result_bind item (\<lambda>b. Ok (payload_new (into_contiguous b) format)))) resp"

definition stream_into_encoded :: "('m, 't) message_ops \<Rightarrow> 'm stream_response \<Rightarrow> encoded_stream response" where
  "stream_into_encoded q r =
     map_body (map (\<lambda>item. result_bind item (\<lambda>p. result_bind (fst (payload_encoded q p)) (\<lambda>b. Ok (Contiguous b))))) r"

definition payload_stream_to_request_stream :: "('m, 't) message_ops \<Rightarrow> 'm payload_stream \<Rightarrow> request_stream" where
  "payload_stream_to_request_stream q s = map (\<lambda>item. result_bind item (\<lambda>p. fst (payload_encoded q p))) s"

definition request_stream_to_payload_stream ::
    "request_stream \<Rightarrow> codec_format \<Rightarrow> decode_options \<Rightarrow> 'm payload_stream" where
  "request_stream_to_payload_stream s format d =
     map (\<lambda>item. result_bind item (\<lambda>b. Ok (pl_with_decode_options d (payload_new b format)))) s"

section \<open>Dispatching through the chain\<close>

type_synonym ('x, 'm) service_dispatcher =
  "('x request_context, 'm payload, request_stream, encoded_response, encoded_stream response) dispatcher"

definition dispatch_terminal ::
    "('x, 'm) service_dispatcher \<Rightarrow> string \<Rightarrow> codec_format \<Rightarrow> ('x, 'm) unary_terminal" where
  "dispatch_terminal d path format req =
     result_bind (d_call_unary d path (ureq_ctx req) (ureq_payload req) format)
       (\<lambda>resp. Ok (unary_from_encoded resp format))"

definition call_unary_intercepted ::
    "('m, 't) message_ops \<Rightarrow> ('x, 'm) service_dispatcher \<Rightarrow> ('x, 'm) interceptor list \<Rightarrow> string \<Rightarrow>
     'x request_context \<Rightarrow> bytes \<Rightarrow> codec_format \<Rightarrow> encoded_response connect_result" where
  "call_unary_intercepted q d is path ctx body format =
     (if is = [] then
        d_call_unary d path ctx (pl_with_decode_options (ctx_decode_options ctx) (payload_new body format)) format
      else
        result_bind (next_run is (dispatch_terminal d path format) (unary_request_new ctx body format))
          (unary_into_encoded_as q format))"

definition server_streaming_terminal ::
    "('m, 't) message_ops \<Rightarrow> ('x, 'm) service_dispatcher \<Rightarrow> string \<Rightarrow> codec_format \<Rightarrow> ('x, 'm) stream_terminal" where
  "server_streaming_terminal q d path format req inbound =
     (case inbound of
        [] \<Rightarrow> Err (internal ''server-streaming interceptor consumed the request without replacing it'')
      | Err e # _ \<Rightarrow> Err e
      | Ok p # _ \<Rightarrow>
          result_bind (fst (payload_encoded q p)) (\<lambda>body.
            result_bind (d_call_server_streaming d path (sreq_ctx req) body format) (\<lambda>resp.
              Ok (stream_from_encoded resp format))))"

definition call_server_streaming_intercepted ::
    "('m, 't) message_ops \<Rightarrow> ('x, 'm) service_dispatcher \<Rightarrow> ('x, 'm) interceptor list \<Rightarrow> string \<Rightarrow>
     'x request_context \<Rightarrow> bytes \<Rightarrow> codec_format \<Rightarrow> encoded_stream response connect_result" where
  "call_server_streaming_intercepted q d is path ctx body format =
     (if is = [] then d_call_server_streaming d path ctx body format
      else
        result_bind (next_stream_run is (server_streaming_terminal q d path format) \<lparr>sreq_ctx = ctx\<rparr>
            [Ok (pl_with_decode_options (ctx_decode_options ctx) (payload_new body format))])
          (\<lambda>resp. Ok (stream_into_encoded q resp)))"

definition client_streaming_terminal ::
    "('m, 't) message_ops \<Rightarrow> ('x, 'm) service_dispatcher \<Rightarrow> string \<Rightarrow> codec_format \<Rightarrow> ('x, 'm) stream_terminal" where
  "client_streaming_terminal q d path format req inbound =
     result_bind (d_call_client_streaming d path (sreq_ctx req) (payload_stream_to_request_stream q inbound) format)
       (\<lambda>resp. Ok (map_body (\<lambda>b. [Ok (payload_new (into_contiguous b) format)]) resp))"

definition call_client_streaming_intercepted ::
    "('m, 't) message_ops \<Rightarrow> ('x, 'm) service_dispatcher \<Rightarrow> ('x, 'm) interceptor list \<Rightarrow> string \<Rightarrow>
     'x request_context \<Rightarrow> request_stream \<Rightarrow> codec_format \<Rightarrow> encoded_response connect_result" where
  "call_client_streaming_intercepted q d is path ctx requests format =
     (if is = [] then d_call_client_streaming d path ctx requests format
      else
        result_bind (next_stream_run is (client_streaming_terminal q d path format) \<lparr>sreq_ctx = ctx\<rparr>
            (request_stream_to_payload_stream requests format (ctx_decode_options ctx)))
          (\<lambda>resp.
             (case resp_body resp of
                Ok p # _ \<Rightarrow> result_bind (fst (payload_encoded q p)) (\<lambda>b. Ok (map_body (\<lambda>_. Contiguous b) resp))
              | Err e # _ \<Rightarrow> Err e
              | [] \<Rightarrow> Err (internal ''client-streaming interceptor consumed the response without replacing it''))))"

definition bidi_streaming_terminal ::
    "('m, 't) message_ops \<Rightarrow> ('x, 'm) service_dispatcher \<Rightarrow> string \<Rightarrow> codec_format \<Rightarrow> ('x, 'm) stream_terminal" where
  "bidi_streaming_terminal q d path format req inbound =
     result_bind (d_call_bidi_streaming d path (sreq_ctx req) (payload_stream_to_request_stream q inbound) format)
       (\<lambda>resp. Ok (stream_from_encoded resp format))"

definition call_bidi_streaming_intercepted ::
    "('m, 't) message_ops \<Rightarrow> ('x, 'm) service_dispatcher \<Rightarrow> ('x, 'm) interceptor list \<Rightarrow> string \<Rightarrow>
     'x request_context \<Rightarrow> request_stream \<Rightarrow> codec_format \<Rightarrow> encoded_stream response connect_result" where
  "call_bidi_streaming_intercepted q d is path ctx requests format =
     (if is = [] then d_call_bidi_streaming d path ctx requests format
      else
        result_bind (next_stream_run is (bidi_streaming_terminal q d path format) \<lparr>sreq_ctx = ctx\<rparr>
            (request_stream_to_payload_stream requests format (ctx_decode_options ctx)))
          (\<lambda>resp. Ok (stream_into_encoded q resp)))"

section \<open>Composition of chains\<close>

lemma next_run_append: "next_run (xs @ ys) terminal = next_run xs (next_run ys terminal)"
proof
  show "next_run (xs @ ys) terminal req = next_run xs (next_run ys terminal) req" for req
    by (induction xs arbitrary: req) (simp_all, metis (no_types) ext)
qed

lemma next_stream_run_append:
  "next_stream_run (xs @ ys) terminal = next_stream_run xs (next_stream_run ys terminal)"
proof (intro ext)
  show "next_stream_run (xs @ ys) terminal req inbound = next_stream_run xs (next_stream_run ys terminal) req inbound"
    for req inbound
  proof (induction xs arbitrary: req inbound)
    case (Cons i xs)
    then have "next_stream_run (xs @ ys) terminal = next_stream_run xs (next_stream_run ys terminal)"
      by (intro ext)
    then show ?case by simp
  qed simp
qed

lemma heads_loop_append:
  "heads_loop (xs @ ys) head =
     (case heads_loop xs head of
        (Err e, x) \<Rightarrow> (Err e, x)
      | (Ok _, x) \<Rightarrow> heads_loop ys (head\<lparr>head_extensions := x\<rparr>))"
proof (induction xs arbitrary: head)
  case (Cons i xs)
  obtain r x where "intercept_head i head = (r, x)" by fastforce
  then show ?case using Cons [of "head\<lparr>head_extensions := x\<rparr>"]
    by (cases r) (auto split: prod.splits result.splits)
qed simp

text \<open>The contract of interceptors that only observe: each passes the call on as it is.\<close>

locale transparent_chain =
  fixes interceptors :: "('x, 'm) interceptor list"
  assumes passes_unary: "i \<in> set interceptors \<Longrightarrow> intercept_unary i req nxt = nxt req"
    and passes_streaming: "i \<in> set interceptors \<Longrightarrow> intercept_streaming i sreq inbound snxt = snxt sreq inbound"
begin

lemma next_run_transparent: "next_run interceptors terminal = terminal"
proof -
  have "set js \<subseteq> set interceptors \<Longrightarrow> next_run js terminal req = terminal req" for js req
    by (induction js arbitrary: req) (auto simp: passes_unary)
  then show ?thesis by (intro ext) blast
qed

lemma next_stream_run_transparent: "next_stream_run interceptors terminal = terminal"
proof -
  have "set js \<subseteq> set interceptors \<Longrightarrow> next_stream_run js terminal req inbound = terminal req inbound"
    for js req inbound
    by (induction js arbitrary: req inbound) (auto simp: passes_streaming)
  then show ?thesis by (intro ext) blast
qed

lemma insert_transparent:
  "next_run (xs @ interceptors @ ys) terminal = next_run (xs @ ys) terminal"
  "next_stream_run (xs @ interceptors @ ys) sterminal = next_stream_run (xs @ ys) sterminal"
  by (simp_all add: next_run_append next_stream_run_append next_run_transparent next_stream_run_transparent)

end

interpretation default_chain: transparent_chain "replicate n default_interceptor" for n
  by unfold_locales (auto simp: default_interceptor_def)

text \<open>
  C31. Interceptors compose as nested layers in registration order: running a chain is running
  its front around its back, for unary and for streaming calls, and interceptors that keep the
  default methods can be added anywhere without changing any call.
\<close>

theorem interceptor_chain_composes:
  "next_run (xs @ ys) terminal = next_run xs (next_run ys terminal) \<and>
   next_stream_run (xs @ ys) sterminal = next_stream_run xs (next_stream_run ys sterminal) \<and>
   next_run (xs @ replicate n default_interceptor @ ys) terminal = next_run (xs @ ys) terminal \<and>
   next_stream_run (xs @ replicate n default_interceptor @ ys) sterminal = next_stream_run (xs @ ys) sterminal \<and>
   next_run (chain_push i xs) terminal req = next_run xs (\<lambda>r. intercept_unary i r terminal) req"
proof -
  have "next_run [i] terminal = (\<lambda>r. intercept_unary i r terminal)"
  proof
    show "next_run [i] terminal r = intercept_unary i r terminal" for r
    proof -
      have "next_run [] terminal = terminal" by (intro ext) simp
      then show ?thesis by simp
    qed
  qed
  then show ?thesis
    by (simp add: next_run_append next_stream_run_append default_chain.insert_transparent
        default_chain.next_run_transparent default_chain.next_stream_run_transparent chain_push_def)
qed

section \<open>Transparent dispatch\<close>

definition flat_body :: "encoded_body \<Rightarrow> encoded_body" where
  "flat_body b = Contiguous (into_contiguous b)"

definition flat_stream :: "encoded_stream \<Rightarrow> encoded_stream" where
  "flat_stream s = map (result_map flat_body) s"

lemma flat_body_idem [simp]: "flat_body (flat_body b) = flat_body b"
  by (simp add: flat_body_def)

lemma payload_new_encoded [simp]:
  "fst (payload_encoded q (payload_new b f)) = Ok b"
  "fst (payload_encoded q (pl_with_decode_options d (payload_new b f))) = Ok b"
  "fst (payload_encoded_as q f (payload_new b f)) = Ok b"
  by (simp_all add: payload_encoded_def payload_encoded_as_def payload_new_def pl_with_decode_options_def)

lemma unary_roundtrip: "unary_into_encoded_as q f (unary_from_encoded resp f) = Ok (map_body flat_body resp)"
  by (simp add: unary_into_encoded_as_def unary_from_encoded_def map_body_def flat_body_def)

lemma stream_roundtrip: "stream_into_encoded q (stream_from_encoded resp f) = map_body flat_stream resp"
proof -
  have "result_bind (result_bind item (\<lambda>b. Ok (payload_new (into_contiguous b) f)))
      (\<lambda>p. result_bind (fst (payload_encoded q p)) (\<lambda>b. Ok (Contiguous b))) = result_map flat_body item" for item
    by (cases item) (simp_all add: flat_body_def)
  then show ?thesis
    by (simp add: stream_into_encoded_def stream_from_encoded_def map_body_def flat_stream_def)
qed

lemma request_stream_roundtrip:
  "payload_stream_to_request_stream q (request_stream_to_payload_stream s f d) = s"
proof -
  have "result_bind (result_bind item (\<lambda>b. Ok (pl_with_decode_options d (payload_new b f))))
      (\<lambda>p. fst (payload_encoded q p)) = item" for item
    by (cases item) simp_all
  then show ?thesis
    by (simp add: payload_stream_to_request_stream_def request_stream_to_payload_stream_def comp_def)
qed

lemma flat_stream_idem [simp]: "flat_stream (flat_stream s) = flat_stream s"
proof -
  have "result_map flat_body (result_map flat_body item) = result_map flat_body item" for item :: "encoded_body connect_result"
    by (cases item) simp_all
  then show ?thesis by (simp add: flat_stream_def)
qed

lemma map_body_compose: "map_body f (map_body g r) = map_body (\<lambda>x. f (g x)) r"
  by (simp add: map_body_def)

text \<open>
  C30. Observing interceptors do not change a call: for each of the four RPC kinds, dispatching
  through any number of interceptors with the default methods gives the dispatcher's own answer
  - the same error, or the same headers, trailers, compression choice and body bytes - up to
  the segmentation of bodies, which the chain flattens.
\<close>

theorem default_interceptors_transparent:
  "result_map (map_body flat_body)
     (call_unary_intercepted q d (replicate n default_interceptor) path ctx body format) =
   result_map (map_body flat_body)
     (d_call_unary d path ctx (pl_with_decode_options (ctx_decode_options ctx) (payload_new body format)) format) \<and>
   result_map (map_body flat_stream)
     (call_server_streaming_intercepted q d (replicate n default_interceptor) path ctx body format) =
   result_map (map_body flat_stream) (d_call_server_streaming d path ctx body format) \<and>
   result_map (map_body flat_body)
     (call_client_streaming_intercepted q d (replicate n default_interceptor) path ctx requests format) =
   result_map (map_body flat_body) (d_call_client_streaming d path ctx requests format) \<and>
   result_map (map_body flat_stream)
     (call_bidi_streaming_intercepted q d (replicate n default_interceptor) path ctx requests format) =
   result_map (map_body flat_stream) (d_call_bidi_streaming d path ctx requests format)"
proof (intro conjI)
  let ?p = "pl_with_decode_options (ctx_decode_options ctx) (payload_new body format)"
  show "result_map (map_body flat_body) (call_unary_intercepted q d (replicate n default_interceptor) path ctx body format) =
      result_map (map_body flat_body) (d_call_unary d path ctx ?p format)"
    by (cases "d_call_unary d path ctx ?p format")
      (simp_all add: call_unary_intercepted_def default_chain.next_run_transparent dispatch_terminal_def
        unary_request_new_def unary_roundtrip map_body_compose)
  show "result_map (map_body flat_stream) (call_server_streaming_intercepted q d (replicate n default_interceptor) path ctx body format) =
      result_map (map_body flat_stream) (d_call_server_streaming d path ctx body format)"
    by (cases "d_call_server_streaming d path ctx body format")
      (simp_all add: call_server_streaming_intercepted_def default_chain.next_stream_run_transparent
        server_streaming_terminal_def stream_roundtrip map_body_compose)
  show "result_map (map_body flat_body) (call_client_streaming_intercepted q d (replicate n default_interceptor) path ctx requests format) =
      result_map (map_body flat_body) (d_call_client_streaming d path ctx requests format)"
    by (cases "d_call_client_streaming d path ctx requests format")
      (simp_all add: call_client_streaming_intercepted_def default_chain.next_stream_run_transparent
        client_streaming_terminal_def request_stream_roundtrip map_body_def flat_body_def)
  show "result_map (map_body flat_stream) (call_bidi_streaming_intercepted q d (replicate n default_interceptor) path ctx requests format) =
      result_map (map_body flat_stream) (d_call_bidi_streaming d path ctx requests format)"
    by (cases "d_call_bidi_streaming d path ctx requests format")
      (simp_all add: call_bidi_streaming_intercepted_def default_chain.next_stream_run_transparent
        bidi_streaming_terminal_def request_stream_roundtrip stream_roundtrip map_body_compose)
qed

end
