(* ===== verification/ClientConfig.thy ===== *)
theory ClientConfig
  imports Compression Protocol Timeout MethodSpec
begin

text \<open>
  Client configuration and per-call options (\<^verbatim>\<open>ClientConfig\<close>, \<^verbatim>\<open>CallOptions\<close> and their merging
  in \<^verbatim>\<open>connectrpc/src/client/mod.rs\<close>), the check of a method spec against the entry point and
  the request URI. The URI parser of the \<^verbatim>\<open>http\<close> crate, the codecs behind
  \<^verbatim>\<open>CompressionRegistry::default()\<close> and the \<^verbatim>\<open>Debug\<close> rendering of a string are parameters.
\<close>

record uri =
  uri_scheme :: "string option"
  uri_authority :: "string option"
  uri_path :: string
  uri_query :: "string option"

record uri_ops =
  parse_path_and_query :: "string \<Rightarrow> (string \<times> string option, string) result"
  uri_from_parts :: "string option \<Rightarrow> string option \<Rightarrow> string \<times> string option \<Rightarrow> (uri, string) result"
  display_uri :: "uri \<Rightarrow> string"
  str_debug :: "string \<Rightarrow> string"

section \<open>Configuration\<close>

record client_config =
  base_uri :: uri
  cfg_protocol :: protocol
  cfg_codec_format :: codec_format
  cfg_compression :: compression_registry
  request_compression :: "string option"
  cfg_compression_policy :: compression_policy
  default_timeout :: "duration option"
  default_max_message_size :: "usize option"
  default_element_memory_limit :: "usize option"
  default_headers :: headers

definition client_config_new :: "compression_registry \<Rightarrow> uri \<Rightarrow> client_config" where
  "client_config_new default_registry u =
     \<lparr>base_uri = u, cfg_protocol = Connect, cfg_codec_format = Proto, cfg_compression = default_registry,
      request_compression = None, cfg_compression_policy = policy_default, default_timeout = None,
      default_max_message_size = None, default_element_memory_limit = None, default_headers = hm_new\<rparr>"

definition cfg_with_protocol :: "protocol \<Rightarrow> client_config \<Rightarrow> client_config" where
  "cfg_with_protocol p c = c\<lparr>cfg_protocol := p\<rparr>"

definition with_codec_format :: "codec_format \<Rightarrow> client_config \<Rightarrow> client_config" where
  "with_codec_format f c = c\<lparr>cfg_codec_format := f\<rparr>"

definition cfg_json :: "client_config \<Rightarrow> client_config" where
  "cfg_json c = c\<lparr>cfg_codec_format := Json\<rparr>"

definition cfg_proto :: "client_config \<Rightarrow> client_config" where
  "cfg_proto c = c\<lparr>cfg_codec_format := Proto\<rparr>"

definition with_compression :: "compression_registry \<Rightarrow> client_config \<Rightarrow> client_config" where
  "with_compression r c = c\<lparr>cfg_compression := r\<rparr>"

definition compress_requests :: "string \<Rightarrow> client_config \<Rightarrow> client_config" where
  "compress_requests encoding c = c\<lparr>request_compression := Some encoding\<rparr>"

definition with_compression_policy :: "compression_policy \<Rightarrow> client_config \<Rightarrow> client_config" where
  "with_compression_policy p c = c\<lparr>cfg_compression_policy := p\<rparr>"

definition cfg_with_default_timeout :: "duration \<Rightarrow> client_config \<Rightarrow> client_config" where
  "cfg_with_default_timeout t c = c\<lparr>default_timeout := Some t\<rparr>"

definition with_default_max_message_size :: "usize \<Rightarrow> client_config \<Rightarrow> client_config" where
  "with_default_max_message_size n c = c\<lparr>default_max_message_size := Some n\<rparr>"

definition with_default_element_memory_limit :: "usize \<Rightarrow> client_config \<Rightarrow> client_config" where
  "with_default_element_memory_limit n c = c\<lparr>default_element_memory_limit := Some n\<rparr>"

text \<open>The name and the value are given as the results of their \<^verbatim>\<open>TryInto\<close> conversions.\<close>

definition with_default_header :: "string option \<Rightarrow> string option \<Rightarrow> client_config \<Rightarrow> client_config" where
  "with_default_header name value c =
     (case (name, value) of
        (Some n, Some v) \<Rightarrow> c\<lparr>default_headers := hm_append n v (default_headers c)\<rparr>
      | _ \<Rightarrow> c)"

definition with_default_headers :: "headers \<Rightarrow> client_config \<Rightarrow> client_config" where
  "with_default_headers h c = c\<lparr>default_headers := h\<rparr>"

section \<open>Per-call options\<close>

record call_options =
  opt_headers :: headers
  opt_timeout :: "duration option"
  opt_max_message_size :: "usize option"
  opt_element_memory_limit :: "usize option"
  opt_compress :: "bool option"

definition call_options_default :: call_options where
  "call_options_default = \<lparr>opt_headers = hm_new, opt_timeout = None, opt_max_message_size = None,
     opt_element_memory_limit = None, opt_compress = None\<rparr>"

definition opt_with_timeout :: "duration \<Rightarrow> call_options \<Rightarrow> call_options" where
  "opt_with_timeout t c = c\<lparr>opt_timeout := Some t\<rparr>"

definition opt_with_header :: "string option \<Rightarrow> string option \<Rightarrow> call_options \<Rightarrow> call_options" where
  "opt_with_header name value c =
     (case (name, value) of
        (Some n, Some v) \<Rightarrow> c\<lparr>opt_headers := hm_append n v (opt_headers c)\<rparr>
      | _ \<Rightarrow> c)"

definition try_with_header ::
    "string option \<Rightarrow> string option \<Rightarrow> call_options \<Rightarrow> call_options connect_result" where
  "try_with_header name value c =
     result_bind (ok_or name (internal ''invalid header name'')) (\<lambda>n.
       result_bind (ok_or value (internal ''invalid header value'')) (\<lambda>v.
         Ok (c\<lparr>opt_headers := hm_append n v (opt_headers c)\<rparr>)))"

definition opt_with_headers :: "(string \<times> string) list \<Rightarrow> call_options \<Rightarrow> call_options" where
  "opt_with_headers kvs c =
     fold (\<lambda>(n, v) c. c\<lparr>opt_headers := hm_append n v (opt_headers c)\<rparr>) kvs c"

definition opt_with_max_message_size :: "usize \<Rightarrow> call_options \<Rightarrow> call_options" where
  "opt_with_max_message_size n c = c\<lparr>opt_max_message_size := Some n\<rparr>"

definition opt_with_element_memory_limit :: "usize \<Rightarrow> call_options \<Rightarrow> call_options" where
  "opt_with_element_memory_limit n c = c\<lparr>opt_element_memory_limit := Some n\<rparr>"

definition opt_with_compress :: "bool \<Rightarrow> call_options \<Rightarrow> call_options" where
  "opt_with_compress b c = c\<lparr>opt_compress := Some b\<rparr>"

section \<open>Merging options over the configuration\<close>

text \<open>\<^verbatim>\<open>HeaderMap::remove\<close> drops every value of the name; \<^verbatim>\<open>Option::or\<close>.\<close>

definition hm_remove :: "string \<Rightarrow> headers \<Rightarrow> headers" where
  "hm_remove k h = filter (\<lambda>p. fst p \<noteq> k) h"

fun option_or :: "'a option \<Rightarrow> 'a option \<Rightarrow> 'a option" where
  "option_or (Some x) y = Some x"
| "option_or None y = y"

definition merge_headers :: "headers \<Rightarrow> headers \<Rightarrow> headers" where
  "merge_headers config_defaults options =
     (if hm_is_empty config_defaults then options
      else if hm_is_empty options then config_defaults
      else
        (let merged = fold hm_remove (map fst options) config_defaults
         in fold (\<lambda>(name, value) merged. hm_append name value merged) (hm_iter options) merged))"

definition effective_options :: "client_config \<Rightarrow> call_options \<Rightarrow> call_options" where
  "effective_options config options =
     \<lparr>opt_headers = merge_headers (default_headers config) (opt_headers options),
      opt_timeout = option_or (opt_timeout options) (default_timeout config),
      opt_max_message_size = option_or (opt_max_message_size options) (default_max_message_size config),
      opt_element_memory_limit =
        option_or (opt_element_memory_limit options) (default_element_memory_limit config),
      opt_compress = opt_compress options\<rparr>"

section \<open>The spec and the URI of a call\<close>

fun entry_point_for :: "stream_type \<Rightarrow> string" where
  "entry_point_for StUnary = ''call_unary''"
| "entry_point_for StClientStream = ''call_client_stream''"
| "entry_point_for StServerStream = ''call_server_stream''"
| "entry_point_for StBidiStream = ''call_bidi_stream''"

fun stream_type_debug :: "stream_type \<Rightarrow> string" where
  "stream_type_debug StUnary = ''Unary''"
| "stream_type_debug StClientStream = ''ClientStream''"
| "stream_type_debug StServerStream = ''ServerStream''"
| "stream_type_debug StBidiStream = ''BidiStream''"

definition check_client_spec :: "uri_ops \<Rightarrow> spec \<Rightarrow> stream_type \<Rightarrow> string \<Rightarrow> unit connect_result" where
  "check_client_spec u s expected entry_point =
     (if spec_stream_type s \<noteq> expected
      then Err (internal (entry_point @ '' called with a '' @ stream_type_debug (spec_stream_type s) @
             '' Spec for '' @ procedure s @ ''; use '' @ entry_point_for (spec_stream_type s)))
      else if spec_origin_of s \<noteq> OriginClient
      then Err (internal (entry_point @ '' called with a server-side Spec for '' @ procedure s @
             ''; pass FOO_SPEC.with_origin(SpecOrigin::Client) or Spec::client(..)''))
      else if \<not> procedure_is_well_formed (procedure s)
      then Err (internal (''Spec::procedure '' @ str_debug u (procedure s) @
             '' must look like \"/package.Service/Method\"''))
      else Ok ())"

text \<open>\<^verbatim>\<open>str::trim_end_matches('/')\<close>; both branches of the source parse the same text.\<close>

definition trim_end_slashes :: "string \<Rightarrow> string" where
  "trim_end_slashes s = rev (dropWhile (\<lambda>c. c = CHR ''/'') (rev s))"

definition procedure_uri :: "uri_ops \<Rightarrow> client_config \<Rightarrow> string \<Rightarrow> string option \<Rightarrow> uri connect_result" where
  "procedure_uri u config proc query =
     (let base_path = trim_end_slashes (uri_path (base_uri config));
          s = (if base_path = [] \<and> query = None then proc
               else base_path @ proc @ (case query of Some q \<Rightarrow> ''?'' @ q | None \<Rightarrow> []))
      in case parse_path_and_query u s of
           Err e \<Rightarrow> Err (internal (''invalid request path: '' @ e))
         | Ok path_and_query \<Rightarrow>
             (case uri_from_parts u (uri_scheme (base_uri config)) (uri_authority (base_uri config)) path_and_query of
                Err e \<Rightarrow> Err (internal (''invalid request URI from base '' @
                          display_uri u (base_uri config) @ '': '' @ e))
              | Ok r \<Rightarrow> Ok r))"

section \<open>Properties of the merge\<close>

lemma hm_values_remove [simp]: "hm_values (hm_remove k h) k' = (if k' = k then [] else hm_values h k')"
  by (induction h) (auto simp: hm_values_def hm_remove_def)

lemma hm_wf_remove [inv_intros]: "hm_wf h \<Longrightarrow> hm_wf (hm_remove k h)"
  by (auto simp: hm_wf_def hm_remove_def distinct_map intro: inj_on_subset)

lemma hm_values_remove_all:
  "hm_values (fold hm_remove ks h) k = (if k \<in> set ks then [] else hm_values h k)"
  by (induction ks arbitrary: h) auto

lemma hm_wf_remove_all: "hm_wf h \<Longrightarrow> hm_wf (fold hm_remove ks h)"
  by (induction ks arbitrary: h) (auto intro: hm_wf_remove)

lemma hm_values_empty_iff: "hm_wf h \<Longrightarrow> hm_values h k = [] \<longleftrightarrow> k \<notin> fst ` set h"
  by (auto simp: hm_values_def hm_wf_def map_of_eq_None_iff split: option.splits
      dest: map_of_SomeD intro: rev_image_eqI)

lemma merge_headers_eq:
  "\<not> hm_is_empty c \<Longrightarrow> \<not> hm_is_empty h \<Longrightarrow>
   merge_headers c h = hm_append_all (hm_iter h) (fold hm_remove (map fst h) c)"
  by (simp add: merge_headers_def hm_append_all_def)

lemma merge_headers_values:
  assumes "hm_wf c" and "hm_wf h"
  shows "hm_wf (merge_headers c h)"
    and "hm_values (merge_headers c h) k = (if hm_values h k \<noteq> [] then hm_values h k else hm_values c k)"
proof -
  show "hm_wf (merge_headers c h)"
  proof (cases "hm_is_empty c \<or> hm_is_empty h")
    case True
    then show ?thesis using assms by (auto simp: merge_headers_def)
  next
    case False
    then show ?thesis using assms by (simp add: merge_headers_eq hm_wf_append_all hm_wf_remove_all)
  qed
  show "hm_values (merge_headers c h) k = (if hm_values h k \<noteq> [] then hm_values h k else hm_values c k)"
  proof (cases "hm_is_empty c \<or> hm_is_empty h")
    case True
    then show ?thesis by (auto simp: merge_headers_def hm_is_empty_def hm_values_def)
  next
    case False
    then have "hm_values (merge_headers c h) k = (if k \<in> fst ` set h then [] else hm_values c k) @ hm_values h k"
      by (simp add: merge_headers_eq hm_append_all_iter [OF assms(2)] hm_values_remove_all)
    then show ?thesis using hm_values_empty_iff [OF assms(2), of k] by auto
  qed
qed

text \<open>
  C32. Per-call options fully override the client's defaults: after merging, a header name the
  call sets has exactly the call's values (no default leaks through), every other name keeps
  the default values, and each scalar option is the call's when set and the default otherwise.
\<close>

theorem effective_options_override:
  assumes "hm_wf (default_headers config)" and "hm_wf (opt_headers options)"
  shows "hm_wf (opt_headers (effective_options config options)) \<and>
    hm_values (opt_headers (effective_options config options)) k =
      (if hm_values (opt_headers options) k \<noteq> [] then hm_values (opt_headers options) k
       else hm_values (default_headers config) k) \<and>
    opt_timeout (effective_options config options) =
      (case opt_timeout options of Some t \<Rightarrow> Some t | None \<Rightarrow> default_timeout config) \<and>
    opt_max_message_size (effective_options config options) =
      (case opt_max_message_size options of Some n \<Rightarrow> Some n | None \<Rightarrow> default_max_message_size config) \<and>
    opt_element_memory_limit (effective_options config options) =
      (case opt_element_memory_limit options of Some n \<Rightarrow> Some n | None \<Rightarrow> default_element_memory_limit config) \<and>
    opt_compress (effective_options config options) = opt_compress options"
  using merge_headers_values [OF assms]
  by (simp add: effective_options_def split: option.splits)

definition sample_config :: client_config where
  "sample_config =
     cfg_with_default_timeout 3 (with_default_header (Some ''x-a'') (Some ''2'')
       (with_default_header (Some ''x-b'') (Some ''1'') (with_default_header (Some ''x-a'') (Some ''1'')
         (client_config_new registry_new
            \<lparr>uri_scheme = None, uri_authority = None, uri_path = ''/'', uri_query = None\<rparr>))))"

theorem effective_options_override_witness:
  "\<exists>opts. opts = opt_with_header (Some ''x-a'') (Some ''9'') call_options_default \<and>
     hm_values (opt_headers (effective_options sample_config opts)) ''x-a'' = [''9''] \<and>
     hm_values (opt_headers (effective_options sample_config opts)) ''x-b'' = [''1''] \<and>
     opt_timeout (effective_options sample_config opts) = Some 3"
proof -
  let ?opts = "opt_with_header (Some ''x-a'') (Some ''9'') call_options_default"
  have wf: "hm_wf (default_headers sample_config)" "hm_wf (opt_headers ?opts)"
    by (simp_all add: sample_config_def cfg_with_default_timeout_def with_default_header_def
        client_config_new_def opt_with_header_def call_options_default_def hm_wf_append)
  show ?thesis
    using effective_options_override [OF wf, of "''x-a''"] effective_options_override [OF wf, of "''x-b''"]
    by (simp add: sample_config_def cfg_with_default_timeout_def with_default_header_def
        client_config_new_def opt_with_header_def call_options_default_def)
qed

lemma check_client_spec_Ok_iff:
  "check_client_spec u s expected entry = Ok () \<longleftrightarrow>
     spec_stream_type s = expected \<and> spec_origin_of s = OriginClient \<and> procedure_is_well_formed (procedure s)"
  by (simp add: check_client_spec_def)

lemma check_client_spec_Err_internal:
  "check_client_spec u s expected entry = Err e \<Longrightarrow> err_code e = Internal"
  by (auto simp: check_client_spec_def internal_def new_error_def split: if_splits)

end
