(* ===== verification/Get.thy ===== *)
theory Get
  imports ClientConfig Trailers
begin

text \<open>
  Connect GET requests: the client's query string (\<^verbatim>\<open>call_unary_get\<close> and
  \<^verbatim>\<open>build_connect_get_query\<close> of \<^verbatim>\<open>connectrpc/src/client/mod.rs\<close>) and the server's reading of it
  (\<^verbatim>\<open>parse_get_query_params\<close>, \<^verbatim>\<open>decode_get_message\<close> of \<^verbatim>\<open>connectrpc/src/service.rs\<close>). Percent coding
  and base64 are the functions of a record \<open>query_ops\<close>, with \<open>query_laws\<close> what is relied on.
\<close>

record query_ops =
  percent_encode_non_alphanumeric :: "bytes \<Rightarrow> string"
  percent_decode_str :: "string \<Rightarrow> bytes"
  url_safe_no_pad_encode :: "bytes \<Rightarrow> string"
  url_safe_no_pad_decode :: "bytes \<Rightarrow> (bytes, string) result"
  url_safe_decode :: "bytes \<Rightarrow> (bytes, string) result"

section \<open>The client\<close>

definition build_connect_get_query :: "bool \<Rightarrow> string option \<Rightarrow> string \<Rightarrow> string \<Rightarrow> string" where
  "build_connect_get_query use_base64 compression encoding encoded_message =
     ''connect=v1'' @ (if use_base64 then ''&base64=1'' else []) @
     (case compression of Some enc \<Rightarrow> ''&compression='' @ enc | None \<Rightarrow> []) @
     ''&encoding='' @ encoding @ ''&message='' @ encoded_message"

text \<open>The request compression decided by \<^verbatim>\<open>call_unary_get\<close>: the payload and the encoding applied.\<close>

definition get_payload ::
    "client_config \<Rightarrow> call_options \<Rightarrow> bytes \<Rightarrow> (bytes \<times> string option) connect_result" where
  "get_payload config options body =
     (case request_compression config of
        Some encoding \<Rightarrow>
          (if should_compress (with_override (cfg_compression_policy config) (opt_compress options)) (length body)
           then result_bind (registry_compress (cfg_compression config) encoding body)
                  (\<lambda>compressed. Ok (compressed, Some encoding))
           else Ok (body, None))
      | None \<Rightarrow> Ok (body, None))"

record get_request =
  get_uri :: uri
  get_headers :: headers
  get_deadline :: "instant option"

text \<open>
  \<^verbatim>\<open>call_unary_get\<close> up to the transport: the encoded request \<open>body\<close> is given, \<open>now\<close> is the
  clock, and the result is the bodyless request with the client-side deadline of the call.
\<close>

definition call_unary_get ::
    "query_ops \<Rightarrow> uri_ops \<Rightarrow> instant \<Rightarrow> client_config \<Rightarrow> spec \<Rightarrow> bytes connect_result \<Rightarrow> call_options \<Rightarrow>
     get_request connect_result" where
  "call_unary_get q u now config s encoded opts =
     result_bind (check_client_spec u s StUnary ''call_unary_get'') (\<lambda>_.
     if cfg_protocol config \<noteq> Connect
     then Err (invalid_argument ''call_unary_get requires Protocol::Connect (gRPC/gRPC-Web are POST-only)'')
     else
       (let options = effective_options config opts in
        result_bind encoded (\<lambda>body.
        result_bind (get_payload config options body) (\<lambda>(payload, compressed_with).
          let use_base64 = (cfg_codec_format config = Proto \<or> compressed_with \<noteq> None);
              encoded_message = (if use_base64 then url_safe_no_pad_encode q payload
                                 else percent_encode_non_alphanumeric q payload);
              encoding_name = (case cfg_codec_format config of Proto \<Rightarrow> ''proto'' | Json \<Rightarrow> ''json'');
              query = build_connect_get_query use_base64 compressed_with encoding_name encoded_message
          in result_bind (procedure_uri u config (procedure s) (Some query)) (\<lambda>target.
             let h = (case opt_timeout options of
                        Some t \<Rightarrow> hm_append ''connect-timeout-ms'' (format_timeout t Connect) hm_new
                      | None \<Rightarrow> hm_new);
                 h = (case accept_encoding (cfg_compression config) of
                        Some a \<Rightarrow> hm_append ''accept-encoding'' a h | None \<Rightarrow> h)
             in Ok \<lparr>get_uri = target,
                    get_headers = fold (\<lambda>(name, value) h. hm_append name value h) (hm_iter (opt_headers options)) h,
                    get_deadline = client_deadline now (opt_timeout options) Connect\<rparr>)))))"

section \<open>The server\<close>

record get_query_params =
  gq_message :: "string option"
  gq_encoding :: "string option"
  gq_base64 :: bool
  gq_compression :: "string option"
  gq_connect_version :: "string option"

definition get_query_params_default :: get_query_params where
  "get_query_params_default = \<lparr>gq_message = None, gq_encoding = None, gq_base64 = False,
     gq_compression = None, gq_connect_version = None\<rparr>"

text \<open>\<^verbatim>\<open>splitn(2, '=')\<close>: the key, and the rest after the first \<open>=\<close> or the empty string.\<close>

definition split_pair :: "string \<Rightarrow> string \<times> string" where
  "split_pair pair = (takeWhile (\<lambda>c. c \<noteq> CHR ''='') pair, tl (dropWhile (\<lambda>c. c \<noteq> CHR ''='') pair))"

definition apply_pair :: "string \<Rightarrow> get_query_params \<Rightarrow> get_query_params" where
  "apply_pair pair params =
     (let (key, value) = split_pair pair in
      if key = ''message'' then params\<lparr>gq_message := Some value\<rparr>
      else if key = ''encoding'' then params\<lparr>gq_encoding := Some value\<rparr>
      else if key = ''base64'' then params\<lparr>gq_base64 := (value = ''1'')\<rparr>
      else if key = ''compression'' then params\<lparr>gq_compression := Some value\<rparr>
      else if key = ''connect'' then params\<lparr>gq_connect_version := Some value\<rparr>
      else params)"

definition parse_get_query_params :: "string option \<Rightarrow> get_query_params connect_result" where
  "parse_get_query_params query =
     (case query of
        None \<Rightarrow> Err (invalid_argument ''GET request requires query parameters'')
      | Some q \<Rightarrow>
          (let params = fold apply_pair (split_on (CHR ''&'') q) get_query_params_default in
           if gq_encoding params = None
           then Err (invalid_argument ''GET request requires 'encoding' query parameter'')
           else Ok params))"

definition percent_decode :: "query_ops \<Rightarrow> string \<Rightarrow> bytes connect_result" where
  "percent_decode q input = Ok (percent_decode_str q (map (\<lambda>c. if c = CHR ''+'' then CHR '' '' else c) input))"

definition decode_get_message ::
    "query_ops \<Rightarrow> get_query_params \<Rightarrow> compression_registry \<Rightarrow> usize \<Rightarrow> bytes connect_result" where
  "decode_get_message q params compression max_size =
     (case gq_message params of
        None \<Rightarrow> Ok []
      | Some encoded_message \<Rightarrow>
          result_bind
            (if gq_base64 params then
               result_bind (if CHR ''%'' \<in> set encoded_message then percent_decode q encoded_message
                            else Ok (as_bytes encoded_message)) (\<lambda>message.
                 (case url_safe_no_pad_decode q message of
                    Ok d \<Rightarrow> Ok d
                  | Err _ \<Rightarrow>
                      (case url_safe_decode q message of
                         Ok d \<Rightarrow> Ok d
                       | Err e \<Rightarrow> Err (invalid_argument (''invalid base64 encoding: '' @ e)))))
             else percent_decode q encoded_message) (\<lambda>decoded.
          result_bind
            (case gq_compression params of
               Some encoding \<Rightarrow>
                 (if encoding \<noteq> ''identity'' then registry_decompress_with_limit compression encoding decoded max_size
                  else Ok decoded)
             | None \<Rightarrow> Ok decoded) (\<lambda>body.
          if length body > max_size
          then Err (resource_exhausted (''message size '' @ show_nat (length body) @ '' exceeds limit '' @ show_nat max_size))
          else Ok body)))"

section \<open>Reading back a query\<close>

text \<open>
  Documented behaviour of the codecs: decoding inverts encoding, base64 text is alphanumeric
  with dash and underscore, percent-encoded text is alphanumeric with percent signs.
\<close>

definition query_laws :: "query_ops \<Rightarrow> bool" where
  "query_laws q \<longleftrightarrow>
     (\<forall>b. percent_decode_str q (percent_encode_non_alphanumeric q b) = b) \<and>
     (\<forall>b. list_all (\<lambda>c. is_ascii_alphanumeric c \<or> c = CHR ''%'') (percent_encode_non_alphanumeric q b)) \<and>
     (\<forall>b. url_safe_no_pad_decode q (as_bytes (url_safe_no_pad_encode q b)) = Ok b) \<and>
     (\<forall>b. list_all (\<lambda>c. is_ascii_alphanumeric c \<or> c = CHR ''-'' \<or> c = CHR ''_'') (url_safe_no_pad_encode q b))"

lemma split_pair_eq: "CHR ''='' \<notin> set k \<Longrightarrow> split_pair (k @ CHR ''='' # v) = (k, v)"
  by (simp add: split_pair_def takeWhile_append dropWhile_append)

lemma special_not_alnum:
  "\<not> is_ascii_alphanumeric (CHR ''&'')" "\<not> is_ascii_alphanumeric (CHR ''+'')" "\<not> is_ascii_alphanumeric (CHR ''%'')"
  by (simp_all add: is_ascii_alphanumeric_def is_ascii_alpha_def is_ascii_digit_def)

lemma encoded_message_chars:
  assumes "query_laws q"
  shows "CHR ''&'' \<notin> set (percent_encode_non_alphanumeric q b)" "CHR ''+'' \<notin> set (percent_encode_non_alphanumeric q b)"
    "CHR ''&'' \<notin> set (url_safe_no_pad_encode q b)" "CHR ''%'' \<notin> set (url_safe_no_pad_encode q b)"
  using assms special_not_alnum unfolding query_laws_def list_all_iff by fastforce+

lemma split_query:
  assumes "CHR ''&'' \<notin> set enc" and "CHR ''&'' \<notin> set m" and "\<forall>c. cz = Some c \<longrightarrow> CHR ''&'' \<notin> set c"
  shows "split_on (CHR ''&'') (build_connect_get_query b64 cz enc m) =
    [''connect=v1''] @ (if b64 then [''base64=1''] else []) @
    (case cz of Some c \<Rightarrow> [''compression='' @ c] | None \<Rightarrow> []) @ [''encoding='' @ enc, ''message='' @ m]"
proof -
  have app: "CHR ''&'' \<notin> set x \<Longrightarrow> split_on (CHR ''&'') (x @ ''&'' @ y) = x # split_on (CHR ''&'') y" for x y
    by (simp add: split_on_append_sep)
  have tail: "split_on (CHR ''&'') (''encoding='' @ enc @ ''&'' @ ''message='' @ m) = [''encoding='' @ enc, ''message='' @ m]"
    using app [of "''encoding='' @ enc" "''message='' @ m"] assms(1,2) split_on_notin [of "CHR ''&''" "''message='' @ m"]
    by simp
  have mid: "split_on (CHR ''&'') ((case cz of Some c \<Rightarrow> ''compression='' @ c @ ''&'' | None \<Rightarrow> []) @
      ''encoding='' @ enc @ ''&'' @ ''message='' @ m) =
    (case cz of Some c \<Rightarrow> [''compression='' @ c] | None \<Rightarrow> []) @ [''encoding='' @ enc, ''message='' @ m]"
    using assms(3) tail app [of "''compression='' @ the cz" "''encoding='' @ enc @ ''&'' @ ''message='' @ m"]
    by (cases cz) simp_all
  have eq: "build_connect_get_query b64 cz enc m =
      ''connect=v1'' @ ''&'' @ (if b64 then ''base64=1'' @ ''&'' else []) @
      (case cz of Some c \<Rightarrow> ''compression='' @ c @ ''&'' | None \<Rightarrow> []) @ ''encoding='' @ enc @ ''&'' @ ''message='' @ m"
    by (simp add: build_connect_get_query_def split: option.splits)
  show ?thesis
    unfolding eq using mid by (cases b64) (simp_all add: app [of "''connect=v1''"] app [of "''base64=1''"])
qed

lemma parse_built_query:
  assumes "CHR ''&'' \<notin> set enc" and "CHR ''&'' \<notin> set m" and "\<forall>c. cz = Some c \<longrightarrow> CHR ''&'' \<notin> set c"
  shows "parse_get_query_params (Some (build_connect_get_query b64 cz enc m)) =
    Ok \<lparr>gq_message = Some m, gq_encoding = Some enc, gq_base64 = b64, gq_compression = cz,
        gq_connect_version = Some ''v1''\<rparr>"
proof -
  have p: "split_pair (''connect=v1'') = (''connect'', ''v1'')" "split_pair (''base64=1'') = (''base64'', ''1'')"
    by (simp_all add: split_pair_def)
  have k: "split_pair (''compression='' @ c) = (''compression'', c)" "split_pair (''encoding='' @ c) = (''encoding'', c)"
      "split_pair (''message='' @ c) = (''message'', c)" for c
    using split_pair_eq [of "''compression''" c] split_pair_eq [of "''encoding''" c] split_pair_eq [of "''message''" c]
    by simp_all
  show ?thesis
    unfolding parse_get_query_params_def option.case split_query [OF assms]
    by (cases b64; cases cz) (simp_all add: apply_pair_def p k [simplified] get_query_params_default_def Let_def)
qed

section \<open>Round trip\<close>

text \<open>
  Documented behaviour of the URI library: the path ends at the first question mark, a text
  without a fragment mark is kept, and assembling a URI keeps its parts.
\<close>

definition uri_laws :: "uri_ops \<Rightarrow> bool" where
  "uri_laws u \<longleftrightarrow>
     (\<forall>p qs r. CHR ''?'' \<notin> set p \<longrightarrow> CHR ''#'' \<notin> set (p @ qs) \<longrightarrow>
        parse_path_and_query u (p @ ''?'' @ qs) = Ok r \<longrightarrow> r = (p, Some qs)) \<and>
     (\<forall>s a pq r. uri_from_parts u s a pq = Ok r \<longrightarrow> uri_path r = fst pq \<and> uri_query r = snd pq)"

lemma procedure_uri_query:
  assumes "uri_laws u" and "procedure_uri u config proc (Some qs) = Ok target"
    and "CHR ''?'' \<notin> set (uri_path (base_uri config) @ proc)" and "CHR ''#'' \<notin> set (uri_path (base_uri config) @ proc @ qs)"
  shows "uri_path target = trim_end_slashes (uri_path (base_uri config)) @ proc \<and> uri_query target = Some qs"
proof -
  let ?base = "trim_end_slashes (uri_path (base_uri config))"
  have sub: "set ?base \<subseteq> set (uri_path (base_uri config))"
    by (auto simp: trim_end_slashes_def dest: set_dropWhileD)
  obtain pq where pq: "parse_path_and_query u (?base @ proc @ ''?'' @ qs) = Ok pq"
      "uri_from_parts u (uri_scheme (base_uri config)) (uri_authority (base_uri config)) pq = Ok target"
    using assms(2) by (auto simp: procedure_uri_def Let_def split: result.splits)
  have "CHR ''?'' \<notin> set (?base @ proc)" "CHR ''#'' \<notin> set ((?base @ proc) @ qs)"
    using assms(3,4) sub by auto
  with assms(1) pq(1) have "pq = (?base @ proc, Some qs)"
    unfolding uri_laws_def by (metis append.assoc)
  with assms(1) pq(2) show ?thesis unfolding uri_laws_def by (metis fst_conv snd_conv)
qed

lemma build_query_no_hash:
  assumes "CHR ''#'' \<notin> set enc" and "CHR ''#'' \<notin> set m" and "\<forall>c. cz = Some c \<longrightarrow> CHR ''#'' \<notin> set c"
  shows "CHR ''#'' \<notin> set (build_connect_get_query b64 cz enc m)"
  using assms by (cases b64; cases cz) (simp_all add: build_connect_get_query_def)

lemma encoded_message_no_hash:
  assumes "query_laws q"
  shows "CHR ''#'' \<notin> set (percent_encode_non_alphanumeric q b)" "CHR ''#'' \<notin> set (url_safe_no_pad_encode q b)"
proof -
  have "\<not> is_ascii_alphanumeric (CHR ''#'')"
    by (simp add: is_ascii_alphanumeric_def is_ascii_alpha_def is_ascii_digit_def)
  then show "CHR ''#'' \<notin> set (percent_encode_non_alphanumeric q b)" "CHR ''#'' \<notin> set (url_safe_no_pad_encode q b)"
    using assms unfolding query_laws_def list_all_iff by fastforce+
qed

lemma map_plus_id: "CHR ''+'' \<notin> set s \<Longrightarrow> map (\<lambda>c. if c = CHR ''+'' then CHR '' '' else c) s = s"
  by (induction s) auto

lemma decode_get_text:
  assumes "query_laws q"
    and "gq_message params = Some (if b64 then url_safe_no_pad_encode q payload else percent_encode_non_alphanumeric q payload)"
    and "gq_base64 params = b64"
    and "case gq_compression params of None \<Rightarrow> payload = body
         | Some c \<Rightarrow> registry_decompress_with_limit reg c payload M = Ok body"
    and "length body \<le> M"
  shows "decode_get_message q params reg M = Ok body"
proof -
  note chars = encoded_message_chars [OF assms(1)]
  have ident: "registry_decompress_with_limit reg ''identity'' payload M = Ok body \<Longrightarrow> payload = body"
    by (simp add: registry_decompress_with_limit_def split: if_splits)
  have decoded: "(if b64 then
      result_bind (if CHR ''%'' \<in> set (url_safe_no_pad_encode q payload) then percent_decode q (url_safe_no_pad_encode q payload)
         else Ok (as_bytes (url_safe_no_pad_encode q payload)))
        (\<lambda>message. case url_safe_no_pad_decode q message of Ok d \<Rightarrow> Ok d
          | Err _ \<Rightarrow> (case url_safe_decode q message of Ok d \<Rightarrow> Ok d
            | Err e \<Rightarrow> Err (invalid_argument (''invalid base64 encoding: '' @ e))))
    else percent_decode q (percent_encode_non_alphanumeric q payload)) = Ok payload"
    using assms(1) chars by (simp add: percent_decode_def map_plus_id query_laws_def)
  show ?thesis
    using assms(2-5) decoded ident by (auto simp: decode_get_message_def split: option.splits if_splits)
qed

text \<open>
  Whenever the client builds a GET request, the server reading its URI finds the called
  procedure's path, protocol version v1 and the client's codec, and decodes the message
  parameter to exactly the client's encoded request.
\<close>

lemma get_reads_back:
  assumes "query_laws q" and "uri_laws u"
    and "call_unary_get q u now config s (Ok body) opts = Ok req"
    and "CHR ''?'' \<notin> set (uri_path (base_uri config) @ procedure s)"
    and "CHR ''#'' \<notin> set (uri_path (base_uri config) @ procedure s)"
    and "\<forall>enc c. request_compression config = Some enc \<longrightarrow>
      CHR ''&'' \<notin> set enc \<and> CHR ''#'' \<notin> set enc \<and>
      (registry_compress (cfg_compression config) enc body = Ok c \<longrightarrow> registry_decompress_with_limit reg enc c M = Ok body)"
    and "length body \<le> M"
  shows "uri_path (get_uri req) = trim_end_slashes (uri_path (base_uri config)) @ procedure s \<and>
    (\<exists>params. parse_get_query_params (uri_query (get_uri req)) = Ok params \<and>
      gq_connect_version params = Some ''v1'' \<and>
      Option.bind (gq_encoding params) (from_codec True) = Some (cfg_codec_format config) \<and>
      decode_get_message q params reg M = Ok body)"
proof -
  define opt where "opt = effective_options config opts"
  from assms(3) obtain payload cw where pl: "get_payload config opt body = Ok (payload, cw)"
    by (auto simp: call_unary_get_def Let_def result_bind_Ok_iff opt_def split: if_splits)
  define b64 where "b64 = (cfg_codec_format config = Proto \<or> cw \<noteq> None)"
  define m where "m = (if b64 then url_safe_no_pad_encode q payload else percent_encode_non_alphanumeric q payload)"
  define enc where "enc = (case cfg_codec_format config of Proto \<Rightarrow> ''proto'' | Json \<Rightarrow> ''json'')"
  let ?qs = "build_connect_get_query b64 cw enc m"
  have uri: "procedure_uri u config (procedure s) (Some ?qs) = Ok (get_uri req)"
    using assms(3) pl by (auto simp: call_unary_get_def Let_def result_bind_Ok_iff opt_def [symmetric]
        b64_def m_def enc_def split: if_splits)
  have cw: "case cw of None \<Rightarrow> payload = body | Some c \<Rightarrow> request_compression config = Some c \<and>
      registry_compress (cfg_compression config) c body = Ok payload"
    using pl by (auto simp: get_payload_def result_bind_Ok_iff split: option.splits if_splits)
  have ok: "\<forall>c. cw = Some c \<longrightarrow> CHR ''&'' \<notin> set c" "\<forall>c. cw = Some c \<longrightarrow> CHR ''#'' \<notin> set c"
      "case cw of None \<Rightarrow> payload = body | Some c \<Rightarrow> registry_decompress_with_limit reg c payload M = Ok body"
    using cw assms(6) by (auto split: option.splits)
  have mm: "CHR ''&'' \<notin> set m" "CHR ''#'' \<notin> set m"
    using encoded_message_chars [OF assms(1)] encoded_message_no_hash [OF assms(1)] by (simp_all add: m_def)
  have ee: "CHR ''&'' \<notin> set enc" "CHR ''#'' \<notin> set enc" "from_codec True enc = Some (cfg_codec_format config)"
    by (cases "cfg_codec_format config"; simp add: enc_def from_codec_def)+
  have target: "uri_path (get_uri req) = trim_end_slashes (uri_path (base_uri config)) @ procedure s \<and>
      uri_query (get_uri req) = Some ?qs"
    using procedure_uri_query [OF assms(2) uri assms(4)] assms(5) build_query_no_hash [OF ee(2) mm(2) ok(2), of b64]
    by simp
  note parsed = parse_built_query [OF ee(1) mm(1) ok(1), of b64]
  note dec = decode_get_text [OF assms(1) _ _ _ assms(7), of
      "\<lparr>gq_message = Some m, gq_encoding = Some enc, gq_base64 = b64, gq_compression = cw, gq_connect_version = Some ''v1''\<rparr>"
      b64 payload reg]
  show ?thesis using target parsed dec ok(3) ee(3) by (simp add: m_def)
qed

definition sample_query :: query_ops where
  "sample_query =
     \<lparr>percent_encode_non_alphanumeric = sample_b64,
      percent_decode_str = (\<lambda>s. case sample_b64_decode s of Some b \<Rightarrow> b | None \<Rightarrow> []),
      url_safe_no_pad_encode = sample_b64,
      url_safe_no_pad_decode = (\<lambda>b. case sample_b64_decode (from_bytes b) of Some d \<Rightarrow> Ok d | None \<Rightarrow> Err ''bad''),
      url_safe_decode = (\<lambda>b. Err ''bad'')\<rparr>"

lemma sample_b64_alnum: "c \<in> set (sample_b64 b) \<Longrightarrow> is_ascii_alphanumeric c"
proof -
  have h: "n < 16 \<Longrightarrow> is_ascii_alphanumeric (hex_char n)" for n
    using hex_char_code [of n] by (simp add: is_ascii_alphanumeric_def is_ascii_alpha_def)
  have "unat x div 16 < 16" for x :: byte
    using unsigned_less [where 'a = nat, of x] by simp
  with h have "is_ascii_alphanumeric (hex_char (unat x div 16))" "is_ascii_alphanumeric (hex_char (unat x mod 16))" for x :: byte
    by simp_all
  then show "c \<in> set (sample_b64 b) \<Longrightarrow> is_ascii_alphanumeric c" by (auto simp: sample_b64_def)
qed

lemma sample_query_laws: "query_laws sample_query"
  by (simp add: query_laws_def sample_query_def sample_b64_inverse list_all_iff sample_b64_alnum)

definition sample_uri_ops :: uri_ops where
  "sample_uri_ops =
     \<lparr>parse_path_and_query = (\<lambda>s. Ok (takeWhile (\<lambda>c. c \<noteq> CHR ''?'') s,
        case dropWhile (\<lambda>c. c \<noteq> CHR ''?'') s of [] \<Rightarrow> None | _ # r \<Rightarrow> Some r)),
      uri_from_parts = (\<lambda>s a pq. Ok \<lparr>uri_scheme = s, uri_authority = a, uri_path = fst pq, uri_query = snd pq\<rparr>),
      display_uri = uri_path, str_debug = (\<lambda>s. s)\<rparr>"

lemma sample_uri_laws: "uri_laws sample_uri_ops"
  by (auto simp: uri_laws_def sample_uri_ops_def takeWhile_append dropWhile_append)

lemma sample_get_call:
  "\<exists>s req. spec_client True ''/p.S/M'' StUnary = Some s \<and> procedure s = ''/p.S/M'' \<and>
     call_unary_get sample_query sample_uri_ops 0 sample_config s (Ok [1, 255]) call_options_default = Ok req"
proof -
  let ?s = "\<lparr>procedure = ''/p.S/M'', spec_stream_type = StUnary, spec_origin_of = OriginClient, spec_idempotency_level = LevelUnknown\<rparr>"
  have s: "spec_client True ''/p.S/M'' StUnary = Some ?s" "check_client_spec sample_uri_ops ?s StUnary ''call_unary_get'' = Ok ()"
    by (simp_all add: spec_client_def debug_assert_well_formed_def procedure_is_well_formed_def check_client_spec_def)
  have c: "request_compression sample_config = None" "cfg_protocol sample_config = Connect" "cfg_codec_format sample_config = Proto"
      "uri_path (base_uri sample_config) = ''/''"
    by (simp_all add: sample_config_def cfg_with_default_timeout_def with_default_header_def client_config_new_def)
  obtain target where "procedure_uri sample_uri_ops sample_config (procedure ?s)
      (Some (build_connect_get_query True None ''proto'' (url_safe_no_pad_encode sample_query [1, 255]))) = Ok target"
    by (auto simp: procedure_uri_def sample_uri_ops_def c trim_end_slashes_def)
  then have "\<exists>req. call_unary_get sample_query sample_uri_ops 0 sample_config ?s (Ok [1, 255]) call_options_default = Ok req"
    by (simp add: call_unary_get_def s(2) c get_payload_def Let_def)
  then show ?thesis using s(1) by auto
qed

end
