(* ===== verification/ResponseStream.thy ===== *)
theory ResponseStream
  imports EnvelopeStream Trailers Deadline Interceptor
begin

text \<open>
  Streaming response bodies (\<^verbatim>\<open>BatchingEnvelopeStream\<close>, \<^verbatim>\<open>StreamFinalizer\<close>, \<^verbatim>\<open>GrpcUnaryBody\<close> of
  \<^verbatim>\<open>connectrpc/src/service.rs\<close>) as poll functions on explicit states. The JSON renderings of the
  Connect end-of-stream message and of an error are library code: functions of the record
  \<open>service_libs\<close>, next to the text and wire functions of the trailer component.
\<close>

record service_libs =
  lib_text :: text_ops
  lib_wire :: wire_ops
  lib_end_stream_json :: "end_stream_response \<Rightarrow> bytes"
  lib_error_json :: "connect_error \<Rightarrow> bytes"

datatype http_frame = DataFrame bytes | TrailersFrame headers

section \<open>Finalizers\<close>

datatype stream_finalizer = ConnectEndStream | GrpcTrailers | GrpcWebTrailers

text \<open>The buffer after \<^verbatim>\<open>let _ = encode_end_stream(..)\<close>: a failing encode leaves it empty.\<close>

definition end_stream_frame :: "service_libs \<Rightarrow> end_stream_response \<Rightarrow> http_frame" where
  "end_stream_frame l es =
     DataFrame (case encode_end_stream encoder_uncompressed (lib_end_stream_json l es) [] of Ok b \<Rightarrow> b | Err _ \<Rightarrow> [])"

definition finalizer_success :: "service_libs \<Rightarrow> stream_finalizer \<Rightarrow> headers \<Rightarrow> http_frame" where
  "finalizer_success l f trailers =
     (case f of
        ConnectEndStream \<Rightarrow> end_stream_frame l (end_stream_success trailers)
      | GrpcTrailers \<Rightarrow> TrailersFrame (build_grpc_trailers (lib_text l) (lib_wire l) None trailers)
      | GrpcWebTrailers \<Rightarrow>
          DataFrame (encode_grpc_web_trailers (build_grpc_trailers (lib_text l) (lib_wire l) None trailers)))"

definition finalizer_error :: "service_libs \<Rightarrow> stream_finalizer \<Rightarrow> connect_error \<Rightarrow> headers \<Rightarrow> http_frame" where
  "finalizer_error l f err trailers =
     (case f of
        ConnectEndStream \<Rightarrow> end_stream_frame l (end_stream_failure err trailers)
      | GrpcTrailers \<Rightarrow> TrailersFrame (build_grpc_trailers (lib_text l) (lib_wire l) (Some err) trailers)
      | GrpcWebTrailers \<Rightarrow>
          DataFrame (encode_grpc_web_trailers (build_grpc_trailers (lib_text l) (lib_wire l) (Some err) trailers)))"

section \<open>The batching stream\<close>

definition STREAM_BATCH_THRESHOLD :: usize where "STREAM_BATCH_THRESHOLD = 16 * 1024"

record 's batching_stream =
  bs_source :: "'s option"
  bs_buf :: bytes
  bs_encoder :: envelope_encoder
  bs_trailers :: headers
  bs_finalizer :: stream_finalizer
  bs_pending_final :: "http_frame option"
  bs_pending_segments :: "bytes list"
  bs_done :: bool

definition batching_new ::
    "'s \<Rightarrow> headers \<Rightarrow> (compression_registry \<times> string) option \<Rightarrow> compression_policy \<Rightarrow> stream_finalizer \<Rightarrow> 's batching_stream" where
  "batching_new source trailers compression policy finalizer =
     \<lparr>bs_source = Some source, bs_buf = [],
      bs_encoder = \<lparr>enc_compression = compression, enc_policy = policy\<rparr>, bs_trailers = trailers,
      bs_finalizer = finalizer, bs_pending_final = None, bs_pending_segments = [], bs_done = False\<rparr>"

text \<open>\<^verbatim>\<open>StreamExt::fuse\<close>: a source that has ended is not polled again.\<close>

definition fuse_poll :: "('s, 'i) poll_fn \<Rightarrow> ('s option, 'i) poll_fn" where
  "fuse_poll poll src =
     (case src of
        None \<Rightarrow> (Ready None, None)
      | Some s \<Rightarrow> (case poll s of (Ready None, s') \<Rightarrow> (Ready None, None) | (r, s') \<Rightarrow> (r, Some s')))"

definition flush_buf :: "'s batching_stream \<Rightarrow> http_frame \<times> 's batching_stream" where
  "flush_buf st = (DataFrame (bs_buf st), st\<lparr>bs_buf := []\<rparr>)"

text \<open>The loop of \<^verbatim>\<open>drain_segments\<close> on the buffer and the pending segments.\<close>

fun drain_loop :: "bytes \<Rightarrow> bytes list \<Rightarrow> http_frame option \<times> bytes \<times> bytes list" where
  "drain_loop buf [] = (None, buf, [])"
| "drain_loop buf (segment # segments) =
     (if length segment < MIN_CHAIN_SIZE
      then (if length (buf @ segment) \<ge> STREAM_BATCH_THRESHOLD then (Some (DataFrame (buf @ segment)), [], segments)
            else drain_loop (buf @ segment) segments)
      else if buf = [] then (Some (DataFrame segment), [], segments)
      else (Some (DataFrame buf), [], segment # segments))"

definition drain_segments :: "'s batching_stream \<Rightarrow> http_frame option \<times> 's batching_stream" where
  "drain_segments st =
     (let (f, buf, segs) = drain_loop (bs_buf st) (bs_pending_segments st)
      in (f, st\<lparr>bs_buf := buf, bs_pending_segments := segs\<rparr>))"

text \<open>The end of the stream: the final frame at once, or after what is buffered.\<close>

definition finish_with :: "http_frame \<Rightarrow> 's batching_stream \<Rightarrow> http_frame option poll \<times> 's batching_stream" where
  "finish_with final_frame st =
     (if bs_buf st = [] then (Ready (Some final_frame), st\<lparr>bs_done := True\<rparr>)
      else (let (f, st') = flush_buf (st\<lparr>bs_pending_final := Some final_frame\<rparr>) in (Ready (Some f), st')))"

lemma drain_loop_None: "drain_loop buf segs = (None, buf', segs') \<Longrightarrow> buf' = buf @ concat segs \<and> segs' = []"
  by (induction buf segs rule: drain_loop.induct) (auto split: if_splits)

lemma drain_loop_Some:
  assumes "drain_loop buf segs = (Some f, buf', segs')"
  shows "\<exists>d. f = DataFrame d \<and> buf @ concat segs = d @ concat segs' \<and> buf' = [] \<and>
    2 * length segs' < 2 * length segs + (if buf \<noteq> [] then 1 else 0)"
  using assms by (induction buf segs rule: drain_loop.induct) (fastforce split: if_splits)+

lemma write_chained_grows:
  "write_envelope_chained flag body dst chained m = Ok (dst', ch) \<Longrightarrow> \<exists>x. dst' = dst @ x \<and> 5 \<le> length x"
  by (auto simp: write_envelope_chained_def Let_def result_bind_Ok_iff fold_append_segments put_envelope_header_def
      split: if_splits)

lemma encode_chained_grows:
  "encode_chained enc body dst chained m = Ok (dst', ch) \<Longrightarrow> \<exists>x. dst' = dst @ x \<and> 5 \<le> length x"
  by (auto simp: encode_chained_def result_bind_Ok_iff split: option.splits if_splits dest!: write_chained_grows)

text \<open>
  The loop of \<^verbatim>\<open>poll_next\<close>. It ends because every accepted message adds its header to a
  buffer that is flushed at the threshold.
\<close>

function batching_loop ::
    "service_libs \<Rightarrow> ('s, encoded_body connect_result) poll_fn \<Rightarrow> 's batching_stream \<Rightarrow>
     http_frame option poll \<times> 's batching_stream" where
  "batching_loop l poll st =
     (case fuse_poll poll (bs_source st) of
        (Pending, src) \<Rightarrow>
          (if bs_buf st = [] then (Pending, st\<lparr>bs_source := src\<rparr>)
           else (let (f, st') = flush_buf (st\<lparr>bs_source := src\<rparr>) in (Ready (Some f), st')))
      | (Ready None, src) \<Rightarrow>
          finish_with (finalizer_success l (bs_finalizer st) (bs_trailers st)) (st\<lparr>bs_source := src\<rparr>)
      | (Ready (Some (Err e)), src) \<Rightarrow>
          finish_with (finalizer_error l (bs_finalizer st) e (bs_trailers st)) (st\<lparr>bs_source := src\<rparr>)
      | (Ready (Some (Ok body)), src) \<Rightarrow>
          (case encode_chained (bs_encoder st) body (bs_buf st) (bs_pending_segments st) MIN_CHAIN_SIZE of
             Err e \<Rightarrow> finish_with (finalizer_error l (bs_finalizer st) e (bs_trailers st)) (st\<lparr>bs_source := src\<rparr>)
           | Ok (buf, segs) \<Rightarrow>
               (case drain_segments (st\<lparr>bs_source := src, bs_buf := buf, bs_pending_segments := segs\<rparr>) of
                  (Some f, st') \<Rightarrow> (Ready (Some f), st')
                | (None, st') \<Rightarrow>
                    (if length (bs_buf st') \<ge> STREAM_BATCH_THRESHOLD
                     then (let (f, st'') = flush_buf st' in (Ready (Some f), st''))
                     else batching_loop l poll st'))))"
  by pat_completeness auto
termination
  by (relation "measure (\<lambda>(l, poll, st). STREAM_BATCH_THRESHOLD - length (bs_buf st))")
    (auto simp: drain_segments_def split: prod.splits dest!: drain_loop_None encode_chained_grows)

declare batching_loop.simps [simp del]

definition batching_poll_next ::
    "service_libs \<Rightarrow> ('s, encoded_body connect_result) poll_fn \<Rightarrow> ('s batching_stream, http_frame) poll_fn" where
  "batching_poll_next l poll st =
     (if bs_done st then (Ready None, st)
      else (case drain_segments st of
              (Some f, st') \<Rightarrow> (Ready (Some f), st')
            | (None, st') \<Rightarrow>
                (case bs_pending_final st' of
                   Some f \<Rightarrow> (Ready (Some f), st'\<lparr>bs_pending_final := None, bs_done := True\<rparr>)
                 | None \<Rightarrow> batching_loop l poll st')))"

fun finalizer_for :: "protocol \<Rightarrow> stream_finalizer" where
  "finalizer_for Grpc = GrpcTrailers"
| "finalizer_for GrpcWeb = GrpcWebTrailers"
| "finalizer_for Connect = ConnectEndStream"

text \<open>\<^verbatim>\<open>StreamingResponseBody::new\<close> with the three \<^verbatim>\<open>create_*_envelope_stream\<close> functions it picks from.\<close>

definition streaming_body_new ::
    "'s \<Rightarrow> headers \<Rightarrow> protocol \<Rightarrow> (compression_registry \<times> string) option \<Rightarrow> compression_policy \<Rightarrow> 's batching_stream" where
  "streaming_body_new source trailers p compression policy =
     batching_new source trailers compression policy (finalizer_for p)"

section \<open>What a response stream delivers\<close>

text \<open>
  A source is given by the answers to its polls: each \<open>Pending\<close> or an item, then its end.
\<close>

fun script_poll :: "('i poll list, 'i) poll_fn" where
  "script_poll [] = (Ready None, [])"
| "script_poll (Pending # r) = (Pending, r)"
| "script_poll (Ready i # r) = (Ready (Some i), r)"

fun script_items :: "'i poll list \<Rightarrow> 'i list" where
  "script_items [] = []"
| "script_items (Pending # r) = script_items r"
| "script_items (Ready i # r) = i # script_items r"

text \<open>
  The specification: the envelope of every message, each encoded on its own, up to the first
  error of the source or of the encoder, and the final frame that reports how it ended.
\<close>

fun stream_spec ::
    "service_libs \<Rightarrow> envelope_encoder \<Rightarrow> stream_finalizer \<Rightarrow> headers \<Rightarrow> encoded_body connect_result list \<Rightarrow> bytes \<times> http_frame" where
  "stream_spec l enc fin trailers [] = ([], finalizer_success l fin trailers)"
| "stream_spec l enc fin trailers (Err e # items) = ([], finalizer_error l fin e trailers)"
| "stream_spec l enc fin trailers (Ok body # items) =
     (case encoder_encode enc (into_contiguous body) [] of
        Err e \<Rightarrow> ([], finalizer_error l fin e trailers)
      | Ok w \<Rightarrow> (let (bs, f) = stream_spec l enc fin trailers items in (w @ bs, f)))"

text \<open>What the stream in a given state still has to deliver.\<close>

definition stream_rest ::
    "service_libs \<Rightarrow> encoded_body connect_result poll list batching_stream \<Rightarrow> bytes \<times> http_frame option" where
  "stream_rest l st =
     (if bs_done st then ([], None)
      else case bs_pending_final st of
             Some f \<Rightarrow> (bs_buf st @ concat (bs_pending_segments st), Some f)
           | None \<Rightarrow>
               (let (bs, f) = stream_spec l (bs_encoder st) (bs_finalizer st) (bs_trailers st)
                    (script_items (case bs_source st of None \<Rightarrow> [] | Some s \<Rightarrow> s))
                in (bs_buf st @ concat (bs_pending_segments st) @ bs, Some f)))"

definition stream_inv :: "'s batching_stream \<Rightarrow> bool" where
  "stream_inv st \<longleftrightarrow> (bs_pending_final st \<noteq> None \<longrightarrow> bs_buf st = [] \<and> bs_pending_segments st = [])"

definition source_left :: "'i list batching_stream \<Rightarrow> nat" where
  "source_left st =
     (case bs_source st of None \<Rightarrow> 0 | Some s \<Rightarrow> length s) +
     (if bs_done st \<or> bs_pending_final st \<noteq> None then 0 else 1)"

definition frames_left :: "'s batching_stream \<Rightarrow> nat" where
  "frames_left st = (if bs_done st then 0 else
     2 * length (bs_pending_segments st) + (if bs_buf st \<noteq> [] then 1 else 0) +
     (if bs_pending_final st \<noteq> None then 1 else 0))"

text \<open>One frame is delivered: a piece of the bytes that were due, or the due final frame.\<close>

definition delivers ::
    "service_libs \<Rightarrow> encoded_body connect_result poll list batching_stream \<Rightarrow> http_frame \<Rightarrow>
     encoded_body connect_result poll list batching_stream \<Rightarrow> bool" where
  "delivers l st f st' \<longleftrightarrow>
     (\<exists>d. f = DataFrame d \<and> \<not> bs_done st' \<and> fst (stream_rest l st) = d @ fst (stream_rest l st') \<and>
        snd (stream_rest l st) = snd (stream_rest l st')) \<or>
     (stream_rest l st = ([], Some f) \<and> bs_done st')"

definition poll_step ::
    "service_libs \<Rightarrow> encoded_body connect_result poll list batching_stream \<Rightarrow> http_frame option poll \<Rightarrow>
     encoded_body connect_result poll list batching_stream \<Rightarrow> bool" where
  "poll_step l st out st' \<longleftrightarrow> stream_inv st' \<and>
     (case out of
        Pending \<Rightarrow> stream_rest l st' = stream_rest l st \<and> \<not> bs_done st'
      | Ready None \<Rightarrow> False
      | Ready (Some f) \<Rightarrow> delivers l st f st')"

lemma encode_chained_wire:
  "encode_chained enc body buf [] m = Ok (buf', segs) \<Longrightarrow>
     \<exists>w. encoder_encode enc (into_contiguous body) [] = Ok w \<and> buf' @ concat segs = buf @ w"
  "encode_chained enc body buf [] m = Err e \<Longrightarrow> encoder_encode enc (into_contiguous body) [] = Err e"
proof -
  have c: "encode_chained enc body buf [] m =
      result_bind (envelope_of enc (into_contiguous body)) (\<lambda>(flag, data).
        write_envelope_chained flag (if flag = flags_COMPRESSED then Contiguous data else body) buf [] m)"
    by (auto simp: encode_chained_def envelope_of_def body_len_contiguous flags_defs result_bind_assoc
        split: option.splits intro!: arg_cong2 [where f = result_bind])
  have d: "envelope_of enc (into_contiguous body) = Ok (flag, data) \<Longrightarrow>
      into_contiguous (if flag = flags_COMPRESSED then Contiguous data else body) = data" for flag data
    by (auto simp: envelope_of_def result_bind_Ok_iff flags_defs split: option.splits if_splits)
  have w: "result_map (\<lambda>(dst', chained). dst' @ concat chained) (encode_chained enc body buf [] m) =
      result_map ((@) buf) (encoder_encode enc (into_contiguous body) [])"
  proof (cases "envelope_of enc (into_contiguous body)")
    case (Ok fd)
    then obtain flag data where fd: "envelope_of enc (into_contiguous body) = Ok (flag, data)" by (cases fd) auto
    show ?thesis
      using d [OF fd] write_chained_bytes [of flag "if flag = flags_COMPRESSED then Contiguous data else body" buf m]
      by (simp add: c fd encoder_encode_eq write_envelope_Ok)
  next
    case (Err e)
    then show ?thesis by (simp add: c encoder_encode_eq)
  qed
  show "encode_chained enc body buf [] m = Ok (buf', segs) \<Longrightarrow>
     \<exists>w. encoder_encode enc (into_contiguous body) [] = Ok w \<and> buf' @ concat segs = buf @ w"
    using w by (cases "encoder_encode enc (into_contiguous body) []") auto
  show "encode_chained enc body buf [] m = Err e \<Longrightarrow> encoder_encode enc (into_contiguous body) [] = Err e"
    using w by (cases "encoder_encode enc (into_contiguous body) []") auto
qed

lemma finish_with_step:
  assumes "bs_pending_segments st = []" and "bs_pending_final st = None" and "\<not> bs_done st"
    and "stream_rest l st0 = (bs_buf st, Some f)" and "finish_with f st = (out, st')"
  shows "poll_step l st0 out st' \<and> source_left st' < source_left st"
  using assms
  by (cases "bs_buf st = []")
    (auto simp: finish_with_def flush_buf_def poll_step_def delivers_def stream_inv_def stream_rest_def
      source_left_def split: option.splits)

lemma fuse_script_cases:
  obtains (none) "src = None \<or> src = Some []" "fuse_poll script_poll src = (Ready None, None)"
  | (pending) r where "src = Some (Pending # r)" "fuse_poll script_poll src = (Pending, Some r)"
  | (item) i r where "src = Some (Ready i # r)" "fuse_poll script_poll src = (Ready (Some i), Some r)"
proof (cases src)
  case None
  then show ?thesis using none by (simp add: fuse_poll_def)
next
  case (Some s)
  then show ?thesis using none pending item by (cases s rule: script_poll.cases) (simp_all add: fuse_poll_def)
qed

lemma poll_step_rest:
  "stream_rest l st = stream_rest l mid \<Longrightarrow> poll_step l mid out st' \<Longrightarrow> poll_step l st out st'"
  by (simp add: poll_step_def delivers_def split: poll.splits option.splits)

lemma flush_step:
  assumes "bs_pending_segments st = []" and "bs_pending_final st = None" and "\<not> bs_done st"
    and "stream_rest l st0 = stream_rest l st"
  shows "poll_step l st0 (Ready (Some (fst (flush_buf st)))) (snd (flush_buf st))"
  using assms
  by (auto simp: flush_buf_def poll_step_def delivers_def stream_inv_def stream_rest_def split: prod.splits)

lemma drain_some_step:
  assumes "drain_segments st = (Some f, st')" and "\<not> bs_done st" and "bs_pending_final st = None"
  shows "poll_step l st (Ready (Some f)) st' \<and> frames_left st' < frames_left st \<and> source_left st' = source_left st"
proof -
  obtain buf segs where d: "drain_loop (bs_buf st) (bs_pending_segments st) = (Some f, buf, segs)"
      "st' = st\<lparr>bs_buf := buf, bs_pending_segments := segs\<rparr>"
    using assms(1) by (auto simp: drain_segments_def split: prod.splits)
  from drain_loop_Some [OF d(1)] obtain dd where "f = DataFrame dd"
      "bs_buf st @ concat (bs_pending_segments st) = dd @ concat segs" "buf = []"
      "2 * length segs < 2 * length (bs_pending_segments st) + (if bs_buf st \<noteq> [] then 1 else 0)" by blast
  then show ?thesis
    using assms(2,3) d(2)
    by (auto simp: poll_step_def delivers_def stream_inv_def stream_rest_def frames_left_def source_left_def
        split: prod.splits)
qed

lemma drain_none_rest:
  assumes "drain_segments st = (None, st')"
  shows "st' = st\<lparr>bs_buf := bs_buf st @ concat (bs_pending_segments st), bs_pending_segments := []\<rparr>"
    and "stream_rest l st' = stream_rest l st"
proof -
  show st': "st' = st\<lparr>bs_buf := bs_buf st @ concat (bs_pending_segments st), bs_pending_segments := []\<rparr>"
    using assms by (auto simp: drain_segments_def split: prod.splits dest!: drain_loop_None)
  then show "stream_rest l st' = stream_rest l st"
    by (simp add: stream_rest_def split: option.splits prod.splits)
qed

lemma batching_loop_step:
  assumes "bs_pending_segments st = []" and "bs_pending_final st = None" and "\<not> bs_done st"
    and "batching_loop l script_poll st = (out, st')"
  shows "poll_step l st out st' \<and> source_left st' < source_left st"
  using assms
proof (induction l "script_poll :: (encoded_body connect_result poll list, encoded_body connect_result) poll_fn" st
    arbitrary: out st' rule: batching_loop.induct)
  case (1 l st)
  note pre = "1.prems"
  show ?case
  proof (cases rule: fuse_script_cases [of "bs_source st"])
    case none
    have "stream_rest l st = (bs_buf st, Some (finalizer_success l (bs_finalizer st) (bs_trailers st)))"
      using none(1) pre by (auto simp: stream_rest_def split: option.splits)
    with finish_with_step [of "st\<lparr>bs_source := None\<rparr>" l st] pre none show ?thesis
      by (auto simp: batching_loop.simps [of l script_poll st] source_left_def)
  next
    case (pending r)
    let ?st = "st\<lparr>bs_source := Some r\<rparr>"
    have rest: "stream_rest l st = stream_rest l ?st" using pending(1) by (simp add: stream_rest_def split: option.splits)
    show ?thesis
      using pre pending rest flush_step [of ?st l st]
      by (auto simp: batching_loop.simps [of l script_poll st] poll_step_def [where out = Pending] stream_inv_def
          flush_buf_def source_left_def split: if_splits)
  next
    case (item i r)
    show ?thesis
    proof (cases i)
      case (Err e)
      have "stream_rest l st = (bs_buf st, Some (finalizer_error l (bs_finalizer st) e (bs_trailers st)))"
        using item(1) Err pre by (simp add: stream_rest_def)
      with finish_with_step [of "st\<lparr>bs_source := Some r\<rparr>" l st] pre item Err show ?thesis
        by (fastforce simp: batching_loop.simps [of l script_poll st] source_left_def)
    next
      case (Ok body)
      show ?thesis
      proof (cases "encode_chained (bs_encoder st) body (bs_buf st) [] MIN_CHAIN_SIZE")
        case (Err e)
        have "stream_rest l st = (bs_buf st, Some (finalizer_error l (bs_finalizer st) e (bs_trailers st)))"
          using item(1) Ok encode_chained_wire(2) [OF Err] pre by (simp add: stream_rest_def)
        with finish_with_step [of "st\<lparr>bs_source := Some r\<rparr>" l st] pre item Ok Err show ?thesis
          by (fastforce simp: batching_loop.simps [of l script_poll st] source_left_def)
      next
        case enc: (Ok bufsegs)
        obtain buf segs where enc': "encode_chained (bs_encoder st) body (bs_buf st) [] MIN_CHAIN_SIZE = Ok (buf, segs)"
          using enc by (cases bufsegs) auto
        let ?mid = "st\<lparr>bs_source := Some r, bs_buf := buf, bs_pending_segments := segs\<rparr>"
        from encode_chained_wire(1) [OF enc'] obtain w where
            "encoder_encode (bs_encoder st) (into_contiguous body) [] = result.Ok w" "buf @ concat segs = bs_buf st @ w"
          by blast
        then have rest: "stream_rest l st = stream_rest l ?mid"
          using item(1) Ok pre by (simp add: stream_rest_def split: prod.splits)
        have left: "source_left ?mid < source_left st" using item(1) pre by (simp add: source_left_def)
        have loop: "batching_loop l script_poll st =
            (case drain_segments ?mid of
               (Some f, st') \<Rightarrow> (Ready (Some f), st')
             | (None, st') \<Rightarrow>
                 (if length (bs_buf st') \<ge> STREAM_BATCH_THRESHOLD
                  then (let (f, st'') = flush_buf st' in (Ready (Some f), st''))
                  else batching_loop l script_poll st'))"
          using item Ok enc' pre by (simp add: batching_loop.simps [of l script_poll st])
        obtain f mid' where dr: "drain_segments ?mid = (f, mid')" by fastforce
        show ?thesis
        proof (cases f)
          case (Some fr)
          then show ?thesis
            using drain_some_step [of ?mid fr mid' l] dr pre loop rest left poll_step_rest [OF rest] by auto
        next
          case None
          note mid' = drain_none_rest [OF dr [unfolded None]]
          have pre': "bs_pending_segments mid' = []" "bs_pending_final mid' = None" "\<not> bs_done mid'"
              "source_left mid' < source_left st" "stream_rest l st = stream_rest l mid'"
            using mid' pre left rest by (simp_all add: source_left_def)
          show ?thesis
          proof (cases "length (bs_buf mid') \<ge> STREAM_BATCH_THRESHOLD")
            case True
            then show ?thesis
              using loop dr None pre pre' flush_step [OF pre'(1-3), of l st]
              by (auto simp: flush_buf_def source_left_def)
          next
            case False
            then have "batching_loop l script_poll mid' = (out, st')" using loop dr None pre by simp
            moreover have "encode_chained (bs_encoder st) body (bs_buf st) (bs_pending_segments st) MIN_CHAIN_SIZE =
                result.Ok (buf, segs)" using enc' pre by simp
            ultimately have "poll_step l mid' out st' \<and> source_left st' < source_left mid'"
              using "1.hyps" [OF item(2) [symmetric] refl refl Ok _ refl dr [symmetric] None False pre'(1-3)] by blast
            then show ?thesis using pre'(4) poll_step_rest [OF pre'(5)] by simp
          qed
        qed
      qed
    qed
  qed
qed

definition poll_less :: "('i list batching_stream \<times> 'i list batching_stream) set" where
  "poll_less = inv_image (less_than <*lex*> less_than) (\<lambda>st. (source_left st, frames_left st))"

lemma poll_less_wf: "wf poll_less"
  by (simp add: poll_less_def wf_inv_image wf_lex_prod)

lemma batching_poll_step:
  assumes "stream_inv st" and "\<not> bs_done st" and "batching_poll_next l script_poll st = (out, st')"
  shows "poll_step l st out st' \<and> (st', st) \<in> poll_less"
proof (cases "bs_pending_final st")
  case (Some f)
  then have "bs_buf st = []" "bs_pending_segments st = []" using assms(1) by (simp_all add: stream_inv_def)
  then show ?thesis
    using Some assms(2,3)
    by (auto simp: batching_poll_next_def drain_segments_def poll_step_def delivers_def stream_inv_def stream_rest_def
        poll_less_def source_left_def frames_left_def)
next
  case None
  obtain f mid where dr: "drain_segments st = (f, mid)" by fastforce
  show ?thesis
  proof (cases f)
    case (Some fr)
    then have "out = Ready (Some fr)" "st' = mid" using dr assms(2,3) by (simp_all add: batching_poll_next_def)
    then show ?thesis using drain_some_step [OF dr [unfolded Some] assms(2) None] by (simp add: poll_less_def)
  next
    case n: None
    note mid = drain_none_rest [OF dr [unfolded n]]
    then have m: "bs_pending_segments mid = []" "bs_pending_final mid = None" "\<not> bs_done mid"
        "source_left mid = source_left st" using None assms(2) by (simp_all add: source_left_def)
    moreover have "batching_loop l script_poll mid = (out, st')"
      using assms(2,3) dr n m(2) by (simp add: batching_poll_next_def)
    ultimately show ?thesis
      using batching_loop_step [of mid l out st'] poll_step_rest [OF mid(2) [symmetric]] by (simp add: poll_less_def)
  qed
qed

text \<open>The answers to \<open>n\<close> polls, and the frames among them.\<close>

fun poll_run :: "('s, 'i) poll_fn \<Rightarrow> nat \<Rightarrow> 's \<Rightarrow> 'i option poll list" where
  "poll_run poll 0 s = []"
| "poll_run poll (Suc n) s = (let (r, s') = poll s in r # poll_run poll n s')"

fun delivered :: "'i option poll list \<Rightarrow> 'i list" where
  "delivered [] = []"
| "delivered (Ready (Some f) # rs) = f # delivered rs"
| "delivered (_ # rs) = delivered rs"

lemma done_delivers_nothing: "bs_done st \<Longrightarrow> delivered (poll_run (batching_poll_next l poll) n st) = []"
  by (induction n) (simp_all add: batching_poll_next_def)

lemma delivered_all:
  assumes "stream_inv st" and "\<not> bs_done st"
  shows "\<exists>N. \<forall>k. \<exists>ds. delivered (poll_run (batching_poll_next l script_poll) (N + k) st) =
    map DataFrame ds @ [the (snd (stream_rest l st))] \<and> concat ds = fst (stream_rest l st)"
  using assms
proof (induction st rule: wf_induct_rule [OF poll_less_wf])
  case (1 st)
  obtain out st' where p: "batching_poll_next l script_poll st = (out, st')" by fastforce
  note step = batching_poll_step [OF "1.prems" p]
  have inv: "stream_inv st'" using step by (simp add: poll_step_def)
  note IH = "1.IH" [OF step [THEN conjunct2] inv]
  show ?case
  proof (cases out)
    case Pending
    then have "\<not> bs_done st'" "stream_rest l st' = stream_rest l st" using step by (simp_all add: poll_step_def)
    with IH obtain N where N: "\<forall>k. \<exists>ds. delivered (poll_run (batching_poll_next l script_poll) (N + k) st') =
        map DataFrame ds @ [the (snd (stream_rest l st))] \<and> concat ds = fst (stream_rest l st)" by auto
    then show ?thesis using p Pending by (intro exI [of _ "Suc N"]) simp
  next
    case (Ready r)
    then obtain f where r: "r = Some f" and del: "delivers l st f st'"
      using step by (cases r) (simp_all add: poll_step_def)
    show ?thesis
    proof (cases "bs_done st'")
      case True
      then have "stream_rest l st = ([], Some f)" using del by (auto simp: delivers_def)
      then show ?thesis
        using p Ready r done_delivers_nothing [OF True] by (intro exI [of _ 1]) simp
    next
      case False
      with del obtain d where d: "f = DataFrame d" "fst (stream_rest l st) = d @ fst (stream_rest l st')"
        "snd (stream_rest l st) = snd (stream_rest l st')" by (auto simp: delivers_def)
      from IH [OF False] obtain N where N: "\<forall>k. \<exists>ds. delivered (poll_run (batching_poll_next l script_poll) (N + k) st') =
        map DataFrame ds @ [the (snd (stream_rest l st'))] \<and> concat ds = fst (stream_rest l st')" ..
      have "\<exists>ds. delivered (poll_run (batching_poll_next l script_poll) (Suc N + k) st) =
        map DataFrame ds @ [the (snd (stream_rest l st))] \<and> concat ds = fst (stream_rest l st)" for k
      proof -
        from N obtain ds where "delivered (poll_run (batching_poll_next l script_poll) (N + k) st') =
          map DataFrame ds @ [the (snd (stream_rest l st'))]" "concat ds = fst (stream_rest l st')" by blast
        then show ?thesis using p Ready r d by (intro exI [of _ "d # ds"]) simp
      qed
      then show ?thesis by blast
    qed
  qed
qed

lemma streaming_body_delivered:
  "\<exists>N. \<forall>k. \<exists>ds.
     delivered (poll_run (batching_poll_next l script_poll) (N + k) (streaming_body_new script trailers p compression policy)) =
       map DataFrame ds @ [snd (stream_spec l \<lparr>enc_compression = compression, enc_policy = policy\<rparr> (finalizer_for p) trailers (script_items script))] \<and>
     concat ds = fst (stream_spec l \<lparr>enc_compression = compression, enc_policy = policy\<rparr> (finalizer_for p) trailers (script_items script))"
proof -
  let ?st = "streaming_body_new script trailers p compression policy"
  have "stream_inv ?st" "\<not> bs_done ?st"
    "stream_rest l ?st = (let (bs, f) = stream_spec l \<lparr>enc_compression = compression, enc_policy = policy\<rparr> (finalizer_for p) trailers (script_items script) in (bs, Some f))"
    by (simp_all add: streaming_body_new_def batching_new_def stream_inv_def stream_rest_def split: prod.splits)
  then show ?thesis using delivered_all [of ?st l] by (simp add: case_prod_beta Let_def)
qed


section \<open>The body of a gRPC unary response\<close>

datatype grpc_unary_trailers = Http2 headers | WebBody bytes

record grpc_unary_body =
  gub_data :: "bytes option"
  gub_payload :: "bytes list"
  gub_trailers :: "grpc_unary_trailers option"

definition grpc_unary_poll_frame :: "(grpc_unary_body, http_frame) poll_fn" where
  "grpc_unary_poll_frame b =
     (case gub_data b of
        Some d \<Rightarrow> (Ready (Some (DataFrame d)), b\<lparr>gub_data := None\<rparr>)
      | None \<Rightarrow>
          (case gub_payload b of
             p # ps \<Rightarrow> (Ready (Some (DataFrame p)), b\<lparr>gub_payload := ps\<rparr>)
           | [] \<Rightarrow>
               (case gub_trailers b of
                  Some (Http2 m) \<Rightarrow> (Ready (Some (TrailersFrame m)), b\<lparr>gub_trailers := None\<rparr>)
                | Some (WebBody d) \<Rightarrow> (Ready (Some (DataFrame d)), b\<lparr>gub_trailers := None\<rparr>)
                | None \<Rightarrow> (Ready None, b))))"

definition grpc_unary_frames :: "grpc_unary_body \<Rightarrow> http_frame list" where
  "grpc_unary_frames b =
     (case gub_data b of Some d \<Rightarrow> [DataFrame d] | None \<Rightarrow> []) @ map DataFrame (gub_payload b) @
     (case gub_trailers b of Some (Http2 m) \<Rightarrow> [TrailersFrame m] | Some (WebBody d) \<Rightarrow> [DataFrame d] | None \<Rightarrow> [])"

lemma grpc_unary_delivered:
  "delivered (poll_run grpc_unary_poll_frame (length (grpc_unary_frames b) + k) b) = grpc_unary_frames b"
proof (induction "length (grpc_unary_frames b)" arbitrary: b)
  case 0
  then have "grpc_unary_poll_frame b = (Ready None, b)"
    by (auto simp: grpc_unary_frames_def grpc_unary_poll_frame_def split: option.splits grpc_unary_trailers.splits)
  then have "delivered (poll_run grpc_unary_poll_frame k b) = []" by (induction k) simp_all
  then show ?case using 0 by simp
next
  case (Suc n)
  have "\<exists>f b'. grpc_unary_poll_frame b = (Ready (Some f), b') \<and> grpc_unary_frames b = f # grpc_unary_frames b'"
  proof (cases "gub_data b")
    case None
    then show ?thesis
      using Suc(2)
      by (cases "gub_payload b"; cases "gub_trailers b"; cases "the (gub_trailers b)")
        (simp_all add: grpc_unary_frames_def grpc_unary_poll_frame_def)
  qed (simp add: grpc_unary_frames_def grpc_unary_poll_frame_def)
  then obtain f b' where "grpc_unary_poll_frame b = (Ready (Some f), b')" "grpc_unary_frames b = f # grpc_unary_frames b'"
    by blast
  then show ?case using Suc(1) [of b'] Suc(2) by simp
qed

end
