(* ===== verification/RequestStream.thy ===== *)
theory RequestStream
  imports ResponseStream
begin

text \<open>
  The request side of client-streaming and bidirectional calls (\<^verbatim>\<open>decode_request_body\<close>,
  \<^verbatim>\<open>RequestBodyStream\<close>, \<^verbatim>\<open>request_body_drain\<close> and \<^verbatim>\<open>Drained\<close> of \<^verbatim>\<open>connectrpc/src/service.rs\<close>).
  The transport's body is a poll function whose items are frames or read errors, with
  \<^verbatim>\<open>Body::is_end_stream\<close> a second function. A poll of the stream loops over body frames that
  carry no complete message, so it is a partial function: \<open>None\<close> is a poll that never returns.
  The field \<open>rs_drain\<close> records the drain task a finished stream spawns.
\<close>

section \<open>Draining\<close>

definition MAX_DRAIN_BYTES :: usize where "MAX_DRAIN_BYTES = 1024 * 1024"

record drained =
  drained_bytes :: usize
  drained_warn_trailing :: bool

datatype control_flow = Break | Continue

definition drained_add :: "usize \<Rightarrow> drained \<Rightarrow> control_flow \<times> drained" where
  "drained_add len d =
     (let d' = d\<lparr>drained_warn_trailing := False, drained_bytes := saturating_add (drained_bytes d) len\<rparr>
      in (if drained_bytes d' > MAX_DRAIN_BYTES then Break else Continue, d'))"

record 'b drain_task =
  drain_body :: 'b
  drain_count :: drained

definition request_body_drain :: "('b \<Rightarrow> bool) \<Rightarrow> 'b \<Rightarrow> usize \<Rightarrow> bool \<Rightarrow> 'b drain_task option" where
  "request_body_drain body_ended body discarded warn_trailing =
     (let d0 = \<lparr>drained_bytes = 0, drained_warn_trailing = warn_trailing\<rparr>;
          (flow, d) = (if discarded > 0 then drained_add discarded d0 else (Continue, d0))
      in if flow = Break then None
         else if body_ended body then None
         else Some \<lparr>drain_body = body, drain_count = d\<rparr>)"

text \<open>
  One turn of the drain's loop: the timer is looked at first, then one frame. \<open>None\<close> when the
  task has ended, with the bytes it discarded.
\<close>

datatype 'b drain_outcome = DrainEnded usize | DrainWaits "'b drain_task" | DrainGoesOn "'b drain_task"

definition drain_turn ::
    "bool \<Rightarrow> ('b, (http_frame, string) result) poll_fn \<Rightarrow> 'b drain_task \<Rightarrow> 'b drain_outcome" where
  "drain_turn timer_fired poll t =
     (if timer_fired then DrainEnded (drained_bytes (drain_count t))
      else (case poll (drain_body t) of
              (Pending, b) \<Rightarrow> DrainWaits (t\<lparr>drain_body := b\<rparr>)
            | (Ready None, b) \<Rightarrow> DrainEnded (drained_bytes (drain_count t))
            | (Ready (Some (Err e)), b) \<Rightarrow> DrainEnded (drained_bytes (drain_count t))
            | (Ready (Some (Ok frame)), b) \<Rightarrow>
                (let data = (case frame of DataFrame d \<Rightarrow> d | TrailersFrame _ \<Rightarrow> []) in
                 if data \<noteq> [] then
                   (case drained_add (length data) (drain_count t) of
                      (Break, d) \<Rightarrow> DrainEnded (drained_bytes d)
                    | (Continue, d) \<Rightarrow> DrainGoesOn (t\<lparr>drain_body := b, drain_count := d\<rparr>))
                 else DrainGoesOn (t\<lparr>drain_body := b\<rparr>))))"

section \<open>The request stream\<close>

record 'b decode_state =
  dst_body :: 'b
  dst_decoder :: envelope_decoder
  dst_frame :: bytes

record 'b request_body_stream =
  rs_decoding :: "'b decode_state option"
  rs_drain :: "'b drain_task option"

definition decode_request_body ::
    "'b \<Rightarrow> usize \<Rightarrow> string option \<Rightarrow> compression_registry \<Rightarrow> 'b request_body_stream" where
  "decode_request_body body max_size encoding compression =
     \<lparr>rs_decoding = Some \<lparr>dst_body = body, dst_decoder = decoder_new max_size encoding compression, dst_frame = []\<rparr>,
      rs_drain = None\<rparr>"

definition request_stream_finish :: "('b \<Rightarrow> bool) \<Rightarrow> bool \<Rightarrow> 'b request_body_stream \<Rightarrow> 'b request_body_stream" where
  "request_stream_finish body_ended end_stream st =
     (case rs_decoding st of
        None \<Rightarrow> st
      | Some d \<Rightarrow> \<lparr>rs_decoding = None,
          rs_drain = request_body_drain body_ended (dst_body d) (length (dst_frame d)) end_stream\<rparr>)"

definition request_stream_drop :: "('b \<Rightarrow> bool) \<Rightarrow> 'b request_body_stream \<Rightarrow> 'b request_body_stream" where
  "request_stream_drop body_ended st = request_stream_finish body_ended False st"

definition frame_data :: "http_frame \<Rightarrow> bytes \<Rightarrow> bytes" where
  "frame_data fr old = (case fr of DataFrame d \<Rightarrow> d | TrailersFrame _ \<Rightarrow> old)"

partial_function (option) request_poll_next ::
    "('b, (http_frame, string) result) poll_fn \<Rightarrow> ('b \<Rightarrow> bool) \<Rightarrow> 'b request_body_stream \<Rightarrow>
     (bytes connect_result option poll \<times> 'b request_body_stream) option" where
  "request_poll_next poll body_ended st =
     (case rs_decoding st of
        None \<Rightarrow> Some (Ready None, st)
      | Some ds \<Rightarrow>
          (case decoder_decode (dst_decoder ds) (dst_frame ds) of
             (Ok (Some (Message data)), dec, frame) \<Rightarrow>
               Some (Ready (Some (Ok data)), st\<lparr>rs_decoding := Some (ds\<lparr>dst_decoder := dec, dst_frame := frame\<rparr>)\<rparr>)
           | (Ok (Some EndStream), dec, frame) \<Rightarrow>
               Some (Ready None, request_stream_finish body_ended True
                 (st\<lparr>rs_decoding := Some (ds\<lparr>dst_decoder := dec, dst_frame := frame\<rparr>)\<rparr>))
           | (Err e, dec, frame) \<Rightarrow>
               Some (Ready (Some (Err e)), request_stream_finish body_ended False
                 (st\<lparr>rs_decoding := Some (ds\<lparr>dst_decoder := dec, dst_frame := frame\<rparr>)\<rparr>))
           | (Ok None, dec, frame) \<Rightarrow>
               (case poll (dst_body ds) of
                  (Pending, b) \<Rightarrow>
                    Some (Pending, st\<lparr>rs_decoding := Some \<lparr>dst_body = b, dst_decoder = dec, dst_frame = frame\<rparr>\<rparr>)
                | (Ready (Some (Ok fr)), b) \<Rightarrow>
                    request_poll_next poll body_ended
                      (st\<lparr>rs_decoding := Some \<lparr>dst_body = b, dst_decoder = dec, dst_frame = frame_data fr frame\<rparr>\<rparr>)
                | (Ready (Some (Err e)), b) \<Rightarrow>
                    Some (Ready (Some (Err (internal (''failed to read request body: '' @ e)))), st\<lparr>rs_decoding := None\<rparr>)
                | (Ready None, b) \<Rightarrow>
                    Some (Ready (case decoder_finish dec of Ok _ \<Rightarrow> None | Err e \<Rightarrow> Some (Err e)),
                      st\<lparr>rs_decoding := None\<rparr>))))"

section \<open>What the handler reads\<close>

text \<open>The bytes a scripted body carries before it ends or fails, and its failure.\<close>

fun body_bytes :: "(http_frame, string) result poll list \<Rightarrow> bytes" where
  "body_bytes [] = []"
| "body_bytes (Pending # r) = body_bytes r"
| "body_bytes (Ready (Err e) # r) = []"
| "body_bytes (Ready (Ok fr) # r) = frame_data fr [] @ body_bytes r"

fun body_failure :: "(http_frame, string) result poll list \<Rightarrow> string option" where
  "body_failure [] = None"
| "body_failure (Pending # r) = body_failure r"
| "body_failure (Ready (Err e) # r) = Some e"
| "body_failure (Ready (Ok fr) # r) = body_failure r"

text \<open>
  The specification: the messages that decoding the whole body gives before an end-of-stream
  envelope, then the first of: that envelope (a clean end), a decoding error, the body's own
  failure, an incomplete envelope, a clean end.
\<close>

definition message_of :: "decoded \<Rightarrow> bytes" where
  "message_of d = (case d of Message m \<Rightarrow> m | EndStream \<Rightarrow> [])"

definition request_items ::
    "string option \<Rightarrow> compression_registry \<Rightarrow> usize \<Rightarrow> bytes \<Rightarrow> string option \<Rightarrow> bytes connect_result list" where
  "request_items enc r M w failure =
     (let (items, res) = decode_all (message_decode enc r M) w
      in map (\<lambda>d. Ok (message_of d)) (takeWhile (\<lambda>d. d \<noteq> EndStream) items) @
         (if EndStream \<in> set items then []
          else case res of
                 Err e \<Rightarrow> [Err e]
               | Ok rest \<Rightarrow>
                   (case failure of
                      Some e \<Rightarrow> [Err (internal (''failed to read request body: '' @ e))]
                    | None \<Rightarrow> (if rest = [] then [] else [Err (invalid_argument ''incomplete request envelope'')]))))"

definition items_left ::
    "string option \<Rightarrow> compression_registry \<Rightarrow> usize \<Rightarrow> (http_frame, string) result poll list request_body_stream \<Rightarrow>
     bytes connect_result list" where
  "items_left enc r M st =
     (case rs_decoding st of
        None \<Rightarrow> []
      | Some ds \<Rightarrow> request_items enc r M (decoder_pend (dst_decoder ds) @ dst_frame ds @ body_bytes (dst_body ds))
                    (body_failure (dst_body ds)))"

fun script_weight :: "(http_frame, string) result poll list \<Rightarrow> nat" where
  "script_weight [] = 0"
| "script_weight (Ready (Ok fr) # r) = Suc (length (frame_data fr []) + script_weight r)"
| "script_weight (_ # r) = Suc (script_weight r)"

definition stream_weight :: "(http_frame, string) result poll list request_body_stream \<Rightarrow> nat" where
  "stream_weight st =
     (case rs_decoding st of None \<Rightarrow> 0 | Some ds \<Rightarrow> Suc (script_weight (dst_body ds) + length (dst_frame ds)))"

definition rs_inv :: "string option \<Rightarrow> compression_registry \<Rightarrow> usize \<Rightarrow> 'b request_body_stream \<Rightarrow> bool" where
  "rs_inv enc r M st \<longleftrightarrow> (\<forall>ds. rs_decoding st = Some ds \<longrightarrow> decoder_inv enc r M (dst_decoder ds))"

lemma rs_inv_ended [simp]: "rs_decoding st = None \<Longrightarrow> rs_inv enc r M st"
  by (simp add: rs_inv_def)

lemma request_items_item:
  assumes "message_decode enc r M w = Ok (Some (i, rest))"
  shows "request_items enc r M (w @ v) f =
    (case i of EndStream \<Rightarrow> [] | Message m \<Rightarrow> Ok m # request_items enc r M (rest @ v) f)"
  using message_frames.decode_all_item [OF message_frames.dec_item_stable [OF assms, of v]]
  by (cases i) (auto simp: request_items_def message_of_def Let_def split: prod.splits)

lemma request_items_err:
  "message_decode enc r M w = Err e \<Longrightarrow> request_items enc r M (w @ v) f = [Err e]"
  by (simp add: request_items_def message_frames.decode_all_Err [OF message_frames.dec_err_stable])

lemma request_items_end:
  assumes "message_decode enc r M w = Ok None"
  shows "request_items enc r M w None = (if w = [] then [] else [Err (invalid_argument ''incomplete request envelope'')])"
    and "request_items enc r M w (Some e) = [Err (internal (''failed to read request body: '' @ e))]"
  using assms by (simp_all add: request_items_def message_frames.decode_all_more)

definition request_step ::
    "string option \<Rightarrow> compression_registry \<Rightarrow> usize \<Rightarrow> (http_frame, string) result poll list request_body_stream \<Rightarrow>
     bytes connect_result option poll \<Rightarrow> (http_frame, string) result poll list request_body_stream \<Rightarrow> bool" where
  "request_step enc r M st out st' \<longleftrightarrow> rs_inv enc r M st' \<and> stream_weight st' < stream_weight st \<and>
     (case out of
        Pending \<Rightarrow> items_left enc r M st' = items_left enc r M st
      | Ready None \<Rightarrow> items_left enc r M st = [] \<and> items_left enc r M st' = []
      | Ready (Some i) \<Rightarrow> items_left enc r M st = i # items_left enc r M st')"

lemma finish_ended [simp]: "rs_decoding (request_stream_finish b e st) = None"
  by (simp add: request_stream_finish_def split: option.splits)

text \<open>One poll, by what the decoder makes of the bytes at hand: an item, an error, or the need for more.\<close>

lemma items_left_decoding:
  "rs_decoding st = Some ds \<Longrightarrow> items_left enc r M st =
     request_items enc r M ((decoder_pend (dst_decoder ds) @ dst_frame ds) @ body_bytes (dst_body ds)) (body_failure (dst_body ds))"
  "rs_decoding st = Some ds \<Longrightarrow> stream_weight st = Suc (script_weight (dst_body ds) + length (dst_frame ds))"
  by (simp_all add: items_left_def stream_weight_def)

lemma request_poll_err:
  assumes "decoder_inv enc r M (dst_decoder ds)" and "rs_decoding st = Some ds"
    and "message_decode enc r M (decoder_pend (dst_decoder ds) @ dst_frame ds) = Err e"
  shows "\<exists>out st'. request_poll_next script_poll ended st = Some (out, st') \<and> request_step enc r M st out st'"
proof -
  obtain dec frame where "decoder_decode (dst_decoder ds) (dst_frame ds) = (Err e, dec, frame)"
    using message_frames.feed_err [OF assms(1,3)] by (cases "decoder_decode (dst_decoder ds) (dst_frame ds)") auto
  then show ?thesis
    using assms(2) items_left_decoding [OF assms(2)] request_items_err [OF assms(3)] request_poll_next.simps [of script_poll ended st]
    by (simp add: request_step_def items_left_def stream_weight_def)
qed

lemma request_poll_item:
  assumes "decoder_inv enc r M (dst_decoder ds)" and "rs_decoding st = Some ds"
    and "message_decode enc r M (decoder_pend (dst_decoder ds) @ dst_frame ds) = Ok (Some (i, rest))"
  shows "\<exists>out st'. request_poll_next script_poll ended st = Some (out, st') \<and> request_step enc r M st out st'"
proof -
  obtain dec where "decoder_decode (dst_decoder ds) (dst_frame ds) = (Ok (Some i), dec, rest)" "decoder_inv enc r M dec"
      "decoder_pend dec = []" "length rest < length (dst_frame ds)"
    using message_frames.feed_item [OF assms(1,3)] by blast
  then show ?thesis
    using assms(2) items_left_decoding [OF assms(2)] request_items_item [OF assms(3)] request_poll_next.simps [of script_poll ended st]
    by (cases i) (simp_all add: request_step_def items_left_def stream_weight_def rs_inv_def)
qed

lemma request_poll_more:
  assumes "decoder_inv enc r M (dst_decoder ds)" and "rs_decoding st = Some ds"
    and "message_decode enc r M (decoder_pend (dst_decoder ds) @ dst_frame ds) = Ok None"
    and IH: "\<And>ds' st'. length (dst_body ds') < length (dst_body ds) \<Longrightarrow> rs_inv enc r M st' \<Longrightarrow> rs_decoding st' = Some ds' \<Longrightarrow>
      \<exists>out st''. request_poll_next script_poll ended st' = Some (out, st'') \<and> request_step enc r M st' out st''"
  shows "\<exists>out st'. request_poll_next script_poll ended st = Some (out, st') \<and> request_step enc r M st out st'"
proof -
  obtain dec where dec: "decoder_decode (dst_decoder ds) (dst_frame ds) = (Ok None, dec, [])" "decoder_inv enc r M dec"
      "decoder_pend dec = decoder_pend (dst_decoder ds) @ dst_frame ds"
    using message_frames.feed_more [OF assms(1,3)] by blast
  note unf = request_poll_next.simps [of script_poll ended st]
  note left = items_left_decoding [OF assms(2)]
  consider (at_end) "dst_body ds = []" | (frame) fr b where "dst_body ds = Ready (Ok fr) # b"
    | (waits) b where "dst_body ds = Pending # b" | (fails) e b where "dst_body ds = Ready (Err e) # b"
    by (cases "dst_body ds" rule: script_weight.cases)
  then show ?thesis
  proof cases
    case at_end
    then show ?thesis
      using assms(2) left unf dec decoder_finish_iff [OF dec(2)] request_items_end(1) [OF assms(3)]
      by (auto simp: request_step_def items_left_def stream_weight_def split: if_splits)
  next
    case (frame fr b)
    let ?ds = "\<lparr>dst_body = b, dst_decoder = dec, dst_frame = frame_data fr []\<rparr>"
    let ?st = "st\<lparr>rs_decoding := Some ?ds\<rparr>"
    obtain out st' where IH': "request_poll_next script_poll ended ?st = Some (out, st')" "request_step enc r M ?st out st'"
      using IH [of ?ds ?st] frame dec(2) by (auto simp: rs_inv_def)
    have "items_left enc r M ?st = items_left enc r M st" "stream_weight ?st \<le> stream_weight st"
      using left frame dec(3) by (simp_all add: items_left_def stream_weight_def)
    then have "request_step enc r M st out st'" using IH'(2) by (auto simp: request_step_def split: poll.splits option.splits)
    moreover have "request_poll_next script_poll ended st = Some (out, st')"
      using assms(2) unf dec(1) frame IH'(1) by simp
    ultimately show ?thesis by blast
  next
    case waits
    then show ?thesis
      using assms(2) left unf dec by (simp add: request_step_def items_left_def stream_weight_def rs_inv_def)
  next
    case fails
    then show ?thesis
      using assms(2) left unf dec request_items_end(2) [OF assms(3)]
      by (simp add: request_step_def items_left_def stream_weight_def)
  qed
qed

lemma request_poll_step:
  assumes "rs_inv enc r M st" and "rs_decoding st = Some ds"
  shows "\<exists>out st'. request_poll_next script_poll ended st = Some (out, st') \<and> request_step enc r M st out st'"
  using assms
proof (induction "dst_body ds" arbitrary: st ds rule: length_induct)
  case 1
  then have inv: "decoder_inv enc r M (dst_decoder ds)" by (simp add: rs_inv_def)
  have IH: "\<exists>out st''. request_poll_next script_poll ended st' = Some (out, st'') \<and> request_step enc r M st' out st''"
    if "length (dst_body ds') < length (dst_body ds)" "rs_inv enc r M st'" "rs_decoding st' = Some ds'" for ds' st'
    using "1.hyps" that by blast
  consider e where "message_decode enc r M (decoder_pend (dst_decoder ds) @ dst_frame ds) = Err e"
    | "message_decode enc r M (decoder_pend (dst_decoder ds) @ dst_frame ds) = Ok None"
    | i rest where "message_decode enc r M (decoder_pend (dst_decoder ds) @ dst_frame ds) = Ok (Some (i, rest))"
    by (metis option.exhaust prod.exhaust result.exhaust)
  then show ?case
    using request_poll_err [OF inv "1.prems"(2)] request_poll_item [OF inv "1.prems"(2)]
      request_poll_more [OF inv "1.prems"(2) _ IH] by cases blast+
qed

text \<open>The answers to \<open>n\<close> polls; \<open>None\<close> if one of them does not return.\<close>

fun poll_run_partial :: "('s \<Rightarrow> ('i option poll \<times> 's) option) \<Rightarrow> nat \<Rightarrow> 's \<Rightarrow> 'i option poll list option" where
  "poll_run_partial poll 0 s = Some []"
| "poll_run_partial poll (Suc n) s =
     (case poll s of None \<Rightarrow> None | Some (r, s') \<Rightarrow> map_option ((#) r) (poll_run_partial poll n s'))"

lemma ended_run:
  assumes "rs_decoding st = None"
  shows "poll_run_partial (request_poll_next poll ended) n st = Some (replicate n (Ready None))"
  using assms by (induction n) (simp_all add: request_poll_next.simps)

lemma delivered_nothing [simp]: "delivered (replicate n (Ready None)) = []"
  by (induction n) simp_all

lemma request_delivered:
  assumes "rs_inv enc r M st"
  shows "\<exists>outs. poll_run_partial (request_poll_next script_poll ended) (stream_weight st + k) st = Some outs \<and>
    delivered outs = items_left enc r M st"
  using assms
proof (induction "stream_weight st" arbitrary: st k rule: less_induct)
  case less
  show ?case
  proof (cases "rs_decoding st")
    case None
    then show ?thesis by (simp add: ended_run items_left_def)
  next
    case (Some ds)
    obtain out st' where p: "request_poll_next script_poll ended st = Some (out, st')" and step: "request_step enc r M st out st'"
      using request_poll_step [OF less.prems Some] by blast
    have inv: "rs_inv enc r M st'" and w: "stream_weight st' < stream_weight st" using step by (simp_all add: request_step_def)
    obtain j where j: "stream_weight st + k = Suc (stream_weight st' + j)" using w by (intro that [of "stream_weight st + k - Suc (stream_weight st')"]) simp
    from less.hyps [OF w inv, of j] obtain outs where
      o': "poll_run_partial (request_poll_next script_poll ended) (stream_weight st' + j) st' = Some outs"
      "delivered outs = items_left enc r M st'" by blast
    have "delivered (out # outs) = items_left enc r M st"
      using step o'(2) by (cases out rule: poll.exhaust) (auto simp: request_step_def split: option.splits poll.splits)
    then show ?thesis using p o'(1) by (simp add: j)
  qed
qed

lemma request_body_read:
  "\<exists>N. \<forall>k. \<exists>outs.
     poll_run_partial (request_poll_next script_poll ended) (N + k) (decode_request_body script M enc reg) = Some outs \<and>
     delivered outs = request_items enc reg M (body_bytes script) (body_failure script)"
proof -
  let ?st = "decode_request_body script M enc reg"
  have "rs_inv enc reg M ?st" by (simp add: rs_inv_def decode_request_body_def)
  from request_delivered [OF this] have
    "\<forall>k. \<exists>outs. poll_run_partial (request_poll_next script_poll ended) (stream_weight ?st + k) ?st = Some outs \<and>
      delivered outs = items_left enc reg M ?st" by blast
  moreover have "items_left enc reg M ?st = request_items enc reg M (body_bytes script) (body_failure script)"
    by (simp add: items_left_def decode_request_body_def)
  ultimately show ?thesis by auto
qed


section \<open>The drain is bounded\<close>

text \<open>The states a drain task goes through, whatever the timer and the body do.\<close>

inductive drains_to :: "'b drain_task \<Rightarrow> 'b drain_task \<Rightarrow> bool" for start where
  begin_drain: "drains_to start start"
| waits: "drains_to start t \<Longrightarrow> drain_turn fired poll t = DrainWaits t' \<Longrightarrow> drains_to start t'"
| goes_on: "drains_to start t \<Longrightarrow> drain_turn fired poll t = DrainGoesOn t' \<Longrightarrow> drains_to start t'"

lemma drained_add_Continue:
  "drained_add n d = (flow, d') \<Longrightarrow> flow \<noteq> Break \<Longrightarrow> drained_bytes d' \<le> MAX_DRAIN_BYTES"
  by (auto simp: drained_add_def Let_def split: if_splits)

lemma drain_turn_keeps:
  assumes "drained_bytes (drain_count t) \<le> MAX_DRAIN_BYTES"
    and "drain_turn fired poll t = DrainWaits t' \<or> drain_turn fired poll t = DrainGoesOn t'"
  shows "drained_bytes (drain_count t') \<le> MAX_DRAIN_BYTES"
  using assms
  by (auto simp: drain_turn_def Let_def drained_add_Continue
      split: if_splits prod.splits poll.splits option.splits result.splits control_flow.splits)

lemma drains_to_bounded:
  assumes "drains_to t0 t" and "drained_bytes (drain_count t0) \<le> MAX_DRAIN_BYTES"
  shows "drained_bytes (drain_count t) \<le> MAX_DRAIN_BYTES"
  using assms by (induction rule: drains_to.induct) (auto dest: drain_turn_keeps)

lemma drain_starts_bounded:
  "request_body_drain ended body n w = Some t \<Longrightarrow> drained_bytes (drain_count t) \<le> MAX_DRAIN_BYTES"
  by (auto simp: request_body_drain_def Let_def drained_add_Continue split: if_splits prod.splits)



end
