(* ===== verification/Service.thy ===== *)
theory Service
  imports RequestStream Get
begin

text \<open>
  The request handlers of the service (\<^verbatim>\<open>connectrpc/src/service.rs\<close>), from \<^verbatim>\<open>ConnectRpcService::call\<close>
  to the response. A request body is the script of its transport frames. What surrounds the
  service is a record \<open>server_env\<close> of its observable answers: the clock, the collection of a body
  under a limit (\<^verbatim>\<open>http_body_util::Limited\<close>), whether a deadline timer fires while the body is read
  or the handler runs (\<^verbatim>\<open>tokio::time\<close>), whether the response builder of the \<^verbatim>\<open>http\<close> crate accepts the
  headers, and the libraries of the trailer and GET components. Reading a body only to discard
  it has no effect on the response and is not repeated here. A panic is \<open>None\<close>.
\<close>

section \<open>Requests, responses and the environment\<close>

type_synonym http_body = "(http_frame, string) result poll list"

datatype http_method = GET | POST | OtherMethod string

fun method_name :: "http_method \<Rightarrow> string" where
  "method_name GET = ''GET''"
| "method_name POST = ''POST''"
| "method_name (OtherMethod s) = s"

record 'x http_request =
  req_method :: http_method
  req_path :: string
  req_query :: "string option"
  req_headers :: headers
  req_extensions :: 'x
  req_body :: http_body

record 'r http_response =
  hr_status :: nat
  hr_headers :: headers
  hr_body :: 'r

datatype collect_error = LengthLimit | BodyError string

record 'x server_env =
  env_now :: instant
  env_stream_now :: instant
  env_collect :: "http_body \<Rightarrow> usize \<Rightarrow> (bytes, collect_error) result"
  env_body_elapsed :: "instant \<Rightarrow> bool"
  env_call_elapsed :: "instant \<Rightarrow> bool"
  env_build_error :: "headers \<Rightarrow> string option"
  env_libs :: service_libs
  env_query :: query_ops
  env_json :: bool
  env_no_extensions :: 'x

record ('x, 'm) service =
  svc_dispatcher :: "('x, 'm) service_dispatcher"
  svc_limits :: limits
  svc_compression :: compression_registry
  svc_compression_policy :: compression_policy
  svc_deadline_policy :: deadline_policy
  svc_interceptors :: "('x, 'm) interceptor_chain"

definition service_from_arc :: "compression_registry \<Rightarrow> usize \<Rightarrow> ('x, 'm) service_dispatcher \<Rightarrow> ('x, 'm) service" where
  "service_from_arc default_registry element_limit d =
     \<lparr>svc_dispatcher = d, svc_limits = limits_default element_limit, svc_compression = default_registry,
      svc_compression_policy = policy_default, svc_deadline_policy = deadline_policy_new, svc_interceptors = []\<rparr>"

definition svc_with_limits :: "limits \<Rightarrow> ('x, 'm) service \<Rightarrow> ('x, 'm) service" where
  "svc_with_limits l s = s\<lparr>svc_limits := l\<rparr>"

definition svc_with_compression :: "compression_registry \<Rightarrow> ('x, 'm) service \<Rightarrow> ('x, 'm) service" where
  "svc_with_compression r s = s\<lparr>svc_compression := r\<rparr>"

definition svc_with_compression_policy :: "compression_policy \<Rightarrow> ('x, 'm) service \<Rightarrow> ('x, 'm) service" where
  "svc_with_compression_policy p s = s\<lparr>svc_compression_policy := p\<rparr>"

definition with_deadline_policy :: "deadline_policy \<Rightarrow> ('x, 'm) service \<Rightarrow> ('x, 'm) service" where
  "with_deadline_policy p s = s\<lparr>svc_deadline_policy := p\<rparr>"

definition with_interceptor :: "('x, 'm) interceptor \<Rightarrow> ('x, 'm) service \<Rightarrow> ('x, 'm) service" where
  "with_interceptor i s = s\<lparr>svc_interceptors := chain_push i (svc_interceptors s)\<rparr>"

section \<open>Request metadata and deadlines\<close>

record request_metadata =
  meta_content_type :: "string option"
  meta_timeout :: "duration option"
  meta_unary_encoding :: "string option"
  meta_streaming_encoding :: "string option"
  meta_unary_accept_encoding :: "string option"
  meta_streaming_accept_encoding :: "string option"
  meta_protocol_version :: "string option"
  meta_headers :: headers

definition metadata_from_headers :: "headers \<Rightarrow> protocol \<Rightarrow> request_metadata" where
  "metadata_from_headers h p =
     \<lparr>meta_content_type = hm_get_str h ''content-type'',
      meta_timeout = timeout_from_headers h p,
      meta_unary_encoding = hm_get_str h ''content-encoding'',
      meta_streaming_encoding = hm_get_str h (content_encoding_header p),
      meta_unary_accept_encoding = hm_get_str h ''accept-encoding'',
      meta_streaming_accept_encoding = hm_get_str h (accept_encoding_header_name p),
      meta_protocol_version = hm_get_str h ''connect-protocol-version'',
      meta_headers = h\<rparr>"

text \<open>Moderation never panics, so its value is taken where the service moderates.\<close>

definition moderated :: "deadline_policy \<Rightarrow> duration option \<Rightarrow> duration option" where
  "moderated p t = (case moderate p t of Some x \<Rightarrow> x | None \<Rightarrow> None)"

definition collect_body_limited :: "'x server_env \<Rightarrow> http_body \<Rightarrow> usize \<Rightarrow> bytes connect_result" where
  "collect_body_limited env body limit =
     (case env_collect env body limit of
        Ok b \<Rightarrow> Ok b
      | Err LengthLimit \<Rightarrow> Err (resource_exhausted (''request body size exceeds limit '' @ show_nat limit))
      | Err (BodyError e) \<Rightarrow> Err (internal (''failed to read request body: '' @ e)))"

definition with_request_deadline :: "(instant \<Rightarrow> bool) \<Rightarrow> instant option \<Rightarrow> 'a connect_result \<Rightarrow> 'a connect_result" where
  "with_request_deadline elapsed deadline outcome =
     (case deadline of
        Some d \<Rightarrow> (if elapsed d then Err (deadline_exceeded ''request timeout'') else outcome)
      | None \<Rightarrow> outcome)"

section \<open>Response heads and error responses\<close>

definition append_headers :: "headers \<Rightarrow> headers \<Rightarrow> headers" where
  "append_headers extra h = fold (\<lambda>(k, v) h. hm_append k v h) (hm_iter extra) h"

definition response_head ::
    "string \<Rightarrow> string \<Rightarrow> string option \<Rightarrow> string \<Rightarrow> compression_registry \<Rightarrow> headers" where
  "response_head content_type encoding_header encoding accept_header compression =
     (let h = hm_append ''content-type'' content_type hm_new;
          h = (case encoding of Some e \<Rightarrow> hm_append encoding_header e h | None \<Rightarrow> h)
      in (case accept_encoding compression of Some a \<Rightarrow> hm_append accept_header a h | None \<Rightarrow> h))"

datatype streaming_body =
    OnceFrame http_frame
  | EmptyStream
  | Batching "encoded_stream response_stream batching_stream"

datatype connect_rpc_body = FullBody bytes | GrpcUnaryBody grpc_unary_body | StreamingBody streaming_body

definition error_response :: "'x server_env \<Rightarrow> connect_error \<Rightarrow> bytes http_response" where
  "error_response env err =
     (let h = add_trailers (echo_error_headers (hm_append ''content-type'' content_type_JSON hm_new) err) (err_trailers err)
      in if env_build_error env h = None
         then \<lparr>hr_status = http_status err, hr_headers = h, hr_body = lib_error_json (env_libs env) err\<rparr>
         else \<lparr>hr_status = 500, hr_headers = hm_new, hr_body = []\<rparr>)"

definition connect_streaming_error_response ::
    "'x server_env \<Rightarrow> connect_error \<Rightarrow> codec_format \<Rightarrow> streaming_body http_response" where
  "connect_streaming_error_response env err codec =
     (let h = echo_error_headers (hm_append ''content-type'' (response_content_type Connect codec True) hm_new) err
      in if env_build_error env h = None
         then \<lparr>hr_status = 200, hr_headers = h,
               hr_body = OnceFrame (end_stream_frame (env_libs env) (end_stream_failure err (err_trailers err)))\<rparr>
         else \<lparr>hr_status = 200, hr_headers = hm_new, hr_body = EmptyStream\<rparr>)"

text \<open>The head of a trailers-only response, shared by the streaming and the unary form.\<close>

definition trailers_only_head :: "'x server_env \<Rightarrow> connect_error \<Rightarrow> protocol \<Rightarrow> codec_format \<Rightarrow> headers" where
  "trailers_only_head env err p codec =
     (let t = lib_text (env_libs env);
          h = hm_append ''content-type'' (response_content_type p codec True) hm_new;
          h = (if p = Grpc then
                 (let h = hm_append GRPC_STATUS (show_nat (unat (grpc_code (err_code err)))) h
                  in case Option.bind (err_message err) (\<lambda>m. value_from_str t (grpc_percent_encode t m)) of
                       Some val \<Rightarrow> hm_append GRPC_MESSAGE val h | None \<Rightarrow> h)
               else h)
      in echo_error_headers h err)"

definition error_trailers :: "'x server_env \<Rightarrow> connect_error \<Rightarrow> headers" where
  "error_trailers env err =
     build_grpc_trailers (lib_text (env_libs env)) (lib_wire (env_libs env)) (Some err) (err_trailers err)"

definition grpc_error_response ::
    "'x server_env \<Rightarrow> connect_error \<Rightarrow> protocol \<Rightarrow> codec_format \<Rightarrow> streaming_body http_response option" where
  "grpc_error_response env err p codec =
     (case p of
        Connect \<Rightarrow> None
      | _ \<Rightarrow>
          (let frame = (if p = Grpc then TrailersFrame (error_trailers env err)
                        else DataFrame (encode_grpc_web_trailers (error_trailers env err)));
               h = trailers_only_head env err p codec
           in Some (if env_build_error env h = None
                    then \<lparr>hr_status = 200, hr_headers = h, hr_body = OnceFrame frame\<rparr>
                    else \<lparr>hr_status = 200, hr_headers = hm_new, hr_body = EmptyStream\<rparr>)))"

definition streaming_error_response ::
    "'x server_env \<Rightarrow> connect_error \<Rightarrow> protocol \<Rightarrow> codec_format \<Rightarrow> streaming_body http_response option" where
  "streaming_error_response env err p codec =
     (case p of
        Connect \<Rightarrow> Some (connect_streaming_error_response env err codec)
      | _ \<Rightarrow> grpc_error_response env err p codec)"

definition map_response :: "('a \<Rightarrow> 'b) \<Rightarrow> 'a http_response \<Rightarrow> 'b http_response" where
  "map_response f r = \<lparr>hr_status = hr_status r, hr_headers = hr_headers r, hr_body = f (hr_body r)\<rparr>"

definition error_response_either :: "'x server_env \<Rightarrow> connect_error \<Rightarrow> connect_rpc_body http_response" where
  "error_response_either env err = map_response FullBody (error_response env err)"

definition into_http_response ::
    "'x server_env \<Rightarrow> connect_error \<Rightarrow> headers \<Rightarrow> connect_rpc_body http_response option" where
  "into_http_response env err request_headers =
     (case detect (env_json env) request_headers of
        Some rp \<Rightarrow>
          (if rp_is_streaming rp
           then map_option (map_response StreamingBody)
                  (streaming_error_response env err (rp_protocol rp) (rp_codec_format rp))
           else Some (error_response_either env err))
      | None \<Rightarrow> Some (error_response_either env err))"

section \<open>Connect unary calls\<close>

definition handler_context ::
    "'x server_env \<Rightarrow> request_metadata \<Rightarrow> instant option \<Rightarrow> 'x \<Rightarrow> spec option \<Rightarrow> protocol \<Rightarrow> string \<Rightarrow> limits \<Rightarrow> 'x request_context" where
  "handler_context env meta deadline x s p path l =
     ctx_with_decode_options (Some (element_memory_limit l)) (ctx_with_path (''/'' @ path)
       (ctx_with_protocol (Some p) (ctx_with_spec s (ctx_with_extensions x (ctx_with_deadline deadline
         (request_context_new (env_no_extensions env) (meta_headers meta)))))))"

text \<open>The request message and its codec, from the query of a GET or the body of a POST.\<close>

definition unary_request_message ::
    "'x server_env \<Rightarrow> ('x, 'm) service \<Rightarrow> method_descriptor \<Rightarrow> request_metadata \<Rightarrow> 'x http_request \<Rightarrow> bytes \<Rightarrow>
     (bytes \<times> codec_format) connect_result" where
  "unary_request_message env svc desc meta req post_body =
     (let limits = svc_limits svc; compression = svc_compression svc in
      case req_method req of
        GET \<Rightarrow>
          (if \<not> md_idempotent desc
           then Err (method_not_allowed ''GET requests are only supported for idempotent methods'')
           else
             result_bind (parse_get_query_params (req_query req)) (\<lambda>params.
             if gq_connect_version params \<noteq> None \<and> gq_connect_version params \<noteq> Some ''v1''
             then Err (invalid_argument ''unsupported protocol version'')
             else
               result_bind (decode_get_message (env_query env) params compression (max_message_size limits)) (\<lambda>message.
               let encoding = (case gq_encoding params of Some e \<Rightarrow> e | None \<Rightarrow> ''proto'') in
               result_bind (ok_or (from_codec (env_json env) encoding)
                   (unsupported_media_type (''unsupported encoding: '' @ encoding))) (\<lambda>codec.
               Ok (message, codec)))))
      | POST \<Rightarrow>
          (if meta_protocol_version meta \<noteq> None \<and> meta_protocol_version meta \<noteq> Some ''1''
           then Err (invalid_argument ''unsupported protocol version'')
           else
             (let ct = (case meta_content_type meta of Some c \<Rightarrow> c | None \<Rightarrow> content_type_PROTO) in
              result_bind (ok_or (codec_from_content_type (env_json env) ct)
                  (unsupported_media_type (''unsupported content type: '' @ ct))) (\<lambda>codec.
              result_bind (case meta_unary_encoding meta of
                             Some e \<Rightarrow> registry_decompress_with_limit compression e post_body (max_message_size limits)
                           | None \<Rightarrow> Ok post_body) (\<lambda>body.
              if length body > max_message_size limits
              then Err (resource_exhausted (''message size '' @ show_nat (length body) @ '' exceeds limit '' @
                     show_nat (max_message_size limits)))
              else Ok (body, codec)))))
      | OtherMethod _ \<Rightarrow> Err (method_not_allowed ''only GET and POST methods are supported''))"

text \<open>Compressing a unary body, falling back to the plain bytes when the provider fails.\<close>

definition compress_unary_body ::
    "compression_registry \<Rightarrow> compression_policy \<Rightarrow> string option \<Rightarrow> encoded_body \<Rightarrow> bytes \<times> string option" where
  "compress_unary_body compression policy encoding body =
     (let flat = into_contiguous body in
      case encoding of
        Some e \<Rightarrow>
          (if should_compress policy (body_len body)
           then (case registry_compress compression e flat of Ok c \<Rightarrow> (c, Some e) | Err _ \<Rightarrow> (flat, None))
           else (flat, None))
      | None \<Rightarrow> (flat, None))"

definition unary_response_head ::
    "compression_registry \<Rightarrow> codec_format \<Rightarrow> string option \<Rightarrow> encoded_response \<Rightarrow> headers" where
  "unary_response_head compression codec content_encoding resp =
     add_trailers (append_headers (resp_headers resp)
       (response_head (codec_content_type codec) ''content-encoding'' content_encoding ''accept-encoding'' compression))
       (resp_trailers resp)"

definition handle_unary_request ::
    "'x server_env \<Rightarrow> ('m, 't) message_ops \<Rightarrow> ('x, 'm) service \<Rightarrow> string \<Rightarrow> method_descriptor option \<Rightarrow> 'x http_request \<Rightarrow>
     bytes http_response connect_result" where
  "handle_unary_request env q svc path desc req =
     (let meta = metadata_from_headers (req_headers req) Connect;
          deadline = absolute_deadline (env_now env) (moderated (svc_deadline_policy svc) (meta_timeout meta));
          limits = svc_limits svc; compression = svc_compression svc
      in
      result_bind (with_request_deadline (env_body_elapsed env) deadline
          (collect_body_limited env (req_body req) (max_request_body_size limits))) (\<lambda>post_body.
      result_bind (ok_or desc (with_http_status 404 (unimplemented (''method not found: '' @ path)))) (\<lambda>desc.
      result_bind (unary_request_message env svc desc meta req post_body) (\<lambda>(body, codec).
      let ctx = handler_context env meta deadline (req_extensions req) (md_spec desc) Connect path limits in
      result_bind (with_request_deadline (env_call_elapsed env) deadline
          (call_unary_intercepted q (svc_dispatcher svc) (svc_interceptors svc) path ctx body codec)) (\<lambda>resp.
      let encoding = negotiate_encoding compression (meta_unary_accept_encoding meta) (meta_unary_encoding meta);
          (final_body, content_encoding) = compress_unary_body compression
            (with_override (svc_compression_policy svc) (resp_compress resp)) encoding (resp_body resp);
          h = unary_response_head compression codec content_encoding resp
      in case env_build_error env h of
           None \<Rightarrow> Ok \<lparr>hr_status = 200, hr_headers = h, hr_body = final_body\<rparr>
         | Some e \<Rightarrow> Err (internal (''failed to build response: '' @ e)))))))"

section \<open>Single-message envelopes\<close>

text \<open>
  The one request envelope of a gRPC unary or a server-streaming call; the two handlers differ
  only in the texts for an absent and for a second message.
\<close>

definition single_request_message ::
    "string \<Rightarrow> string \<Rightarrow> protocol \<Rightarrow> string option \<Rightarrow> compression_registry \<Rightarrow> usize \<Rightarrow> bytes \<Rightarrow> bytes connect_result" where
  "single_request_message none_text many_text p encoding compression max_size post_body =
     (if post_body = [] then Err (unimplemented none_text)
      else (case decode_contiguous post_body max_size of
              (Err e, _) \<Rightarrow> Err e
            | (Ok None, _) \<Rightarrow> Err (invalid_argument ''incomplete request envelope'')
            | (Ok (Some env), rest) \<Rightarrow>
                (if rest \<noteq> [] then Err (unimplemented many_text)
                 else if is_compressed env then
                   (case encoding of
                      Some e \<Rightarrow>
                        (if e \<noteq> ''identity'' then registry_decompress_with_limit compression e (env_data env) max_size
                         else Err (internal (''received compressed message without '' @ content_encoding_header p @ '' header'')))
                    | None \<Rightarrow> Err (internal (''received compressed message without '' @ content_encoding_header p @ '' header'')))
                 else Ok (env_data env))))"

definition unsupported_encoding :: "compression_registry \<Rightarrow> request_metadata \<Rightarrow> string option" where
  "unsupported_encoding compression meta =
     (case meta_streaming_encoding meta of
        Some e \<Rightarrow> (if e \<noteq> ''identity'' \<and> \<not> supports compression e then Some e else None)
      | None \<Rightarrow> None)"

section \<open>gRPC unary calls\<close>

definition grpc_unary_trailers_for :: "protocol \<Rightarrow> headers \<Rightarrow> grpc_unary_trailers" where
  "grpc_unary_trailers_for p t = (if p = Grpc then Http2 t else WebBody (encode_grpc_web_trailers t))"

definition grpc_unary_error ::
    "'x server_env \<Rightarrow> protocol \<Rightarrow> codec_format \<Rightarrow> connect_error \<Rightarrow> grpc_unary_body http_response" where
  "grpc_unary_error env p codec err =
     (let h = trailers_only_head env err p codec
      in if env_build_error env h = None
         then \<lparr>hr_status = 200, hr_headers = h,
               hr_body = \<lparr>gub_data = None, gub_payload = [], gub_trailers = Some (grpc_unary_trailers_for p (error_trailers env err))\<rparr>\<rparr>
         else \<lparr>hr_status = 200, hr_headers = hm_new, hr_body = \<lparr>gub_data = None, gub_payload = [], gub_trailers = None\<rparr>\<rparr>)"

text \<open>The response envelope; a payload too long for its length field panics (\<open>None\<close>).\<close>

definition grpc_unary_envelope ::
    "compression_registry \<Rightarrow> compression_policy \<Rightarrow> string option \<Rightarrow> encoded_body \<Rightarrow> (bytes \<times> bytes list) option" where
  "grpc_unary_envelope compression policy encoding body =
     (case encoding of
        Some e \<Rightarrow>
          (if should_compress policy (body_len body) then
             (let flat = into_contiguous body in
              case registry_compress compression e flat of
                Ok c \<Rightarrow> encode_body_parts flags_COMPRESSED (Contiguous c) MIN_CHAIN_SIZE
              | Err _ \<Rightarrow> encode_body_parts flags_DATA (Contiguous flat) MIN_CHAIN_SIZE)
           else encode_body_parts flags_DATA body MIN_CHAIN_SIZE)
      | None \<Rightarrow> encode_body_parts flags_DATA body MIN_CHAIN_SIZE)"

definition streaming_head ::
    "compression_registry \<Rightarrow> protocol \<Rightarrow> codec_format \<Rightarrow> string option \<Rightarrow> headers \<Rightarrow> headers" where
  "streaming_head compression p codec encoding extra =
     append_headers extra (response_head (response_content_type p codec True) (content_encoding_header p) encoding
       (accept_encoding_header_name p) compression)"

definition handle_grpc_unary_request ::
    "'x server_env \<Rightarrow> ('m, 't) message_ops \<Rightarrow> ('x, 'm) service \<Rightarrow> string \<Rightarrow> spec option \<Rightarrow> 'x http_request \<Rightarrow>
     protocol \<Rightarrow> codec_format \<Rightarrow> grpc_unary_body http_response option" where
  "handle_grpc_unary_request env q svc path s req p codec =
     (let meta = metadata_from_headers (req_headers req) p;
          deadline = absolute_deadline (env_now env) (moderated (svc_deadline_policy svc) (meta_timeout meta));
          limits = svc_limits svc; compression = svc_compression svc;
          fail = (\<lambda>err. Some (grpc_unary_error env p codec err))
      in
      if p = Connect then None
      else if req_method req \<noteq> POST
      then fail (internal (''invalid method for gRPC: '' @ method_name (req_method req)))
      else
        (case unsupported_encoding compression meta of
           Some e \<Rightarrow> fail (unimplemented (''unsupported compression: '' @ e))
         | None \<Rightarrow>
             (case result_bind (with_request_deadline (env_body_elapsed env) deadline
                       (collect_body_limited env (req_body req) (max_request_body_size limits)))
                     (single_request_message ''request body is empty: expected a message''
                       ''unary request must have exactly one message'' p (meta_streaming_encoding meta) compression
                       (max_message_size limits)) of
                Err e \<Rightarrow> fail e
              | Ok request_body \<Rightarrow>
                  (let ctx = handler_context env meta deadline (req_extensions req) s p path limits in
                   case with_request_deadline (env_call_elapsed env) deadline
                          (call_unary_intercepted q (svc_dispatcher svc) (svc_interceptors svc) path ctx request_body codec) of
                     Err e \<Rightarrow> fail e
                   | Ok resp \<Rightarrow>
                       (let encoding = negotiate_encoding compression (meta_streaming_accept_encoding meta)
                              (meta_streaming_encoding meta);
                            h = streaming_head compression p codec encoding (resp_headers resp);
                            t = build_grpc_trailers (lib_text (env_libs env)) (lib_wire (env_libs env)) None (resp_trailers resp)
                        in map_option (\<lambda>(data, payload).
                             if env_build_error env h = None
                             then \<lparr>hr_status = 200, hr_headers = h,
                                   hr_body = \<lparr>gub_data = Some data, gub_payload = payload,
                                              gub_trailers = Some (grpc_unary_trailers_for p t)\<rparr>\<rparr>
                             else grpc_unary_error env p codec (internal ''failed to build response''))
                           (grpc_unary_envelope compression (with_override (svc_compression_policy svc) (resp_compress resp))
                              encoding (resp_body resp)))))))"

section \<open>Streaming calls\<close>

text \<open>
  All items a handler can read from the request stream: what enough polls of
  \<^verbatim>\<open>decode_request_body\<close> deliver.
\<close>

definition read_request_stream ::
    "usize \<Rightarrow> string option \<Rightarrow> compression_registry \<Rightarrow> http_body \<Rightarrow> request_stream" where
  "read_request_stream max_size encoding compression body =
     (let st = decode_request_body body max_size encoding compression
      in case poll_run_partial (request_poll_next script_poll (\<lambda>b. b = [])) (stream_weight st) st of
           Some outs \<Rightarrow> delivered outs | None \<Rightarrow> [])"

text \<open>The tail of the three streaming handlers: head, compression and framed body.\<close>

definition streaming_response ::
    "'x server_env \<Rightarrow> ('x, 'm) service \<Rightarrow> request_metadata \<Rightarrow> protocol \<Rightarrow> codec_format \<Rightarrow> string \<Rightarrow>
     encoded_stream response_stream response \<Rightarrow> streaming_body http_response option" where
  "streaming_response env svc meta p codec failure resp =
     (let compression = svc_compression svc;
          encoding = negotiate_encoding compression (meta_streaming_accept_encoding meta) (meta_streaming_encoding meta);
          h = streaming_head compression p codec encoding (resp_headers resp);
          body = streaming_body_new (resp_body resp) (resp_trailers resp) p (map_option (Pair compression) encoding)
            (with_override (svc_compression_policy svc) (resp_compress resp))
      in if env_build_error env h = None
         then Some \<lparr>hr_status = 200, hr_headers = h, hr_body = Batching body\<rparr>
         else streaming_error_response env (internal failure) p codec)"

definition remaining_budget :: "'x server_env \<Rightarrow> instant option \<Rightarrow> duration option" where
  "remaining_budget env deadline = map_option (\<lambda>d. d - env_stream_now env) deadline"

definition handle_client_streaming_request ::
    "'x server_env \<Rightarrow> ('m, 't) message_ops \<Rightarrow> ('x, 'm) service \<Rightarrow> string \<Rightarrow> spec option \<Rightarrow> request_metadata \<Rightarrow>
     http_body \<Rightarrow> 'x \<Rightarrow> protocol \<Rightarrow> codec_format \<Rightarrow> streaming_body http_response option" where
  "handle_client_streaming_request env q svc path s meta body x p codec =
     (let compression = svc_compression svc; limits = svc_limits svc;
          requests = read_request_stream (max_message_size limits) (meta_streaming_encoding meta) compression body;
          deadline = Option.bind (meta_timeout meta) (instant_checked_add (env_now env));
          ctx = handler_context env meta deadline x s p path limits
      in case (case meta_timeout meta of
                 Some t \<Rightarrow> (if env_call_elapsed env (env_now env + t) then Err (deadline_exceeded ''request timeout'')
                            else call_client_streaming_intercepted q (svc_dispatcher svc) (svc_interceptors svc) path ctx requests codec)
               | None \<Rightarrow> call_client_streaming_intercepted q (svc_dispatcher svc) (svc_interceptors svc) path ctx requests codec) of
           Err e \<Rightarrow> streaming_error_response env e p codec
         | Ok resp \<Rightarrow>
             streaming_response env svc meta p codec ''failed to build client streaming response''
               (map_body (\<lambda>b. Bare [Ok b]) resp))"

definition handle_bidi_streaming_request ::
    "'x server_env \<Rightarrow> ('m, 't) message_ops \<Rightarrow> ('x, 'm) service \<Rightarrow> string \<Rightarrow> spec option \<Rightarrow> request_metadata \<Rightarrow>
     http_body \<Rightarrow> 'x \<Rightarrow> protocol \<Rightarrow> codec_format \<Rightarrow> streaming_body http_response option" where
  "handle_bidi_streaming_request env q svc path s meta body x p codec =
     (let compression = svc_compression svc; limits = svc_limits svc;
          requests = read_request_stream (max_message_size limits) (meta_streaming_encoding meta) compression body;
          deadline = Option.bind (meta_timeout meta) (instant_checked_add (env_now env));
          ctx = handler_context env meta deadline x s p path limits
      in case (case meta_timeout meta of
                 Some t \<Rightarrow> (if env_call_elapsed env (env_now env + t) then Err (deadline_exceeded ''request timeout'')
                            else call_bidi_streaming_intercepted q (svc_dispatcher svc) (svc_interceptors svc) path ctx requests codec)
               | None \<Rightarrow> call_bidi_streaming_intercepted q (svc_dispatcher svc) (svc_interceptors svc) path ctx requests codec) of
           Err e \<Rightarrow> streaming_error_response env e p codec
         | Ok resp \<Rightarrow>
             streaming_response env svc meta p codec ''failed to build bidi streaming response''
               (map_body (\<lambda>b. enforce_on_response_stream (svc_deadline_policy svc) (env_stream_now env) b
                  (remaining_budget env deadline)) resp))"

definition dispatch_single ::
    "('m, 't) message_ops \<Rightarrow> ('x, 'm) service \<Rightarrow> method_kind \<Rightarrow> string \<Rightarrow> 'x request_context \<Rightarrow> bytes \<Rightarrow> codec_format \<Rightarrow>
     encoded_stream response connect_result" where
  "dispatch_single q svc kind path ctx body codec =
     (if kind = ServerStreaming
      then call_server_streaming_intercepted q (svc_dispatcher svc) (svc_interceptors svc) path ctx body codec
      else result_map (map_body (\<lambda>b. [Ok b]))
             (call_unary_intercepted q (svc_dispatcher svc) (svc_interceptors svc) path ctx body codec))"

text \<open>
  Which single-message dispatch a method gets once client and bidirectional streaming have been
  handled; their arm is unreachable there and panics.
\<close>

definition single_dispatch_kind ::
    "protocol \<Rightarrow> string \<Rightarrow> method_descriptor option \<Rightarrow> method_kind connect_result option" where
  "single_dispatch_kind p path desc =
     (case map_option md_kind desc of
        Some ServerStreaming \<Rightarrow> Some (Ok ServerStreaming)
      | Some Unary \<Rightarrow>
          Some (if p = Connect then Err (invalid_argument ''streaming content type used for unary method'') else Ok Unary)
      | None \<Rightarrow> Some (Err (unimplemented (''method not found: '' @ path)))
      | Some _ \<Rightarrow> None)"

definition handle_streaming_request ::
    "'x server_env \<Rightarrow> ('m, 't) message_ops \<Rightarrow> ('x, 'm) service \<Rightarrow> string \<Rightarrow> method_descriptor option \<Rightarrow> 'x http_request \<Rightarrow>
     protocol \<Rightarrow> codec_format \<Rightarrow> streaming_body http_response option" where
  "handle_streaming_request env q svc path desc req p codec =
     (let meta0 = metadata_from_headers (req_headers req) p;
          meta = meta0\<lparr>meta_timeout := moderated (svc_deadline_policy svc) (meta_timeout meta0)\<rparr>;
          limits = svc_limits svc; compression = svc_compression svc;
          s = Option.bind desc md_spec;
          fail = (\<lambda>err. streaming_error_response env err p codec)
      in
      if p \<noteq> Connect \<and> req_method req \<noteq> POST
      then fail (internal (''invalid method for gRPC: '' @ method_name (req_method req)))
      else
        (case unsupported_encoding compression meta of
           Some e \<Rightarrow> fail (unimplemented (''unsupported compression: '' @ e))
         | None \<Rightarrow>
             (if map_option md_kind desc = Some BidiStreaming
              then handle_bidi_streaming_request env q svc path s meta (req_body req) (req_extensions req) p codec
              else if map_option md_kind desc = Some ClientStreaming
              then handle_client_streaming_request env q svc path s meta (req_body req) (req_extensions req) p codec
              else
                (let deadline = absolute_deadline (env_now env) (meta_timeout meta) in
                 case with_request_deadline (env_body_elapsed env) deadline
                        (collect_body_limited env (req_body req) (max_request_body_size limits)) of
                   Err e \<Rightarrow> fail e
                 | Ok post_body \<Rightarrow>
                     (case single_dispatch_kind p path desc of
                        None \<Rightarrow> None
                      | Some (Err e) \<Rightarrow> fail e
                      | Some (Ok kind) \<Rightarrow>
                          (case single_request_message ''server streaming request requires a message''
                                  ''server streaming request must have exactly one message'' p
                                  (meta_streaming_encoding meta) compression (max_message_size limits) post_body of
                             Err e \<Rightarrow> fail e
                           | Ok request_body \<Rightarrow>
                               (let ctx = handler_context env meta deadline (req_extensions req) s p path limits in
                                case with_request_deadline (env_call_elapsed env) deadline
                                       (dispatch_single q svc kind path ctx request_body codec) of
                                  Err e \<Rightarrow> fail e
                                | Ok resp \<Rightarrow>
                                    streaming_response env svc meta p codec ''failed to build streaming response''
                                      (map_body (\<lambda>b. enforce_on_response_stream (svc_deadline_policy svc)
                                         (env_stream_now env) b (remaining_budget env deadline)) resp))))))))"

section \<open>The entry point\<close>

definition reject_unsupported_method ::
    "string \<Rightarrow> method_descriptor option \<Rightarrow> connect_rpc_body http_response connect_result" where
  "reject_unsupported_method path desc =
     (case desc of
        Some d \<Rightarrow>
          Ok \<lparr>hr_status = 405,
              hr_headers = hm_append ''allow'' (if md_kind d = Unary \<and> md_idempotent d then ''GET, POST'' else ''POST'') hm_new,
              hr_body = FullBody []\<rparr>
      | None \<Rightarrow> Err (with_http_status 404 (unimplemented (''method not found: '' @ path))))"

definition ACCEPT_POST :: "bool \<Rightarrow> string" where
  "ACCEPT_POST json =
     (if json
      then ''application/connect+json, application/connect+proto, application/grpc, application/grpc+json, application/grpc+proto, application/grpc-web, application/grpc-web+json, application/grpc-web+proto, application/json, application/proto''
      else ''application/connect+proto, application/grpc, application/grpc+proto, application/grpc-web, application/grpc-web+proto, application/proto'')"

definition unknown_content_type ::
    "'x server_env \<Rightarrow> headers \<Rightarrow> connect_rpc_body http_response option" where
  "unknown_content_type env h =
     (let ct = (case hm_get_str h ''content-type'' of Some c \<Rightarrow> c | None \<Rightarrow> []);
          err = unimplemented ''unsupported content type''
      in if starts_with ct ''application/grpc-web''
         then map_option (map_response StreamingBody) (grpc_error_response env err GrpcWeb Proto)
         else if starts_with ct ''application/grpc''
         then map_option (map_response StreamingBody) (grpc_error_response env err Grpc Proto)
         else Some \<lparr>hr_status = 415, hr_headers = hm_append ''accept-post'' (ACCEPT_POST (env_json env)) hm_new,
                    hr_body = FullBody []\<rparr>)"

text \<open>The head checks, skipped when no interceptor is registered.\<close>

definition check_heads ::
    "('x, 'm) service \<Rightarrow> 'x http_request \<Rightarrow> method_descriptor option \<Rightarrow> protocol \<Rightarrow> unit connect_result \<times> 'x http_request" where
  "check_heads svc req desc p =
     (if svc_interceptors svc = [] then (Ok (), req)
      else (let (r, x) = intercept_heads (svc_interceptors svc) (req_path req) (req_headers req) (req_extensions req) desc p
            in (r, req\<lparr>req_extensions := x\<rparr>)))"

definition handle_request ::
    "'x server_env \<Rightarrow> ('m, 't) message_ops \<Rightarrow> ('x, 'm) service \<Rightarrow> 'x http_request \<Rightarrow>
     connect_rpc_body http_response connect_result option" where
  "handle_request env q svc0 req0 =
     (let rp0 = detect (env_json env) (req_headers req0);
          path = strip_slash (req_path req0);
          desc = d_lookup (svc_dispatcher svc0) path;
          svc = svc0\<lparr>svc_limits := (case Option.bind desc md_limits of Some l \<Rightarrow> l | None \<Rightarrow> svc_limits svc0)\<rparr>;
          unary = (case check_heads svc req0 desc Connect of
                     (Err e, _) \<Rightarrow> Some (Err e)
                   | (Ok _, req) \<Rightarrow> Some (result_map (map_response FullBody) (handle_unary_request env q svc path desc req)))
      in
      case req_method req0 of
        OtherMethod _ \<Rightarrow> Some (reject_unsupported_method path desc)
      | GET \<Rightarrow> unary
      | POST \<Rightarrow>
          (case rp0 of
             None \<Rightarrow> map_option Ok (unknown_content_type env (req_headers req0))
           | Some rp \<Rightarrow>
               (if \<not> rp_is_streaming rp then unary
                else
                  (case check_heads svc req0 desc (rp_protocol rp) of
                     (Err e, _) \<Rightarrow>
                       map_option (\<lambda>r. Ok (map_response StreamingBody r))
                         (streaming_error_response env e (rp_protocol rp) (rp_codec_format rp))
                   | (Ok _, req) \<Rightarrow>
                       (if rp_is_text_mode rp
                        then map_option (\<lambda>r. Ok (map_response StreamingBody r))
                               (grpc_error_response env
                                  (unimplemented ''gRPC-Web text mode (application/grpc-web-text) is not supported'')
                                  GrpcWeb (rp_codec_format rp))
                        else if rp_protocol rp \<noteq> Connect \<and> map_option md_kind desc = Some Unary
                        then map_option (\<lambda>r. Ok (map_response GrpcUnaryBody r))
                               (handle_grpc_unary_request env q svc path (Option.bind desc md_spec) req
                                  (rp_protocol rp) (rp_codec_format rp))
                        else map_option (\<lambda>r. Ok (map_response StreamingBody r))
                               (handle_streaming_request env q svc path desc req (rp_protocol rp) (rp_codec_format rp)))))))"

definition service_call ::
    "'x server_env \<Rightarrow> ('m, 't) message_ops \<Rightarrow> ('x, 'm) service \<Rightarrow> 'x http_request \<Rightarrow> connect_rpc_body http_response option" where
  "service_call env q svc req =
     map_option (\<lambda>r. case r of Ok resp \<Rightarrow> resp | Err e \<Rightarrow> error_response_either env e) (handle_request env q svc req)"

end
