(* ===== verification/ServiceProps.thy ===== *)
theory ServiceProps
  imports Service
begin

text \<open>
  What the service guarantees: which requests reach a handler and with which message, what the
  client gets back, the limits that hold for every message handed on, and the composition of
  the client's GET request with the server's handling of it.
\<close>

lemma moderate_total: "moderate p t = Some (moderated p t)"
  by (auto simp: moderated_def moderate_def clamp_def Let_def split: option.splits)

section \<open>Limits\<close>

lemma decode_get_message_bounded: "decode_get_message q params reg M = Ok b \<Longrightarrow> length b \<le> M"
  by (auto simp: decode_get_message_def result_bind_Ok_iff split: option.splits if_splits)

lemma unary_request_message_bounded:
  "unary_request_message env svc desc meta req post = Ok (body, codec) \<Longrightarrow> length body \<le> max_message_size (svc_limits svc)"
  by (auto simp: unary_request_message_def Let_def result_bind_Ok_iff dest: decode_get_message_bounded
      split: http_method.splits if_splits)

lemma decode_contiguous_bounded:
  "decode_contiguous w M = (Ok (Some e), rest) \<Longrightarrow> length (env_data e) \<le> M"
  by (auto simp: decode_contiguous_def Let_def split: if_splits)

lemma single_request_message_bounded:
  assumes "registry_bounded reg" and "single_request_message t1 t2 p enc reg M post = Ok body"
  shows "length body \<le> M"
  using assms decode_contiguous_bounded [of post M]
  by (auto simp: single_request_message_def split: if_splits prod.splits result.splits option.splits
      dest: registry_decompress_bounded)

section \<open>A Connect GET call from the client to the handler\<close>

text \<open>The request as it arrives, with the extensions the server's transport attaches.\<close>

definition arriving_get :: "'x \<Rightarrow> get_request \<Rightarrow> 'x http_request" where
  "arriving_get x g = \<lparr>req_method = GET, req_path = uri_path (get_uri g), req_query = uri_query (get_uri g),
     req_headers = get_headers g, req_extensions = x, req_body = []\<rparr>"

text \<open>No timer fires, the empty body is read and the response builder accepts the headers.\<close>

definition undisturbed :: "'x server_env \<Rightarrow> bool" where
  "undisturbed env \<longleftrightarrow> (\<forall>n. env_collect env [] n = Ok []) \<and> (\<forall>d. \<not> env_body_elapsed env d \<and> \<not> env_call_elapsed env d) \<and>
     (\<forall>h. env_build_error env h = None)"

lemma with_request_deadline_undisturbed [simp]:
  "undisturbed env \<Longrightarrow> with_request_deadline (env_body_elapsed env) d r = r"
  "undisturbed env \<Longrightarrow> with_request_deadline (env_call_elapsed env) d r' = r'"
  by (simp_all add: undisturbed_def with_request_deadline_def split: option.splits)

lemma get_timeout_header:
  assumes "call_unary_get q u now config s (Ok body) opts = Ok g"
    and "opt_timeout (effective_options config opts) = Some t"
  shows "timeout_from_headers (get_headers g) Connect = Some (encoded_timeout_duration (encode_timeout t Connect))"
proof -
  have fold_eq: "fold (\<lambda>(name, value) h. hm_append name value h) kvs h = hm_append_all kvs h" for kvs h
    by (simp add: hm_append_all_def)
  obtain h where "get_headers g = hm_append_all (hm_iter (opt_headers (effective_options config opts))) h"
      "hm_get h ''connect-timeout-ms'' = Some (format_timeout t Connect)"
    using assms
    by (auto simp: call_unary_get_def Let_def result_bind_Ok_iff fold_eq hm_get_def split: if_splits option.splits)
  then have "hm_get (get_headers g) ''connect-timeout-ms'' = Some (format_timeout t Connect)"
    by (simp add: hm_get_append_all)
  moreover have "header_to_str (format_timeout t Connect) = Some (format_timeout t Connect)"
    by (simp add: format_timeout_def encode_timeout_def header_to_str_show_nat)
  ultimately show ?thesis
    using parse_format_timeout [of t Connect] by (simp add: timeout_from_headers_def)
qed

text \<open>What a handler is called with, and how its answer becomes the HTTP response of a Connect unary call.\<close>

definition unary_answer ::
    "'x server_env \<Rightarrow> ('x, 'm) service \<Rightarrow> request_metadata \<Rightarrow> codec_format \<Rightarrow> encoded_response connect_result \<Rightarrow>
     connect_rpc_body http_response" where
  "unary_answer env svc meta codec result =
     (case result of
        Err e \<Rightarrow> error_response_either env e
      | Ok resp \<Rightarrow>
          (let encoding = negotiate_encoding (svc_compression svc) (meta_unary_accept_encoding meta) (meta_unary_encoding meta);
               (b, ce) = compress_unary_body (svc_compression svc)
                 (with_override (svc_compression_policy svc) (resp_compress resp)) encoding (resp_body resp)
           in \<lparr>hr_status = 200, hr_headers = unary_response_head (svc_compression svc) codec ce resp, hr_body = FullBody b\<rparr>))"

lemma handle_unary_undisturbed:
  assumes "undisturbed env" and "svc_interceptors svc = []" and "desc = Some md"
    and "collect_body_limited env (req_body req) (max_request_body_size (svc_limits svc)) = Ok post"
    and "unary_request_message env svc md (metadata_from_headers (req_headers req) Connect) req post = Ok (body, codec)"
  shows "(case handle_unary_request env q svc path desc req of
            Ok r \<Rightarrow> map_response FullBody r | Err e \<Rightarrow> error_response_either env e) =
    unary_answer env svc (metadata_from_headers (req_headers req) Connect) codec
      (d_call_unary (svc_dispatcher svc) path
        (handler_context env (metadata_from_headers (req_headers req) Connect)
          (absolute_deadline (env_now env) (moderated (svc_deadline_policy svc) (timeout_from_headers (req_headers req) Connect)))
          (req_extensions req) (md_spec md) Connect path (svc_limits svc))
        (pl_with_decode_options (Some (element_memory_limit (svc_limits svc))) (payload_new body codec)) codec)"
proof -
  have t: "meta_timeout (metadata_from_headers (req_headers req) Connect) = timeout_from_headers (req_headers req) Connect"
    by (simp add: metadata_from_headers_def)
  have c: "ctx_decode_options (handler_context env m d x s p path' l) = Some (element_memory_limit l)" for m d x s p path' l
    by (simp add: handler_context_def ctx_defs)
  have b: "env_build_error env h = None" for h using assms(1) by (simp add: undisturbed_def)
  show ?thesis
    using assms(1-5)
    by (simp add: handle_unary_request_def Let_def t c b call_unary_intercepted_def unary_answer_def map_response_def
        split: result.splits prod.splits)
qed

text \<open>
  C22. A Connect GET call end to end: the request the client builds for an idempotent unary
  method, arriving at a service that serves it, makes exactly that method's handler run on
  exactly the client's encoded message in the client's codec, with the client's headers and
  the timeout the client enforces moderated by the service's policy; and the response is the
  handler's answer, or the rendering of its error.
\<close>

theorem get_call_end_to_end:
  assumes "query_laws (env_query env)" and "uri_laws u" and "undisturbed env" and "env_json env"
    and "call_unary_get (env_query env) u now config s (Ok body) opts = Ok g"
    and "CHR ''?'' \<notin> set (uri_path (base_uri config) @ procedure s)"
    and "CHR ''#'' \<notin> set (uri_path (base_uri config) @ procedure s)"
    and "\<forall>enc c. request_compression config = Some enc \<longrightarrow>
      CHR ''&'' \<notin> set enc \<and> CHR ''#'' \<notin> set enc \<and>
      (registry_compress (cfg_compression config) enc body = Ok c \<longrightarrow>
       registry_decompress_with_limit (svc_compression svc) enc c (max_message_size (svc_limits svc)) = Ok body)"
    and "length body \<le> max_message_size (svc_limits svc)"
    and "svc_interceptors svc = []"
    and "path = strip_slash (trim_end_slashes (uri_path (base_uri config)) @ procedure s)"
    and "d_lookup (svc_dispatcher svc) path = Some md" and "md_idempotent md" and "md_limits md = None"
  shows "\<exists>ctx. ctx_headers ctx = get_headers g \<and> ctx_path ctx = Some (''/'' @ path) \<and> ctx_protocol ctx = Some Connect \<and>
    ctx_spec ctx = md_spec md \<and> ctx_extensions ctx = x \<and>
    (\<forall>t. opt_timeout (effective_options config opts) = Some t \<longrightarrow>
       ctx_deadline ctx = absolute_deadline (env_now env) (moderated (svc_deadline_policy svc)
         (Some (encoded_timeout_duration (encode_timeout t Connect))))) \<and>
    service_call env q svc (arriving_get x g) =
      Some (unary_answer env svc (metadata_from_headers (get_headers g) Connect) (cfg_codec_format config)
        (d_call_unary (svc_dispatcher svc) path ctx
          (pl_with_decode_options (Some (element_memory_limit (svc_limits svc))) (payload_new body (cfg_codec_format config)))
          (cfg_codec_format config)))"
proof -
  let ?req = "arriving_get x g" and ?M = "max_message_size (svc_limits svc)"
  let ?meta = "metadata_from_headers (get_headers g) Connect"
  let ?ctx = "handler_context env ?meta (absolute_deadline (env_now env) (moderated (svc_deadline_policy svc)
      (timeout_from_headers (get_headers g) Connect))) x (md_spec md) Connect path (svc_limits svc)"
  from get_reads_back [OF assms(1,2,5-9)] obtain params where
    uri: "uri_path (get_uri g) = trim_end_slashes (uri_path (base_uri config)) @ procedure s" and
    pa: "parse_get_query_params (uri_query (get_uri g)) = Ok params" "gq_connect_version params = Some ''v1''"
      "Option.bind (gq_encoding params) (from_codec True) = Some (cfg_codec_format config)"
      "decode_get_message (env_query env) params (svc_compression svc) ?M = Ok body" by blast
  obtain enc where enc: "gq_encoding params = Some enc" "from_codec True enc = Some (cfg_codec_format config)"
    using pa(3) by (cases "gq_encoding params") auto
  have msg: "unary_request_message env svc md ?meta ?req [] = Ok (body, cfg_codec_format config)"
    using pa enc assms(4,13) by (simp add: unary_request_message_def arriving_get_def Let_def)
  have coll: "collect_body_limited env (req_body ?req) n = Ok []" for n
    using assms(3) by (simp add: undisturbed_def collect_body_limited_def arriving_get_def)
  have req: "req_method ?req = GET" "strip_slash (req_path ?req) = path" "req_headers ?req = get_headers g" "req_extensions ?req = x"
    by (simp_all add: arriving_get_def uri assms(11))
  have "service_call env q svc ?req = Some (case handle_unary_request env q svc path (Some md) ?req of
      Ok r \<Rightarrow> map_response FullBody r | Err e \<Rightarrow> error_response_either env e)"
    using req assms(10,12,14)
    by (simp add: service_call_def handle_request_def Let_def check_heads_def split: result.splits)
  also have "\<dots> = Some (unary_answer env svc ?meta (cfg_codec_format config)
      (d_call_unary (svc_dispatcher svc) path ?ctx
        (pl_with_decode_options (Some (element_memory_limit (svc_limits svc))) (payload_new body (cfg_codec_format config)))
        (cfg_codec_format config)))"
    using handle_unary_undisturbed [OF assms(3,10) refl coll, of md body "cfg_codec_format config" q path] msg req by simp
  finally have call: "service_call env q svc ?req = \<dots>" .
  have "ctx_headers ?ctx = get_headers g \<and> ctx_path ?ctx = Some (''/'' @ path) \<and> ctx_protocol ?ctx = Some Connect \<and>
      ctx_spec ?ctx = md_spec md \<and> ctx_extensions ?ctx = x"
    by (simp add: handler_context_def ctx_defs metadata_from_headers_def)
  moreover have "ctx_deadline ?ctx = absolute_deadline (env_now env) (moderated (svc_deadline_policy svc)
      (Some (encoded_timeout_duration (encode_timeout t Connect))))"
    if "opt_timeout (effective_options config opts) = Some t" for t
    using get_timeout_header [OF assms(5) that] by (simp add: handler_context_def ctx_defs)
  ultimately show ?thesis using call by blast
qed

text \<open>A service with one idempotent echo route, in a quiet environment.\<close>

definition sample_libs :: service_libs where
  "sample_libs = \<lparr>lib_text = sample_text_escape, lib_wire = sample_wire_text, lib_end_stream_json = (\<lambda>_. [123, 125]),
     lib_error_json = (\<lambda>_. [123, 125])\<rparr>"

definition sample_env :: "unit server_env" where
  "sample_env = \<lparr>env_now = 0, env_stream_now = 0, env_collect = (\<lambda>b n. if length (body_bytes b) \<le> n then Ok (body_bytes b) else Err LengthLimit),
     env_body_elapsed = (\<lambda>_. False), env_call_elapsed = (\<lambda>_. False), env_build_error = (\<lambda>_. None),
     env_libs = sample_libs, env_query = sample_query, env_json = True, env_no_extensions = ()\<rparr>"

definition echo_handler :: "(unit request_context, (bool \<times> bytes) payload, encoded_response) erased_handler" where
  "echo_handler ctx p f = Ok (response_new (Contiguous (pl_bytes p)))"

definition sample_service :: "(unit, bool \<times> bytes) service" where
  "sample_service = service_from_arc registry_new 5 (router_dispatcher
     \<lparr>r_methods = [(''p.S/M'', from_method (MUnary echo_handler True))], r_allow_overrides = False\<rparr>)"

lemma sample_service_simps [simp]:
  "svc_interceptors sample_service = []" "svc_limits sample_service = limits_default 5"
  "svc_compression sample_service = registry_new" "svc_compression_policy sample_service = policy_default"
  "d_lookup (svc_dispatcher sample_service) ''p.S/M'' =
     Some \<lparr>md_kind = Unary, md_idempotent = True, md_spec = None, md_limits = None\<rparr>"
  "d_call_unary (svc_dispatcher sample_service) ''p.S/M'' = echo_handler"
  by (simp_all add: sample_service_def service_from_arc_def router_dispatcher_def router_lookup_def from_method_def
      desc_unary_def with_idempotent_def from_kind_def router_call_unary_def fun_eq_iff)

theorem get_call_end_to_end_witness:
  "\<exists>s g. call_unary_get sample_query sample_uri_ops 0 sample_config s (Ok [1, 255]) call_options_default = Ok g \<and>
     (\<exists>r. service_call sample_env sample_messages sample_service (arriving_get () g) = Some r \<and>
       hr_status r = 200 \<and> hr_body r = FullBody [1, 255])"
proof -
  from sample_get_call obtain s g where g: "procedure s = ''/p.S/M''"
    "call_unary_get sample_query sample_uri_ops 0 sample_config s (Ok [1, 255]) call_options_default = Ok g" by blast
  have c: "request_compression sample_config = None" "uri_path (base_uri sample_config) = ''/''" "cfg_codec_format sample_config = Proto"
    by (simp_all add: sample_config_def cfg_with_default_timeout_def with_default_header_def client_config_new_def)
  have und: "undisturbed sample_env" by (simp add: undisturbed_def sample_env_def)
  have path: "''p.S/M'' = strip_slash (trim_end_slashes (uri_path (base_uri sample_config)) @ procedure s)"
    by (simp add: c g trim_end_slashes_def strip_slash_def)
  have q: "query_laws (env_query sample_env)" "env_json sample_env" "env_query sample_env = sample_query"
    using sample_query_laws by (simp_all add: sample_env_def)
  have lim: "length [1, 255 :: byte] \<le> max_message_size (svc_limits sample_service)"
    by (simp add: limits_default_def DEFAULT_MAX_MESSAGE_SIZE_def)
  obtain ctx where "service_call sample_env sample_messages sample_service (arriving_get () g) =
      Some (unary_answer sample_env sample_service (metadata_from_headers (get_headers g) Connect) Proto
        (echo_handler ctx (pl_with_decode_options (Some 5) (payload_new [1, 255] Proto)) Proto))"
    using get_call_end_to_end [OF q(1) sample_uri_laws und q(2) g(2) [folded q(3)] _ _ _ lim _ path, of
        "\<lparr>md_kind = Unary, md_idempotent = True, md_spec = None, md_limits = None\<rparr>" "()" sample_messages]
    by (auto simp: c g limits_default_def)
  moreover have "\<not> should_compress policy_default (Suc (Suc 0))"
    by (simp add: should_compress_def policy_default_def DEFAULT_COMPRESSION_MIN_SIZE_def)
  then have "compress_unary_body registry_new policy_default e (Contiguous [1, 255]) = ([1, 255], None)" for e
    by (simp add: compress_unary_body_def Let_def split: option.splits)
  ultimately have "\<exists>r. service_call sample_env sample_messages sample_service (arriving_get () g) = Some r \<and>
      hr_status r = 200 \<and> hr_body r = FullBody [1, 255]"
    by (simp add: unary_answer_def echo_handler_def response_new_def pl_with_decode_options_def payload_new_def)
  then show ?thesis using g(2) by blast
qed

end
