(* ===== verification/ClientUnary.thy ===== *)
theory ClientUnary
  imports ResponseStream Get
begin

text \<open>
  The client's unary call (\<^verbatim>\<open>connectrpc/src/client/mod.rs\<close>): the request \<^verbatim>\<open>call_unary\<close> builds for
  each protocol and the two parsers of its response. A response body is the list of what its
  frames resolve to. The record \<open>client_env\<close> holds what the client observes: whether the clock
  has passed a deadline when a failure is classified, whether the call's timer fires, the
  protobuf and JSON codecs of the response type and the libraries for header text. A panic is
  \<open>None\<close>.
\<close>

section \<open>The environment of a call\<close>

text \<open>A decode failure of the protobuf library with its display text.\<close>

datatype decode_failure = ElementMemoryLimitExceeded string | OtherDecodeError string

record error_body =
  eb_code :: "string option"
  eb_message :: "string option"
  eb_details :: "error_detail list"

record client_end_stream_error =
  ces_code :: "string option"
  ces_message :: "string option"
  ces_details :: "error_detail list"

record client_end_stream_response =
  ces_error :: "client_end_stream_error option"
  ces_metadata :: "metadata option"

record ('o, 'v) client_env =
  ce_text :: text_ops
  ce_wire :: wire_ops
  ce_now :: instant
  ce_elapsed :: "instant \<Rightarrow> bool"
  ce_timer_fires :: "instant \<Rightarrow> bool"
  ce_json :: bool
  ce_decode_view :: "decode_options \<Rightarrow> bytes \<Rightarrow> ('v, decode_failure) result"
  ce_json_message :: "bytes \<Rightarrow> ('o, string) result"
  ce_encode_message :: "'o \<Rightarrow> (bytes, string) result"
  ce_json_error :: "bytes \<Rightarrow> error_body option"
  ce_json_end_stream :: "bytes \<Rightarrow> (client_end_stream_response, string) result"

type_synonym client_body = "(http_frame, string) result list"

record client_response =
  cr_status :: nat
  cr_headers :: headers
  cr_body :: client_body

record client_request =
  cq_uri :: uri
  cq_headers :: headers
  cq_body :: bytes

record 'v unary_response_view =
  ur_headers :: headers
  ur_body :: 'v
  ur_trailers :: headers

section \<open>Classifying failures\<close>

text \<open>A transport error: its display text and, link by link, the error each source downcasts to.\<close>

record transport_error =
  te_display :: string
  te_chain :: "connect_error option list"

fun find_connect_error_in_chain :: "connect_error option list \<Rightarrow> connect_error option" where
  "find_connect_error_in_chain [] = None"
| "find_connect_error_in_chain (Some e # links) = Some e"
| "find_connect_error_in_chain (None # links) = find_connect_error_in_chain links"

definition map_transport_send_error :: "transport_error \<Rightarrow> string \<Rightarrow> connect_error" where
  "map_transport_send_error err context =
     (case find_connect_error_in_chain (te_chain err) of
        Some e \<Rightarrow> e
      | None \<Rightarrow> unavailable_from_transport context (te_display err))"

definition with_deadline :: "('o, 'v) client_env \<Rightarrow> instant option \<Rightarrow> 'a connect_result \<Rightarrow> 'a connect_result" where
  "with_deadline ce deadline outcome =
     (case deadline of
        None \<Rightarrow> outcome
      | Some d \<Rightarrow> (if ce_timer_fires ce d then Err (deadline_exceeded ''client-side deadline exceeded'') else outcome))"

definition deadline_elapsed :: "('o, 'v) client_env \<Rightarrow> instant option \<Rightarrow> bool" where
  "deadline_elapsed ce deadline = (case deadline of None \<Rightarrow> False | Some d \<Rightarrow> ce_elapsed ce d)"

definition classify_body_read_error :: "('o, 'v) client_env \<Rightarrow> string \<Rightarrow> string \<Rightarrow> instant option \<Rightarrow> connect_error" where
  "classify_body_read_error ce context error deadline =
     with_source error
       (if deadline_elapsed ce deadline
        then deadline_exceeded (context @ '' after the deadline elapsed: '' @ error)
        else internal (context @ '': '' @ error))"

definition http_status_to_error_code :: "nat \<Rightarrow> error_code" where
  "http_status_to_error_code status =
     (if status = 400 then Internal
      else if status = 401 then Unauthenticated
      else if status = 403 then PermissionDenied
      else if status = 404 then Unimplemented
      else if status = 408 then DeadlineExceeded
      else if status = 429 then Unavailable
      else if status = 502 then Unavailable
      else if status = 503 then Unavailable
      else if status = 504 then Unavailable
      else Unknown)"

definition is_success :: "nat \<Rightarrow> bool" where
  "is_success status \<longleftrightarrow> 200 \<le> status \<and> status < 300"

definition body_parse_error :: "nat \<Rightarrow> headers \<Rightarrow> string \<Rightarrow> connect_error" where
  "body_parse_error status rh detail =
     set_response_headers rh
       (if is_success status then internal detail
        else new_error (http_status_to_error_code status) (''HTTP error '' @ show_nat status @ '': '' @ detail))"

definition with_response_metadata :: "headers \<Rightarrow> headers \<Rightarrow> connect_error \<Rightarrow> connect_error" where
  "with_response_metadata h trailers err =
     (let err = set_response_headers h err
      in if hm_is_empty trailers then err else set_trailers trailers err)"

definition map_response_decompression_error :: "connect_error \<Rightarrow> connect_error" where
  "map_response_decompression_error e =
     (case err_code e of
        Unimplemented \<Rightarrow> e\<lparr>err_code := Internal\<rparr>
      | InvalidArgument \<Rightarrow> e\<lparr>err_code := DataLoss\<rparr>
      | _ \<Rightarrow> e)"

definition JSON_FEATURE_DISABLED :: string where
  "JSON_FEATURE_DISABLED = ''JSON codec not compiled in (connectrpc built without the `json` feature)''"

definition decode_response_error :: "decode_failure \<Rightarrow> connect_error" where
  "decode_response_error e =
     (case e of
        ElementMemoryLimitExceeded m \<Rightarrow>
          new_error ResourceExhausted (''failed to decode response: '' @ m @
            ''; if this server is trusted, raise CallOptions::with_element_memory_limit or ClientConfig::with_default_element_memory_limit'')
      | OtherDecodeError m \<Rightarrow> internal (''failed to decode response: '' @ m))"

definition decode_response_view ::
    "('o, 'v) client_env \<Rightarrow> bytes \<Rightarrow> codec_format \<Rightarrow> decode_options \<Rightarrow> 'v connect_result" where
  "decode_response_view ce data format options =
     (let decode = (\<lambda>b. case ce_decode_view ce options b of Ok v \<Rightarrow> Ok v | Err e \<Rightarrow> Err (decode_response_error e)) in
      case format of
        Proto \<Rightarrow> decode data
      | Json \<Rightarrow>
          (if ce_json ce then
             (case ce_json_message ce data of
                Err e \<Rightarrow> Err (internal (''failed to decode JSON response: '' @ e))
              | Ok owned \<Rightarrow>
                  (case ce_encode_message ce owned of
                     Err e \<Rightarrow> Err (internal (''failed to re-encode for view: '' @ e))
                   | Ok b \<Rightarrow> decode b))
           else Err (unimplemented JSON_FEATURE_DISABLED)))"

section \<open>Lossy text\<close>

text \<open>
  \<^verbatim>\<open>String::from_utf8_lossy\<close>: the length of the character or of the maximal ill-formed prefix at
  the front, and whether it is a character.
\<close>

fun utf8_step :: "bytes \<Rightarrow> nat \<times> bool" where
  "utf8_step [] = (1, False)"
| "utf8_step (a # s) =
     (if in_range 0x00 0x7F a then (1, True)
      else if in_range 0xC2 0xDF a then
        (case s of b # _ \<Rightarrow> (if utf8_tail b then (2, True) else (1, False)) | [] \<Rightarrow> (1, False))
      else if in_range 0xE0 0xEF a then
        (case s of
           [] \<Rightarrow> (1, False)
         | b # s2 \<Rightarrow>
             (if \<not> (if unat a = 0xE0 then in_range 0xA0 0xBF b else if unat a = 0xED then in_range 0x80 0x9F b else utf8_tail b)
              then (1, False)
              else (case s2 of c # _ \<Rightarrow> (if utf8_tail c then (3, True) else (2, False)) | [] \<Rightarrow> (2, False))))
      else if in_range 0xF0 0xF4 a then
        (case s of
           [] \<Rightarrow> (1, False)
         | b # s2 \<Rightarrow>
             (if \<not> (if unat a = 0xF0 then in_range 0x90 0xBF b else if unat a = 0xF4 then in_range 0x80 0x8F b else utf8_tail b)
              then (1, False)
              else (case s2 of
                      [] \<Rightarrow> (2, False)
                    | c # s3 \<Rightarrow>
                        (if \<not> utf8_tail c then (2, False)
                         else (case s3 of d # _ \<Rightarrow> (if utf8_tail d then (4, True) else (3, False)) | [] \<Rightarrow> (3, False))))))
      else (1, False))"

lemma utf8_step_pos: "0 < fst (utf8_step s)"
  by (cases s) (auto split: list.splits)

function from_utf8_lossy :: "bytes \<Rightarrow> string" where
  "from_utf8_lossy s =
     (if s = [] then []
      else (let (n, ok) = utf8_step s
            in (if ok then from_bytes (take n s) else from_bytes [0xEF, 0xBF, 0xBD]) @ from_utf8_lossy (drop n s)))"
  by pat_completeness auto
termination
proof (relation "measure length", goal_cases)
  case (2 s p n ok)
  then have "0 < n" "s \<noteq> []" using utf8_step_pos [of s] by (metis fst_conv, simp)
  then show ?case by simp
qed simp

declare from_utf8_lossy.simps [simp del]

section \<open>The request\<close>

definition unary_request_content_type :: "client_config \<Rightarrow> string" where
  "unary_request_content_type config =
     (case cfg_protocol config of
        Connect \<Rightarrow> codec_content_type (cfg_codec_format config)
      | _ \<Rightarrow> response_content_type (cfg_protocol config) (cfg_codec_format config) False)"

definition streaming_request_content_type :: "client_config \<Rightarrow> string" where
  "streaming_request_content_type config = response_content_type (cfg_protocol config) (cfg_codec_format config) True"

text \<open>
  A request builder under construction: its headers, or \<open>None\<close> once a value that is no header
  value was given, as the builder of the \<^verbatim>\<open>http\<close> crate records it.
\<close>

definition builder_header :: "string \<Rightarrow> string option \<Rightarrow> headers option \<Rightarrow> headers option" where
  "builder_header name v b = Option.bind b (\<lambda>h. map_option (\<lambda>x. hm_append name x h) v)"

definition builder_optional :: "string \<Rightarrow> string option option \<Rightarrow> headers option \<Rightarrow> headers option" where
  "builder_optional name v b = (case v of None \<Rightarrow> b | Some x \<Rightarrow> builder_header name x b)"

definition add_unary_request_headers ::
    "text_ops \<Rightarrow> client_config \<Rightarrow> duration option \<Rightarrow> string option \<Rightarrow> headers option \<Rightarrow> headers option" where
  "add_unary_request_headers t config timeout applied_content_encoding b =
     (let b = builder_header ''content-type'' (Some (unary_request_content_type config)) b;
          accept = map_option Some (accept_encoding (cfg_compression config));
          encoding = map_option (value_from_str t) (request_compression config);
          b = (case cfg_protocol config of
                 Connect \<Rightarrow>
                   builder_optional ''accept-encoding'' accept
                     (builder_optional ''content-encoding'' (map_option (value_from_str t) applied_content_encoding)
                       (builder_header ''connect-protocol-version'' (Some ''1'') b))
               | Grpc \<Rightarrow>
                   builder_optional ''grpc-accept-encoding'' accept
                     (builder_optional ''grpc-encoding'' encoding (builder_header ''te'' (Some ''trailers'') b))
               | GrpcWeb \<Rightarrow>
                   builder_optional ''grpc-accept-encoding'' accept (builder_optional ''grpc-encoding'' encoding b))
      in builder_optional (timeout_header (cfg_protocol config))
           (map_option (\<lambda>d. Some (format_timeout d (cfg_protocol config))) timeout) b)"

definition add_streaming_request_headers ::
    "text_ops \<Rightarrow> client_config \<Rightarrow> duration option \<Rightarrow> headers option \<Rightarrow> headers option" where
  "add_streaming_request_headers t config timeout b =
     (let p = cfg_protocol config;
          b = builder_header ''content-type'' (Some (streaming_request_content_type config)) b;
          b = (case p of
                 Connect \<Rightarrow> builder_header ''connect-protocol-version'' (Some ''1'') b
               | Grpc \<Rightarrow> builder_header ''te'' (Some ''trailers'') b
               | GrpcWeb \<Rightarrow> b);
          b = builder_optional (content_encoding_header p) (map_option (value_from_str t) (request_compression config)) b;
          b = builder_optional (accept_encoding_header_name p) (map_option Some (accept_encoding (cfg_compression config))) b
      in builder_optional (timeout_header p) (map_option (\<lambda>d. Some (format_timeout d p)) timeout) b)"

text \<open>Compression and framing of the request body, with the content encoding applied to it.\<close>

definition unary_request_body ::
    "client_config \<Rightarrow> call_options \<Rightarrow> bytes \<Rightarrow> (bytes \<times> string option) connect_result" where
  "unary_request_body config options body =
     (case cfg_protocol config of
        Connect \<Rightarrow> get_payload config options body
      | _ \<Rightarrow>
          (case encoder_encode
                  \<lparr>enc_compression = map_option (Pair (cfg_compression config)) (request_compression config),
                   enc_policy = with_override (cfg_compression_policy config) (opt_compress options)\<rparr> body [] of
             Ok buf \<Rightarrow> Ok (buf, None)
           | Err e \<Rightarrow> Err (internal (''envelope encode failed: '' @ display_error e))))"

text \<open>
  The request of \<^verbatim>\<open>call_unary\<close>; \<open>encoded\<close> is the codec's answer for the message. The builder is
  unwrapped before the caller's headers are merged, which panics if it holds an error.
\<close>

definition unary_http_request ::
    "('o, 'v) client_env \<Rightarrow> uri_ops \<Rightarrow> client_config \<Rightarrow> spec \<Rightarrow> bytes connect_result \<Rightarrow> call_options \<Rightarrow>
     client_request connect_result option" where
  "unary_http_request ce u config s encoded options =
     (case result_bind (check_client_spec u s StUnary ''call_unary'') (\<lambda>_.
             result_bind (procedure_uri u config (procedure s) None) (\<lambda>target.
             result_bind encoded (\<lambda>body.
             result_bind (unary_request_body config options body) (\<lambda>(b, applied). Ok (target, b, applied))))) of
        Err e \<Rightarrow> Some (Err e)
      | Ok (target, b, applied) \<Rightarrow>
          map_option (\<lambda>h. Ok \<lparr>cq_uri = target, cq_headers = hm_append_all (hm_iter (opt_headers options)) h, cq_body = b\<rparr>)
            (add_unary_request_headers (ce_text ce) config (opt_timeout options) applied (Some hm_new)))"

section \<open>Reading a response body\<close>

fun collect_body_loop ::
    "(string \<Rightarrow> connect_error) \<Rightarrow> usize \<Rightarrow> client_body \<Rightarrow> bytes option \<Rightarrow> bytes option \<Rightarrow> usize \<Rightarrow> bytes connect_result" where
  "collect_body_loop classify max_size [] head joined len =
     Ok (case joined of Some buf \<Rightarrow> buf | None \<Rightarrow> (case head of Some first \<Rightarrow> first | None \<Rightarrow> []))"
| "collect_body_loop classify max_size (Err e # frames) head joined len = Err (classify e)"
| "collect_body_loop classify max_size (Ok (TrailersFrame _) # frames) head joined len =
     collect_body_loop classify max_size frames head joined len"
| "collect_body_loop classify max_size (Ok (DataFrame data) # frames) head joined len =
     (let len = saturating_add len (length data) in
      if len > max_size
      then Err (new_error ResourceExhausted (''response body size exceeds limit '' @ show_nat max_size))
      else if data = [] then collect_body_loop classify max_size frames head joined len
      else (case joined of
              Some buf \<Rightarrow> collect_body_loop classify max_size frames head (Some (buf @ data)) len
            | None \<Rightarrow>
                (case head of
                   None \<Rightarrow> collect_body_loop classify max_size frames (Some data) None len
                 | Some first \<Rightarrow> collect_body_loop classify max_size frames None (Some (first @ data)) len)))"

definition collect_body_bounded ::
    "('o, 'v) client_env \<Rightarrow> client_body \<Rightarrow> usize \<Rightarrow> instant option \<Rightarrow> bytes connect_result" where
  "collect_body_bounded ce body max_size deadline =
     collect_body_loop (\<lambda>e. classify_body_read_error ce ''failed to read response body'' e deadline) max_size body None None 0"

section \<open>A Connect response\<close>

text \<open>The loop that sorts \<^verbatim>\<open>trailer-\<close> headers from the others.\<close>

definition split_trailer_headers :: "text_ops \<Rightarrow> headers \<Rightarrow> headers \<times> headers" where
  "split_trailer_headers t h =
     fold (\<lambda>(name, v) (hs, ts).
         case strip_prefix ''trailer-'' name of
           Some rest \<Rightarrow>
             (case name_from_bytes t (as_bytes rest) of
                Some n \<Rightarrow> (hs, hm_append n v ts)
              | None \<Rightarrow> (hs, ts))
         | None \<Rightarrow> (hm_append name v hs, ts))
       (hm_iter h) (hm_new, hm_new)"

text \<open>The media type of a header value, its parameters cut off.\<close>

definition normalized_type :: "string \<Rightarrow> string" where
  "normalized_type ct = str_trim (case split_once (CHR '';'') ct of None \<Rightarrow> ct | Some (m, _) \<Rightarrow> m)"

definition unexpected_content_type :: "error_code \<Rightarrow> string \<Rightarrow> string \<Rightarrow> headers \<Rightarrow> connect_error" where
  "unexpected_content_type code ct expected h =
     set_response_headers h (new_error code (''unexpected content-type: '' @ ct @ '' (expected '' @ expected @ '')''))"

definition validate_connect_response_content_type ::
    "headers \<Rightarrow> codec_format \<Rightarrow> bool \<Rightarrow> unit connect_result" where
  "validate_connect_response_content_type h codec streaming =
     (case hm_get h ''content-type'' of
        None \<Rightarrow> Ok ()
      | Some raw \<Rightarrow>
          (let ct = (case header_to_str raw of Some c \<Rightarrow> c | None \<Rightarrow> []);
               normalized = normalized_type ct;
               expected = response_content_type Connect codec streaming
           in if normalized = expected then Ok ()
              else
                (let same_family = (if streaming then starts_with normalized ''application/connect+''
                                    else normalized = content_type_PROTO \<or> normalized = content_type_JSON)
                 in Err (unexpected_content_type (if same_family then Internal else Unknown) ct expected h))))"

definition max_message_size_of :: "call_options \<Rightarrow> usize" where
  "max_message_size_of options =
     (case opt_max_message_size options of Some n \<Rightarrow> n | None \<Rightarrow> DEFAULT_MAX_MESSAGE_SIZE)"

text \<open>The error of a Connect response whose status is no success.\<close>

definition connect_error_response ::
    "('o, 'v) client_env \<Rightarrow> client_response \<Rightarrow> client_config \<Rightarrow> call_options \<Rightarrow> instant option \<Rightarrow> connect_error" where
  "connect_error_response ce response config options deadline =
     (let status = cr_status response;
          (h, trailers) = split_trailer_headers (ce_text ce) (cr_headers response);
          attach = (\<lambda>e. set_trailers trailers (set_response_headers h e));
          limit = max_message_size_of options
      in case collect_body_bounded ce (cr_body response) limit deadline of
           Err e \<Rightarrow> attach e
         | Ok body \<Rightarrow>
             (case (case hm_get_str (cr_headers response) ''content-encoding'' of
                      Some encoding \<Rightarrow> registry_decompress_with_limit (cfg_compression config) encoding body limit
                    | None \<Rightarrow> Ok body) of
                Err _ \<Rightarrow> attach (new_error (http_status_to_error_code status) (''HTTP error '' @ show_nat status))
              | Ok body \<Rightarrow>
                  (case ce_json_error ce body of
                     Some eb \<Rightarrow>
                       (let code = (case Option.bind (eb_code eb) error_code_from_str of
                                      Some c \<Rightarrow> c | None \<Rightarrow> http_status_to_error_code status);
                            err = new_error code (case eb_message eb of Some m \<Rightarrow> m | None \<Rightarrow> [])
                        in attach (err\<lparr>err_details := eb_details eb\<rparr>))
                   | None \<Rightarrow>
                       attach (new_error (http_status_to_error_code status)
                         (''HTTP error '' @ show_nat status @ '': '' @ from_utf8_lossy body)))))"

definition parse_connect_unary_response ::
    "('o, 'v) client_env \<Rightarrow> client_response \<Rightarrow> client_config \<Rightarrow> call_options \<Rightarrow> instant option \<Rightarrow>
     'v unary_response_view connect_result" where
  "parse_connect_unary_response ce response config options deadline =
     (if \<not> is_success (cr_status response) then Err (connect_error_response ce response config options deadline)
      else
        (let (h, trailers) = split_trailer_headers (ce_text ce) (cr_headers response);
             attach = (\<lambda>r. case r of Err e \<Rightarrow> Err (with_response_metadata h trailers e) | Ok x \<Rightarrow> Ok x);
             limit = max_message_size_of options
         in case validate_connect_response_content_type h (cfg_codec_format config) False of
              Err e \<Rightarrow> Err (set_trailers trailers e)
            | Ok _ \<Rightarrow>
                result_bind (attach (collect_body_bounded ce (cr_body response) limit deadline)) (\<lambda>body.
                result_bind (case hm_get_str (cr_headers response) ''content-encoding'' of
                    Some encoding \<Rightarrow>
                      (case registry_decompress_with_limit (cfg_compression config) encoding body limit of
                         Ok b \<Rightarrow> Ok b
                       | Err e \<Rightarrow> Err (with_response_metadata h trailers (map_response_decompression_error e)))
                  | None \<Rightarrow> Ok body) (\<lambda>body.
                if length body > limit
                then Err (with_response_metadata h trailers
                       (new_error ResourceExhausted (''message size '' @ show_nat (length body) @ '' exceeds limit '' @ show_nat limit)))
                else
                  (case decode_response_view ce body (cfg_codec_format config) (opt_element_memory_limit options) of
                     Err e \<Rightarrow> Err (with_response_metadata h trailers e)
                   | Ok message \<Rightarrow> Ok \<lparr>ur_headers = h, ur_body = message, ur_trailers = trailers\<rparr>)))))"

section \<open>A gRPC response\<close>

definition RESPONSE_BUFFER_TRAILER_SLACK :: usize where "RESPONSE_BUFFER_TRAILER_SLACK = 64 * 1024"

function trailer_frame_end_loop :: "bytes \<Rightarrow> usize \<Rightarrow> usize option" where
  "trailer_frame_end_loop data offset =
     (if length data - offset < HEADER_SIZE then None
      else
        (let len = unat (u32_from_be_bytes (data ! (offset + 1)) (data ! (offset + 2)) (data ! (offset + 3)) (data ! (offset + 4)));
             frame_end = offset + HEADER_SIZE + len
         in if frame_end > usize_MAX \<or> frame_end > length data then None
            else if data ! offset AND flags_GRPC_WEB_TRAILER \<noteq> 0 then Some frame_end
            else trailer_frame_end_loop data frame_end))"
  by pat_completeness auto
termination
  by (relation "measure (\<lambda>(data, offset). length data - offset)") (auto simp: HEADER_SIZE_def)

declare trailer_frame_end_loop.simps [simp del]

definition grpc_web_trailer_frame_end :: "bytes \<Rightarrow> usize option" where
  "grpc_web_trailer_frame_end data = trailer_frame_end_loop data 0"

definition validate_grpc_response_content_type ::
    "headers \<Rightarrow> protocol \<Rightarrow> codec_format \<Rightarrow> unit connect_result" where
  "validate_grpc_response_content_type h p codec =
     (case hm_get h ''content-type'' of
        None \<Rightarrow> Ok ()
      | Some raw \<Rightarrow>
          (let ct = (case header_to_str raw of Some c \<Rightarrow> c | None \<Rightarrow> []);
               normalized = normalized_type ct;
               expected = response_content_type p codec False
           in case p of
                Connect \<Rightarrow> Ok ()
              | _ \<Rightarrow>
                  (let bare = (if p = Grpc then ''application/grpc'' else ''application/grpc-web'')
                   in if normalized = expected \<or> normalized = bare then Ok ()
                      else Err (unexpected_content_type
                             (if starts_with normalized (bare @ ''+'') then Internal else Unknown) ct expected h))))"

definition check_grpc_response_head ::
    "nat \<Rightarrow> headers \<Rightarrow> protocol \<Rightarrow> codec_format \<Rightarrow> unit connect_result" where
  "check_grpc_response_head status h p codec =
     (let ct = validate_grpc_response_content_type h p codec;
          speaks_grpc = (is_ok ct \<and> (hm_contains h ''content-type'' \<or> hm_contains h ''grpc-status''))
      in if \<not> is_success status \<and> \<not> speaks_grpc
         then Err (case ct of
                Err err \<Rightarrow>
                  err\<lparr>err_code := http_status_to_error_code status,
                      err_message := Some (''HTTP error '' @ show_nat status @ '': '' @
                        (case err_message err of Some m \<Rightarrow> m | None \<Rightarrow> []))\<rparr>
              | Ok _ \<Rightarrow>
                  set_response_headers h
                    (new_error (http_status_to_error_code status) (''HTTP error '' @ show_nat status)))
         else ct)"

record grpc_read =
  gr_buf :: bytes
  gr_trailers :: headers
  gr_has_data :: bool

text \<open>The loop that reads the frames of a gRPC response into a bounded buffer.\<close>

fun grpc_read_loop ::
    "(string \<Rightarrow> connect_error) \<Rightarrow> bool \<Rightarrow> protocol \<Rightarrow> usize \<Rightarrow> client_body \<Rightarrow> grpc_read \<Rightarrow> grpc_read connect_result" where
  "grpc_read_loop classify success p max_buf [] st = Ok st"
| "grpc_read_loop classify success p max_buf (Err e # frames) st =
     (if success then Err (classify e) else Ok st)"
| "grpc_read_loop classify success p max_buf (Ok (TrailersFrame t) # frames) st =
     grpc_read_loop classify success p max_buf frames (st\<lparr>gr_trailers := t\<rparr>)"
| "grpc_read_loop classify success p max_buf (Ok (DataFrame data) # frames) st =
     (let remaining = max_buf - length (gr_buf st);
          append_len = min (length data) remaining;
          buf = gr_buf st @ take append_len data;
          st = st\<lparr>gr_buf := buf, gr_has_data := gr_has_data st \<or> data \<noteq> []\<rparr>
      in case (if p = GrpcWeb then grpc_web_trailer_frame_end buf else None) of
           Some trailer_end \<Rightarrow> Ok (st\<lparr>gr_buf := take trailer_end buf\<rparr>)
         | None \<Rightarrow>
             (if append_len < length data
              then Err (resource_exhausted (''response body size exceeds limit '' @ show_nat max_buf))
              else grpc_read_loop classify success p max_buf frames st))"

text \<open>\<^verbatim>\<open>{:#04x}\<close> of a byte.\<close>

definition hex_byte :: "byte \<Rightarrow> string" where
  "hex_byte b = ''0x'' @ map (\<lambda>d. if d < 10 then char_of (48 + d) else char_of (87 + d)) [unat b div 16, unat b mod 16]"

text \<open>The message of one response envelope.\<close>

definition response_envelope_data ::
    "compression_registry \<Rightarrow> string option \<Rightarrow> usize \<Rightarrow> envelope \<Rightarrow> bytes connect_result" where
  "response_envelope_data registry encoding max_size env =
     (if is_compressed env then
        (case encoding of
           None \<Rightarrow> Err (internal ''received compressed message without grpc-encoding header'')
         | Some enc \<Rightarrow>
             (if enc = ''identity'' then Err (internal ''received compressed message with identity encoding'')
              else (case registry_decompress_with_limit registry enc (env_data env) max_size of
                      Ok d \<Rightarrow> Ok d | Err e \<Rightarrow> Err (map_response_decompression_error e))))
      else Ok (env_data env))"

text \<open>The loop over the envelopes in the buffer: the one message, and the trailers.\<close>

lemma decode_contiguous_shrinks:
  "decode_contiguous buf n = (Ok (Some env), rest) \<Longrightarrow> length rest < length buf"
  by (auto simp: decode_contiguous_def Let_def HEADER_SIZE_def split: if_splits)

function grpc_envelope_loop ::
    "('o, 'v) client_env \<Rightarrow> client_config \<Rightarrow> nat \<Rightarrow> headers \<Rightarrow> string option \<Rightarrow> usize \<Rightarrow> bytes \<Rightarrow> bytes option \<Rightarrow> headers \<Rightarrow>
     (bytes option \<times> headers) connect_result" where
  "grpc_envelope_loop ce config status h encoding max_size buf message trailers =
     (if buf = [] then Ok (message, trailers)
      else if buf ! 0 AND flags_GRPC_WEB_TRAILER \<noteq> 0 then
        (if cfg_protocol config \<noteq> GrpcWeb
         then Err (body_parse_error status h (''invalid gRPC response framing: envelope flag '' @ hex_byte (buf ! 0) @
                '' (gRPC-Web trailer marker) is not valid on a plain gRPC response''))
         else (case parse_grpc_web_trailer_frame_with_compression (ce_text ce) buf
                      (map_option (Pair (cfg_compression config)) encoding) of
                 Some t \<Rightarrow> Ok (message, t)
               | None \<Rightarrow> Ok (message, trailers)))
      else
        (case decode_with_limit buf max_size of
           (Err e, _) \<Rightarrow> Err (body_parse_error status h (''envelope decode failed: '' @ display_error e))
         | (Ok None, _) \<Rightarrow> Ok (message, trailers)
         | (Ok (Some env), rest) \<Rightarrow>
             (if message \<noteq> None
              then Err (set_response_headers h
                     (unimplemented ''received multiple response messages where exactly one was expected''))
              else
                (case response_envelope_data (cfg_compression config) encoding max_size env of
                   Err e \<Rightarrow> Err e
                 | Ok d \<Rightarrow> grpc_envelope_loop ce config status h encoding max_size rest (Some d) trailers))))"
  by pat_completeness auto
termination
  by (relation "measure (\<lambda>(ce, config, status, h, encoding, max_size, buf, message, trailers). length buf)")
    (auto simp: decode_with_limit_def dest!: sym [of "(_, _)"] decode_contiguous_shrinks)

declare grpc_envelope_loop.simps [simp del]

text \<open>What the status in the trailers, or in the headers of a trailers-only response, makes of the message.\<close>

definition grpc_unary_outcome ::
    "('o, 'v) client_env \<Rightarrow> client_config \<Rightarrow> call_options \<Rightarrow> instant option \<Rightarrow> nat \<Rightarrow> headers \<Rightarrow> bool \<Rightarrow> bytes option \<Rightarrow> headers \<Rightarrow>
     'v unary_response_view connect_result" where
  "grpc_unary_outcome ce config options deadline status h has_data message trailers =
     (let status_from_headers = (hm_is_empty trailers \<and> \<not> has_data);
          effective = (if status_from_headers then h else trailers)
      in case parse_grpc_error_from_trailers (ce_text ce) (ce_wire ce) effective of
           Some err \<Rightarrow>
             Err (set_response_headers h (if status_from_headers then err\<lparr>trailers_field := Some hm_new\<rparr> else err))
         | None \<Rightarrow>
             (if \<not> is_success status
              then Err (set_response_headers h
                     (new_error (http_status_to_error_code status) (''HTTP error '' @ show_nat status)))
              else if hm_get effective ''grpc-status'' = None
              then Err (set_response_headers h
                     (if deadline_elapsed ce deadline then deadline_exceeded ''request timeout''
                      else internal ''gRPC response missing grpc-status trailer''))
              else
                (case message of
                   None \<Rightarrow> Err (set_response_headers h (unimplemented ''gRPC response contained no message data''))
                 | Some data \<Rightarrow>
                     (case opt_max_message_size options of
                        Some m \<Rightarrow>
                          (if length data > m
                           then Err (new_error ResourceExhausted
                                  (''message size '' @ show_nat (length data) @ '' exceeds limit '' @ show_nat m))
                           else result_bind (decode_response_view ce data (cfg_codec_format config) (opt_element_memory_limit options))
                                  (\<lambda>v. Ok \<lparr>ur_headers = h, ur_body = v, ur_trailers = trailers\<rparr>))
                      | None \<Rightarrow>
                          result_bind (decode_response_view ce data (cfg_codec_format config) (opt_element_memory_limit options))
                            (\<lambda>v. Ok \<lparr>ur_headers = h, ur_body = v, ur_trailers = trailers\<rparr>)))))"

definition parse_grpc_unary_response ::
    "('o, 'v) client_env \<Rightarrow> client_response \<Rightarrow> client_config \<Rightarrow> call_options \<Rightarrow> instant option \<Rightarrow>
     'v unary_response_view connect_result" where
  "parse_grpc_unary_response ce response config options deadline =
     (let status = cr_status response; h = cr_headers response; p = cfg_protocol config in
      result_bind (check_grpc_response_head status h p (cfg_codec_format config)) (\<lambda>_.
      let encoding = hm_get_str h ''grpc-encoding'';
          unsupported = (case encoding of
              Some enc \<Rightarrow> (if enc \<noteq> ''identity'' \<and> \<not> supports (cfg_compression config) enc then Some enc else None)
            | None \<Rightarrow> None);
          max_size = max_message_size_of options;
          max_buf = saturating_add (saturating_add max_size HEADER_SIZE) RESPONSE_BUFFER_TRAILER_SLACK
      in case unsupported of
           Some enc \<Rightarrow> Err (set_response_headers h (internal (''unsupported response compression: '' @ enc)))
         | None \<Rightarrow>
             result_bind (grpc_read_loop (\<lambda>e. classify_body_read_error ce ''failed to read response body'' e deadline)
                 (is_success status) p max_buf (cr_body response)
                 \<lparr>gr_buf = [], gr_trailers = hm_new, gr_has_data = False\<rparr>) (\<lambda>r.
             result_bind (grpc_envelope_loop ce config status h encoding max_size (gr_buf r) None (gr_trailers r)) (\<lambda>(message, trailers).
             grpc_unary_outcome ce config options deadline status h (gr_has_data r) message trailers))))"

section \<open>The call\<close>

text \<open>\<^verbatim>\<open>call_unary\<close> over a transport given as a function of the request.\<close>

definition call_unary ::
    "('o, 'v) client_env \<Rightarrow> uri_ops \<Rightarrow> (client_request \<Rightarrow> (client_response, transport_error) result) \<Rightarrow> client_config \<Rightarrow> spec \<Rightarrow>
     bytes connect_result \<Rightarrow> call_options \<Rightarrow> 'v unary_response_view connect_result option" where
  "call_unary ce u transport config s encoded opts =
     (let options = effective_options config opts;
          deadline = client_deadline (ce_now ce) (opt_timeout options) (cfg_protocol config)
      in map_option (\<lambda>r. result_bind r (\<lambda>request.
             with_deadline ce deadline
               (case transport request of
                  Err e \<Rightarrow> Err (map_transport_send_error e ''request failed'')
                | Ok response \<Rightarrow>
                    (if cfg_protocol config = Connect
                     then parse_connect_unary_response ce response config options deadline
                     else parse_grpc_unary_response ce response config options deadline))))
           (unary_http_request ce u config s encoded options))"

end
