(* ===== verification/ClientProps.thy ===== *)
theory ClientProps
  imports ClientUnary ServiceProps
begin

text \<open>
  The client against the service: what the client reads from the responses the service sends,
  and the composition of \<^verbatim>\<open>call_unary\<close> with \<^verbatim>\<open>ConnectRpcService::call\<close>.
\<close>

section \<open>Reading the frames of a gRPC response\<close>

lemma frame_end_short: "length w < off + 5 \<Longrightarrow> trailer_frame_end_loop w off = None"
  by (subst trailer_frame_end_loop.simps) (auto simp: HEADER_SIZE_def)

lemma frame_end_step:
  assumes "drop off w = envelope_bytes flag data @ rest" and "off \<le> length w"
    and "length data \<le> u32_MAX" and "length w \<le> usize_MAX"
  shows "trailer_frame_end_loop w off =
    (if flag AND flags_GRPC_WEB_TRAILER \<noteq> 0 then Some (off + 5 + length data)
     else trailer_frame_end_loop w (off + 5 + length data))"
proof -
  have l: "length w = off + (5 + length data + length rest)"
    using arg_cong [OF assms(1), of length] assms(2) by (simp add: envelope_bytes_def u32_to_be_bytes_def)
  have n: "w ! (off + i) = (envelope_bytes flag data @ rest) ! i" for i
    using assms(1,2) by (metis nth_drop)
  have "w ! off = flag" using n [of 0] by (simp add: envelope_bytes_def)
  moreover have "unat (u32_from_be_bytes (w ! (off + 1)) (w ! (off + 2)) (w ! (off + 3)) (w ! (off + 4))) = length data"
    using assms(3) unfolding n by (simp add: envelope_bytes_def u32_to_be_bytes_def u32_be_roundtrip unat_word_of_nat_u32)
  ultimately show ?thesis
    using l assms(4) by (subst trailer_frame_end_loop.simps) (simp add: HEADER_SIZE_def Let_def)
qed

lemma frame_end_incomplete:
  assumes "length data \<le> u32_MAX" and "k < length (envelope_bytes flag data)"
  shows "trailer_frame_end_loop (take k (envelope_bytes flag data)) 0 = None"
proof (cases "k < 5")
  case True
  then show ?thesis by (intro frame_end_short) simp
next
  case False
  let ?w = "take k (envelope_bytes flag data)"
  have l: "length ?w = k" "k < 5 + length data"
    using assms(2) by (simp_all add: envelope_bytes_def u32_to_be_bytes_def)
  have "unat (u32_from_be_bytes (envelope_bytes flag data ! Suc 0) (envelope_bytes flag data ! Suc (Suc 0))
      (envelope_bytes flag data ! 3) (envelope_bytes flag data ! 4)) = length data"
    using assms(1) by (simp add: envelope_bytes_def u32_to_be_bytes_def u32_be_roundtrip unat_word_of_nat_u32)
  then show ?thesis
    using l False by (subst trailer_frame_end_loop.simps) (simp add: HEADER_SIZE_def Let_def)
qed

lemma envelope_prefix_no_trailer:
  assumes "flag AND flags_GRPC_WEB_TRAILER = 0" and "length data \<le> u32_MAX"
  shows "grpc_web_trailer_frame_end (take k (envelope_bytes flag data)) = None"
proof (cases "k < length (envelope_bytes flag data)")
  case True
  then show ?thesis by (simp add: grpc_web_trailer_frame_end_def frame_end_incomplete [OF assms(2)])
next
  case False
  have l: "length (envelope_bytes flag data) = 5 + length data"
    by (simp add: envelope_bytes_def u32_to_be_bytes_def)
  moreover have "5 + length data \<le> usize_MAX" using assms(2) by (simp add: u32_MAX_def usize_MAX_def)
  ultimately have "trailer_frame_end_loop (envelope_bytes flag data) 0 = None"
    using frame_end_step [of 0 "envelope_bytes flag data" flag data "[]"] assms frame_end_short [of "envelope_bytes flag data" "5 + length data"]
    by simp
  then show ?thesis using False by (simp add: grpc_web_trailer_frame_end_def)
qed

lemma web_frame_end:
  assumes "flag AND flags_GRPC_WEB_TRAILER = 0" and "length data \<le> u32_MAX" and "length tr \<le> MAX_GRPC_WEB_TRAILER_SIZE"
  shows "grpc_web_trailer_frame_end (envelope_bytes flag data @ envelope_bytes flags_GRPC_WEB_TRAILER tr) =
      Some (10 + length data + length tr)"
    and "grpc_web_trailer_frame_end (envelope_bytes flags_GRPC_WEB_TRAILER tr) = Some (5 + length tr)"
proof -
  have l: "length (envelope_bytes f d) = 5 + length d" for f d by (simp add: envelope_bytes_def u32_to_be_bytes_def)
  have u: "10 + length data + length tr \<le> usize_MAX" "length tr \<le> u32_MAX"
    using assms(2,3) by (simp_all add: u32_MAX_def usize_MAX_def MAX_GRPC_WEB_TRAILER_SIZE_def)
  have f: "flags_GRPC_WEB_TRAILER AND flags_GRPC_WEB_TRAILER \<noteq> 0" by (simp add: flags_defs)
  show "grpc_web_trailer_frame_end (envelope_bytes flags_GRPC_WEB_TRAILER tr) = Some (5 + length tr)"
    using frame_end_step [of 0 "envelope_bytes flags_GRPC_WEB_TRAILER tr" flags_GRPC_WEB_TRAILER tr "[]"] u l f
    by (simp add: grpc_web_trailer_frame_end_def)
  show "grpc_web_trailer_frame_end (envelope_bytes flag data @ envelope_bytes flags_GRPC_WEB_TRAILER tr) =
      Some (10 + length data + length tr)"
    using frame_end_step [of 0 "envelope_bytes flag data @ envelope_bytes flags_GRPC_WEB_TRAILER tr" flag data
        "envelope_bytes flags_GRPC_WEB_TRAILER tr"]
      frame_end_step [of "5 + length data" "envelope_bytes flag data @ envelope_bytes flags_GRPC_WEB_TRAILER tr"
        flags_GRPC_WEB_TRAILER tr "[]"] u l f assms(1,2)
    by (simp add: grpc_web_trailer_frame_end_def)
qed

lemma read_data_frame:
  assumes "p = GrpcWeb \<Longrightarrow> grpc_web_trailer_frame_end (gr_buf st @ d) = None"
    and "length (gr_buf st) + length d \<le> max_buf"
  shows "grpc_read_loop c s p max_buf (Ok (DataFrame d) # frames) st =
    grpc_read_loop c s p max_buf frames (st\<lparr>gr_buf := gr_buf st @ d, gr_has_data := gr_has_data st \<or> d \<noteq> []\<rparr>)"
proof -
  have "min (length d) (max_buf - length (gr_buf st)) = length d" using assms(2) by simp
  then show ?thesis using assms(1) by (simp add: Let_def)
qed

lemma read_data_frames:
  assumes "p = GrpcWeb \<Longrightarrow> \<forall>k. grpc_web_trailer_frame_end (gr_buf st @ take k (concat ds)) = None"
    and "length (gr_buf st) + length (concat ds) \<le> max_buf"
  shows "grpc_read_loop c s p max_buf (map (\<lambda>d. Ok (DataFrame d)) ds @ frames) st =
    grpc_read_loop c s p max_buf frames
      (st\<lparr>gr_buf := gr_buf st @ concat ds, gr_has_data := gr_has_data st \<or> concat ds \<noteq> []\<rparr>)"
  using assms
proof (induction ds arbitrary: st)
  case (Cons d ds)
  let ?st = "st\<lparr>gr_buf := gr_buf st @ d, gr_has_data := gr_has_data st \<or> d \<noteq> []\<rparr>"
  have "grpc_web_trailer_frame_end (gr_buf st @ d) = None" if "p = GrpcWeb"
    using Cons.prems(1) [OF that, rule_format, of "length d"] by simp
  note step = read_data_frame [OF this, where c = c and s = s and max_buf = max_buf and frames = "map (\<lambda>d. Ok (DataFrame d)) ds @ frames"]
  have "\<forall>k. grpc_web_trailer_frame_end (gr_buf ?st @ take k (concat ds)) = None" if "p = GrpcWeb"
  proof
    fix k
    show "grpc_web_trailer_frame_end (gr_buf ?st @ take k (concat ds)) = None"
      using Cons.prems(1) [OF that, rule_format, of "length d + k"] by simp
  qed
  from step Cons.IH [OF this] Cons.prems(2) show ?case
    by (simp del: grpc_read_loop.simps add: disj_assoc bex_Un)
qed simp

section \<open>From the frames to the message and the trailers\<close>

text \<open>The last frame of a gRPC unary response, and when the client can read it.\<close>

definition trailer_frame :: "protocol \<Rightarrow> headers \<Rightarrow> http_frame" where
  "trailer_frame p t = (if p = Grpc then TrailersFrame t else DataFrame (encode_grpc_web_trailers t))"

definition trailers_fit :: "text_ops \<Rightarrow> protocol \<Rightarrow> headers \<Rightarrow> bool" where
  "trailers_fit t p h \<longleftrightarrow> hm_wf h \<and> h \<noteq> [] \<and>
     (p = GrpcWeb \<longrightarrow> list_all (entry_ok t) (hm_iter h) \<and>
       length (encode_grpc_web_trailers h) \<le> RESPONSE_BUFFER_TRAILER_SLACK \<and>
       list_all (\<lambda>n. \<not> map_full t (hm_append_all (take n (hm_iter h)) hm_new)) [0..<Suc (length (hm_iter h))])"

lemma encode_web_envelope:
  "encode_grpc_web_trailers h = envelope_bytes flags_GRPC_WEB_TRAILER (as_bytes (concat (map trailer_line (hm_iter h))))"
  by (simp add: encode_grpc_web_trailers_def envelope_bytes_def Let_def)

lemma trailers_fit_web:
  assumes "trailers_fit t GrpcWeb h"
  shows "parse_grpc_web_trailer_frame_with_compression t (encode_grpc_web_trailers h) decompression = Some h"
    and "length (as_bytes (concat (map trailer_line (hm_iter h)))) + 5 \<le> RESPONSE_BUFFER_TRAILER_SLACK"
proof -
  show slack: "length (as_bytes (concat (map trailer_line (hm_iter h)))) + 5 \<le> RESPONSE_BUFFER_TRAILER_SLACK"
    using assms by (simp add: trailers_fit_def encode_web_envelope envelope_bytes_def u32_to_be_bytes_def)
  show "parse_grpc_web_trailer_frame_with_compression t (encode_grpc_web_trailers h) decompression = Some h"
    using assms slack
    by (intro web_trailers_survive)
      (auto simp: trailers_fit_def list_all_iff RESPONSE_BUFFER_TRAILER_SLACK_def MAX_GRPC_WEB_TRAILER_SIZE_def)
qed

lemma envelope_loop_data:
  assumes "flag AND flags_GRPC_WEB_TRAILER = 0" and "length data \<le> M" and "length data \<le> u32_MAX"
    and "response_envelope_data (cfg_compression config) encoding M \<lparr>env_flags = flag, env_data = data\<rparr> = Ok m"
  shows "grpc_envelope_loop ce config status h encoding M (envelope_bytes flag data @ rest) None tr =
    grpc_envelope_loop ce config status h encoding M rest (Some m) tr"
proof -
  have "decode_with_limit (envelope_bytes flag data @ rest) M = (Ok (Some \<lparr>env_flags = flag, env_data = data\<rparr>), rest)"
    using spec_decode_envelope [OF assms(2,3), of flag rest] by (simp add: decode_with_limit_def decode_contiguous_spec)
  moreover have "(envelope_bytes flag data @ rest) ! 0 = flag" "envelope_bytes flag data \<noteq> []"
    by (simp_all add: envelope_bytes_def)
  ultimately show ?thesis
    using assms(1,4) by (subst grpc_envelope_loop.simps) simp
qed

lemma envelope_loop_web:
  assumes "trailers_fit (ce_text ce) GrpcWeb t" and "cfg_protocol config = GrpcWeb"
  shows "grpc_envelope_loop ce config status h encoding M (encode_grpc_web_trailers t) message tr = Ok (message, t)"
proof -
  have "encode_grpc_web_trailers t ! 0 = flags_GRPC_WEB_TRAILER" "encode_grpc_web_trailers t \<noteq> []"
    by (simp_all add: encode_grpc_web_trailers_def Let_def)
  then show ?thesis
    using trailers_fit_web [OF assms(1)] assms(2) trailer_flag_bits
    by (subst grpc_envelope_loop.simps) simp
qed

lemma envelope_loop_end: "grpc_envelope_loop ce config status h encoding M [] message tr = Ok (message, tr)"
  by (subst grpc_envelope_loop.simps) simp

text \<open>Reading and decoding in one: what reaches \<open>grpc_unary_outcome\<close>.\<close>

definition grpc_body_parts ::
    "('o, 'v) client_env \<Rightarrow> client_config \<Rightarrow> call_options \<Rightarrow> instant option \<Rightarrow> nat \<Rightarrow> headers \<Rightarrow> string option \<Rightarrow> client_body \<Rightarrow>
     (bool \<times> bytes option \<times> headers) connect_result" where
  "grpc_body_parts ce config options deadline status h encoding body =
     (let max_size = max_message_size_of options;
          max_buf = saturating_add (saturating_add max_size HEADER_SIZE) RESPONSE_BUFFER_TRAILER_SLACK
      in result_bind (grpc_read_loop (\<lambda>e. classify_body_read_error ce ''failed to read response body'' e deadline)
           (is_success status) (cfg_protocol config) max_buf body \<lparr>gr_buf = [], gr_trailers = hm_new, gr_has_data = False\<rparr>) (\<lambda>r.
         result_bind (grpc_envelope_loop ce config status h encoding max_size (gr_buf r) None (gr_trailers r)) (\<lambda>(message, trailers).
         Ok (gr_has_data r, message, trailers))))"

lemma max_buf_room:
  assumes "a \<le> n + 5 + RESPONSE_BUFFER_TRAILER_SLACK" and "a \<le> u32_MAX + 5 + RESPONSE_BUFFER_TRAILER_SLACK"
  shows "a \<le> saturating_add (saturating_add n HEADER_SIZE) RESPONSE_BUFFER_TRAILER_SLACK"
  using assms by (auto simp: saturating_add_def HEADER_SIZE_def usize_MAX_def u32_MAX_def RESPONSE_BUFFER_TRAILER_SLACK_def)

lemma grpc_body_data:
  assumes "cfg_protocol config \<noteq> Connect" and "trailers_fit (ce_text ce) (cfg_protocol config) t"
    and "flag AND flags_GRPC_WEB_TRAILER = 0" and "length data \<le> max_message_size_of options" and "length data \<le> u32_MAX"
    and "response_envelope_data (cfg_compression config) encoding (max_message_size_of options) \<lparr>env_flags = flag, env_data = data\<rparr> = Ok m"
    and "concat ds = envelope_bytes flag data"
  shows "grpc_body_parts ce config options deadline status h encoding
      (map (\<lambda>d. Ok (DataFrame d)) ds @ [Ok (trailer_frame (cfg_protocol config) t)]) = Ok (True, Some m, t)"
proof -
  let ?p = "cfg_protocol config" and ?M = "max_message_size_of options"
  let ?mb = "saturating_add (saturating_add ?M HEADER_SIZE) RESPONSE_BUFFER_TRAILER_SLACK"
  let ?c = "\<lambda>e. classify_body_read_error ce ''failed to read response body'' e deadline"
  let ?init = "\<lparr>gr_buf = [], gr_trailers = hm_new, gr_has_data = False\<rparr>"
  let ?st = "\<lparr>gr_buf = envelope_bytes flag data, gr_trailers = hm_new, gr_has_data = True\<rparr>"
  have len: "length (envelope_bytes flag data) = 5 + length data" "envelope_bytes flag data \<noteq> []"
    by (simp_all add: envelope_bytes_def u32_to_be_bytes_def)
  have "5 + length data \<le> ?mb"
    using assms(4,5) by (intro max_buf_room) simp_all
  then have read: "grpc_read_loop ?c (is_success status) ?p ?mb
      (map (\<lambda>d. Ok (DataFrame d)) ds @ [Ok (trailer_frame ?p t)]) ?init =
    grpc_read_loop ?c (is_success status) ?p ?mb [Ok (trailer_frame ?p t)] ?st"
    using read_data_frames [of ?p ?init ds ?mb ?c "is_success status" "[Ok (trailer_frame ?p t)]"]
      envelope_prefix_no_trailer [OF assms(3,5)] assms(7) len by simp
  note loop = envelope_loop_data [OF assms(3-6)]
  show ?thesis
  proof (cases "?p = Grpc")
    case True
    then show ?thesis
      using read loop [of ce status h "[]"]
      by (simp add: grpc_body_parts_def Let_def trailer_frame_def envelope_loop_end)
  next
    case False
    then have web: "?p = GrpcWeb" using assms(1) by (cases ?p) simp_all
    let ?tr = "as_bytes (concat (map trailer_line (hm_iter t)))"
    note fit = trailers_fit_web(2) [OF assms(2) [unfolded web]]
    have tl: "length (encode_grpc_web_trailers t) = 5 + length ?tr"
      by (simp add: encode_web_envelope envelope_bytes_def u32_to_be_bytes_def)
    have "length ?tr \<le> MAX_GRPC_WEB_TRAILER_SIZE"
      using fit by (simp add: RESPONSE_BUFFER_TRAILER_SLACK_def MAX_GRPC_WEB_TRAILER_SIZE_def)
    from web_frame_end(1) [OF assms(3,5) this]
    have fe: "grpc_web_trailer_frame_end (envelope_bytes flag data @ encode_grpc_web_trailers t) = Some (10 + length data + length ?tr)"
      by (simp add: encode_web_envelope)
    have "10 + length data + length ?tr \<le> ?mb"
      using assms(4,5) fit by (intro max_buf_room) simp_all
    then have "min (length (encode_grpc_web_trailers t)) (?mb - length (envelope_bytes flag data)) = length (encode_grpc_web_trailers t)"
      using len tl by simp
    then have "grpc_read_loop ?c (is_success status) ?p ?mb [Ok (trailer_frame ?p t)] ?st =
        Ok (?st\<lparr>gr_buf := envelope_bytes flag data @ encode_grpc_web_trailers t\<rparr>)"
      using fe web len tl by (simp add: trailer_frame_def Let_def)
    then show ?thesis
      using read loop [of ce status h "encode_grpc_web_trailers t"] envelope_loop_web [OF assms(2) [unfolded web] web]
      by (simp add: grpc_body_parts_def Let_def)
  qed
qed

lemma grpc_body_trailers_only:
  assumes "cfg_protocol config \<noteq> Connect" and "trailers_fit (ce_text ce) (cfg_protocol config) t"
  shows "grpc_body_parts ce config options deadline status h encoding [Ok (trailer_frame (cfg_protocol config) t)] =
    Ok (cfg_protocol config = GrpcWeb, None, t)"
proof (cases "cfg_protocol config = Grpc")
  case True
  then show ?thesis by (simp add: grpc_body_parts_def Let_def trailer_frame_def envelope_loop_end)
next
  case False
  then have web: "cfg_protocol config = GrpcWeb" using assms(1) by (cases "cfg_protocol config") simp_all
  let ?tr = "as_bytes (concat (map trailer_line (hm_iter t)))"
  let ?mb = "saturating_add (saturating_add (max_message_size_of options) HEADER_SIZE) RESPONSE_BUFFER_TRAILER_SLACK"
  note fit = trailers_fit_web(2) [OF assms(2) [unfolded web]]
  have tl: "length (encode_grpc_web_trailers t) = 5 + length ?tr"
    by (simp add: encode_web_envelope envelope_bytes_def u32_to_be_bytes_def)
  have fe: "grpc_web_trailer_frame_end (encode_grpc_web_trailers t) = Some (5 + length ?tr)"
    using web_frame_end(2) [of 0 "[]" ?tr] fit
    by (simp add: encode_web_envelope RESPONSE_BUFFER_TRAILER_SLACK_def MAX_GRPC_WEB_TRAILER_SIZE_def)
  have "5 + length ?tr \<le> ?mb" using fit by (intro max_buf_room) simp_all
  then have "min (length (encode_grpc_web_trailers t)) ?mb = length (encode_grpc_web_trailers t)" using tl by simp
  moreover have "encode_grpc_web_trailers t \<noteq> []" using tl by auto
  ultimately show ?thesis
    using fe web tl envelope_loop_web [OF assms(2) [unfolded web] web]
    by (simp add: grpc_body_parts_def Let_def trailer_frame_def)
qed

section \<open>The client's reading of the service's heads and statuses\<close>

definition unsupported_response :: "client_config \<Rightarrow> string option \<Rightarrow> string option" where
  "unsupported_response config encoding =
     (case encoding of
        Some enc \<Rightarrow> (if enc \<noteq> ''identity'' \<and> \<not> supports (cfg_compression config) enc then Some enc else None)
      | None \<Rightarrow> None)"

lemma parse_grpc_eq:
  assumes "check_grpc_response_head (cr_status response) (cr_headers response) (cfg_protocol config) (cfg_codec_format config) = Ok ()"
    and "unsupported_response config (hm_get_str (cr_headers response) ''grpc-encoding'') = None"
  shows "parse_grpc_unary_response ce response config options deadline =
    result_bind (grpc_body_parts ce config options deadline (cr_status response) (cr_headers response)
        (hm_get_str (cr_headers response) ''grpc-encoding'') (cr_body response))
      (\<lambda>(has_data, message, trailers).
        grpc_unary_outcome ce config options deadline (cr_status response) (cr_headers response) has_data message trailers)"
  using assms
  by (simp add: parse_grpc_unary_response_def unsupported_response_def grpc_body_parts_def Let_def result_bind_assoc
      case_prod_unfold)

lemma hm_get_append_headers: "hm_wf extra \<Longrightarrow> hm_get (append_headers extra h) k = option_or (hm_get h k) (hm_get extra k)"
  using hm_append_all_iter [of extra h k]
  by (auto simp: append_headers_def hm_append_all_def hm_get_def split: list.splits)

lemma hm_get_append_same: "hm_get (hm_append k v h) k = Some (case hm_get h k of Some x \<Rightarrow> x | None \<Rightarrow> v)"
  by (simp add: hm_get_def split: list.splits)

lemma hm_get_new [simp]: "hm_get hm_new k = None"
  by (simp add: hm_get_def)

lemma response_head_get:
  assumes "ch \<noteq> ''content-type''" and "ah \<noteq> ''content-type''" and "ah \<noteq> ch"
  shows "hm_get (response_head ct ch encoding ah reg) ''content-type'' = Some ct"
    and "hm_get (response_head ct ch encoding ah reg) ch = encoding"
  using assms by (auto simp: response_head_def Let_def hm_get_append_same split: option.splits)

lemma grpc_header_names:
  "p \<noteq> Connect \<Longrightarrow> content_encoding_header p = ''grpc-encoding'' \<and> accept_encoding_header_name p = ''grpc-accept-encoding''"
  by (cases p) simp_all

lemma streaming_head_get:
  assumes "p \<noteq> Connect" and "hm_wf extra"
  shows "hm_get (streaming_head reg p codec encoding extra) ''content-type'' = Some (response_content_type p codec True)"
    and "hm_get (streaming_head reg p codec encoding extra) ''grpc-encoding'' = option_or encoding (hm_get extra ''grpc-encoding'')"
  using response_head_get [of "''grpc-encoding''" "''grpc-accept-encoding''" "response_content_type p codec True" encoding reg]
  by (simp_all add: streaming_head_def hm_get_append_headers [OF assms(2)] grpc_header_names [OF assms(1)])

lemma echo_keeps_get:
  assumes "hm_get response k \<noteq> None \<or> is_unforwardable_header k"
  shows "hm_get (echo_error_headers response err) k = hm_get response k"
proof -
  have "k \<in> set (map fst response)" if "hm_get response k \<noteq> None"
    using that hm_values_notin [of k response] by (cases "k \<in> fst ` set response") (auto simp: hm_get_def)
  with assms have "hm_values (echo_error_headers response err) k = hm_values response k"
    unfolding echo_error_headers_def Let_def echo_fold by auto
  then show ?thesis by (simp add: hm_get_def)
qed

lemma trailers_only_head_get:
  shows "hm_get (trailers_only_head env err p codec) ''content-type'' = Some (response_content_type p codec True)"
    and "hm_get (trailers_only_head env err p codec) ''grpc-encoding'' = None"
proof -
  let ?t = "lib_text (env_libs env)"
  define h where "h = (let h = hm_append ''content-type'' (response_content_type p codec True) hm_new in
    if p = Grpc then
      (let h = hm_append GRPC_STATUS (show_nat (unat (grpc_code (err_code err)))) h
       in case Option.bind (err_message err) (\<lambda>m. value_from_str ?t (grpc_percent_encode ?t m)) of
            Some val \<Rightarrow> hm_append GRPC_MESSAGE val h | None \<Rightarrow> h)
    else h)"
  have eq: "trailers_only_head env err p codec = echo_error_headers h err"
    by (simp add: trailers_only_head_def h_def Let_def)
  have "hm_get h ''content-type'' = Some (response_content_type p codec True)" "hm_get h ''grpc-encoding'' = None"
    by (auto simp: h_def Let_def hm_get_append_same grpc_header_defs split: option.splits)
  then show "hm_get (trailers_only_head env err p codec) ''content-type'' = Some (response_content_type p codec True)"
    "hm_get (trailers_only_head env err p codec) ''grpc-encoding'' = None"
    unfolding eq by (simp_all add: echo_keeps_get is_unforwardable_header_def)
qed

lemma normalized_response_type:
  assumes "p \<noteq> Connect"
  shows "header_to_str (response_content_type p codec b) = Some (response_content_type p codec b)"
    and "normalized_type (response_content_type p codec b) = response_content_type p codec False"
proof -
  have v: "list_all visible_char (response_content_type p codec b) \<and> CHR '';'' \<notin> set (response_content_type p codec b) \<and>
      response_content_type p codec b \<noteq> [] \<and> response_content_type p codec b = response_content_type p codec False"
    using assms by (cases p; cases codec; cases b) (simp_all add: visible_char_def)
  then have "\<forall>c \<in> set (response_content_type p codec b). visible_char c" by (simp add: list_all_iff)
  then have "\<forall>c \<in> set (response_content_type p codec b). 32 \<le> (of_char c :: nat) \<and> (of_char c :: nat) < 127"
    unfolding visible_char_def using less_imp_le by blast
  then show "header_to_str (response_content_type p codec b) = Some (response_content_type p codec b)"
    by (auto simp: header_to_str_def list_all_iff)
  have "str_trim (response_content_type p codec b) = response_content_type p codec b"
    using v by (intro str_trim_visible) (auto simp: list_all_iff)
  moreover have "split_once (CHR '';'') (response_content_type p codec b) = None" by (metis split_once_def v)
  ultimately show "normalized_type (response_content_type p codec b) = response_content_type p codec False"
    using v by (simp add: normalized_type_def)
qed

lemma grpc_head_accepted:
  assumes "p \<noteq> Connect" and "hm_get h ''content-type'' = Some (response_content_type p codec True)"
  shows "check_grpc_response_head 200 h p codec = Ok ()"
proof -
  have "validate_grpc_response_content_type h p codec = Ok ()"
    using assms normalized_response_type [OF assms(1), of codec True]
    by (cases p) (simp_all add: validate_grpc_response_content_type_def Let_def)
  then show ?thesis by (simp add: check_grpc_response_head_def is_success_def Let_def)
qed

lemma outcome_success:
  assumes "trailers_fit (ce_text ce) p t" and "t = build_grpc_trailers (ce_text ce) (ce_wire ce) None custom"
    and "parse_grpc_error_from_trailers (ce_text ce) (ce_wire ce) t = None"
    and "length m \<le> max_message_size_of options"
  shows "grpc_unary_outcome ce config options deadline 200 h True (Some m) t =
    result_bind (decode_response_view ce m (cfg_codec_format config) (opt_element_memory_limit options))
      (\<lambda>v. Ok \<lparr>ur_headers = h, ur_body = v, ur_trailers = t\<rparr>)"
proof -
  have "hm_get t ''grpc-status'' = Some ''0''"
    using assms(2) by (simp add: build_grpc_trailers_def hm_get_append_all GRPC_STATUS_def)
  then show ?thesis
    using assms(3,4)
    by (auto simp: grpc_unary_outcome_def is_success_def max_message_size_of_def Let_def split: option.splits)
qed

lemma outcome_error:
  assumes "trailers_fit (ce_text ce) p t" and "parse_grpc_error_from_trailers (ce_text ce) (ce_wire ce) t = Some e"
  shows "grpc_unary_outcome ce config options deadline 200 h has_data message t = Err (set_response_headers h e)"
  using assms by (simp add: grpc_unary_outcome_def trailers_fit_def hm_is_empty_def Let_def)

section \<open>The client's gRPC request at the service\<close>

lemma grpc_request_headers:
  assumes "cfg_protocol config \<noteq> Connect" and "add_unary_request_headers t config timeout applied (Some hm_new) = Some h"
  shows "hm_get h ''content-type'' = Some (response_content_type (cfg_protocol config) (cfg_codec_format config) False)"
    and "hm_get h ''grpc-encoding'' = Option.bind (request_compression config) (value_from_str t)"
    and "hm_get h ''grpc-accept-encoding'' = accept_encoding (cfg_compression config)"
  using assms
  by (auto simp: add_unary_request_headers_def Let_def builder_header_def builder_optional_def unary_request_content_type_def
      hm_get_append_same bind_eq_Some_conv split: protocol.splits option.splits)

lemma hm_get_user_headers:
  "hm_get (hm_append_all (hm_iter user) h) k = option_or (hm_get h k) (map_of (hm_iter user) k)"
  by (simp add: hm_get_append_all split: option.splits)

lemma hm_get_iter: "hm_wf h \<Longrightarrow> map_of (hm_iter h) k = hm_get h k"
  using hm_get_append_all [of "hm_iter h" hm_new k] hm_append_all_iter [of h hm_new k] by (simp add: hm_get_def)

lemma grpc_request_shape:
  assumes "cfg_protocol config \<noteq> Connect" and "unary_http_request ce u config s (Ok body) options = Some (Ok req)"
  obtains h flag data where
    "add_unary_request_headers (ce_text ce) config (opt_timeout options) None (Some hm_new) = Some h"
    "cq_headers req = hm_append_all (hm_iter (opt_headers options)) h"
    "cq_body req = envelope_bytes flag data" "length data \<le> u32_MAX"
    "envelope_of \<lparr>enc_compression = map_option (Pair (cfg_compression config)) (request_compression config),
       enc_policy = with_override (cfg_compression_policy config) (opt_compress options)\<rparr> body = Ok (flag, data)"
proof -
  let ?enc = "\<lparr>enc_compression = map_option (Pair (cfg_compression config)) (request_compression config),
       enc_policy = with_override (cfg_compression_policy config) (opt_compress options)\<rparr>"
  obtain b applied h where b: "unary_request_body config options body = Ok (b, applied)" "cq_body req = b"
    and h: "add_unary_request_headers (ce_text ce) config (opt_timeout options) applied (Some hm_new) = Some h"
      "cq_headers req = hm_append_all (hm_iter (opt_headers options)) h"
    using assms(2)
    by (auto simp: unary_http_request_def result_bind_Ok_iff split: result.splits)
  from b(1) assms(1) have "encoder_encode ?enc body [] = Ok b" "applied = None"
    by (auto simp: unary_request_body_def split: protocol.splits result.splits)
  then obtain flag data where "envelope_of ?enc body = Ok (flag, data)" "length data \<le> u32_MAX" "b = envelope_bytes flag data"
    by (auto simp: encoder_encode_eq result_bind_Ok_iff write_envelope_Ok split: if_splits)
  then show thesis using that h b(2) \<open>applied = None\<close> by blast
qed

text \<open>The request as it arrives, its whole body in one frame.\<close>

definition full_body :: "bytes \<Rightarrow> http_body" where
  "full_body b = (if b = [] then [] else [Ready (Ok (DataFrame b))])"

definition arriving_post :: "'x \<Rightarrow> client_request \<Rightarrow> 'x http_request" where
  "arriving_post x req = \<lparr>req_method = POST, req_path = uri_path (cq_uri req), req_query = uri_query (cq_uri req),
     req_headers = cq_headers req, req_extensions = x, req_body = full_body (cq_body req)\<rparr>"

text \<open>What a gRPC unary handler is called with, and the response its answer becomes.\<close>

definition grpc_unary_context ::
    "'x server_env \<Rightarrow> ('x, 'm) service \<Rightarrow> protocol \<Rightarrow> headers \<Rightarrow> 'x \<Rightarrow> spec option \<Rightarrow> string \<Rightarrow> 'x request_context" where
  "grpc_unary_context env svc p h x s path =
     handler_context env (metadata_from_headers h p)
       (absolute_deadline (env_now env) (moderated (svc_deadline_policy svc) (timeout_from_headers h p))) x s p path (svc_limits svc)"

definition grpc_unary_answer ::
    "'x server_env \<Rightarrow> ('x, 'm) service \<Rightarrow> protocol \<Rightarrow> codec_format \<Rightarrow> headers \<Rightarrow> encoded_response connect_result \<Rightarrow>
     grpc_unary_body http_response option" where
  "grpc_unary_answer env svc p codec h result =
     (case result of
        Err e \<Rightarrow> Some (grpc_unary_error env p codec e)
      | Ok resp \<Rightarrow>
          (let encoding = negotiate_encoding (svc_compression svc) (hm_get_str h (accept_encoding_header_name p))
                 (hm_get_str h (content_encoding_header p));
               t = build_grpc_trailers (lib_text (env_libs env)) (lib_wire (env_libs env)) None (resp_trailers resp)
           in map_option (\<lambda>(data, payload).
                \<lparr>hr_status = 200, hr_headers = streaming_head (svc_compression svc) p codec encoding (resp_headers resp),
                 hr_body = \<lparr>gub_data = Some data, gub_payload = payload, gub_trailers = Some (grpc_unary_trailers_for p t)\<rparr>\<rparr>)
              (grpc_unary_envelope (svc_compression svc) (with_override (svc_compression_policy svc) (resp_compress resp))
                 encoding (resp_body resp))))"

lemma grpc_unary_served:
  assumes "undisturbed env" and "svc_interceptors svc = []" and "p \<noteq> Connect"
    and "env_collect env (req_body req) (max_request_body_size (svc_limits svc)) = Ok post"
    and "unsupported_encoding (svc_compression svc) (metadata_from_headers (req_headers req) p) = None"
    and "\<And>a b. single_request_message a b p (hm_get_str (req_headers req) (content_encoding_header p)) (svc_compression svc)
      (max_message_size (svc_limits svc)) post = Ok body"
    and "req_method req = POST"
  shows "handle_grpc_unary_request env q svc path s req p codec =
    grpc_unary_answer env svc p codec (req_headers req)
      (d_call_unary (svc_dispatcher svc) path (grpc_unary_context env svc p (req_headers req) (req_extensions req) s path)
        (pl_with_decode_options (Some (element_memory_limit (svc_limits svc))) (payload_new body codec)) codec)"
proof -
  let ?meta = "metadata_from_headers (req_headers req) p"
  have m: "meta_timeout ?meta = timeout_from_headers (req_headers req) p"
    "meta_streaming_encoding ?meta = hm_get_str (req_headers req) (content_encoding_header p)"
    "meta_streaming_accept_encoding ?meta = hm_get_str (req_headers req) (accept_encoding_header_name p)"
    by (simp_all add: metadata_from_headers_def)
  have b: "env_build_error env h = None" for h using assms(1) by (simp add: undisturbed_def)
  have c: "ctx_decode_options (handler_context env m d x s p path' l) = Some (element_memory_limit l)" for m d x s p path' l
    by (simp add: handler_context_def ctx_defs)
  have col: "collect_body_limited env (req_body req) (max_request_body_size (svc_limits svc)) = Ok post"
    using assms(4) by (simp add: collect_body_limited_def)
  show ?thesis
    using assms(1-3,5-7)
    by (simp add: handle_grpc_unary_request_def Let_def m b c col call_unary_intercepted_def grpc_unary_answer_def
        grpc_unary_context_def split: result.splits)
qed

lemma grpc_service_routes:
  assumes "p \<noteq> Connect" and "detect (env_json env) (req_headers req) = Some (rp_of p codec True False)"
    and "req_method req = POST" and "path = strip_slash (req_path req)"
    and "d_lookup (svc_dispatcher svc) path = Some md" and "md_kind md = Unary" and "md_limits md = None"
    and "svc_interceptors svc = []"
  shows "service_call env q svc req =
    map_option (map_response GrpcUnaryBody) (handle_grpc_unary_request env q svc path (md_spec md) req p codec)"
  using assms
  by (simp add: service_call_def handle_request_def Let_def check_heads_def rp_of_def option.map_comp comp_def)

section \<open>Messages across the two registries\<close>

text \<open>What a message needs of an encoding one side applies and the other removes.\<close>

definition codec_carries :: "compression_registry \<Rightarrow> compression_registry \<Rightarrow> string \<Rightarrow> usize \<Rightarrow> bytes \<Rightarrow> bool" where
  "codec_carries sender receiver enc M m \<longleftrightarrow> is_http_token enc \<and> enc \<noteq> ''identity'' \<and> supports receiver enc \<and>
     (case registry_compress sender enc m of
        Ok c \<Rightarrow> length c \<le> M \<and> registry_decompress_with_limit receiver enc c M = Ok m
      | Err _ \<Rightarrow> True)"

lemma single_message_envelope:
  assumes "length data \<le> M" and "length data \<le> u32_MAX"
    and "flag = flags_DATA \<and> data = m \<or>
      flag = flags_COMPRESSED \<and> (\<exists>e. encoding = Some e \<and> e \<noteq> ''identity'' \<and> registry_decompress_with_limit reg e data M = Ok m)"
  shows "single_request_message a b p encoding reg M (envelope_bytes flag data) = Ok m"
proof -
  have "decode_contiguous (envelope_bytes flag data) M = (Ok (Some \<lparr>env_flags = flag, env_data = data\<rparr>), [])"
    using spec_decode_envelope [OF assms(1,2), of flag "[]"] by (simp add: decode_contiguous_spec)
  moreover have "envelope_bytes flag data \<noteq> []" by (simp add: envelope_bytes_def)
  ultimately show ?thesis
    using assms(3) by (auto simp: single_request_message_def is_compressed_def flags_defs)
qed

lemma request_message_read:
  assumes "envelope_of \<lparr>enc_compression = map_option (Pair reg) encoding, enc_policy = pol\<rparr> m = Ok (flag, data)"
    and "length m \<le> M" and "length data \<le> u32_MAX"
    and "\<And>enc. encoding = Some enc \<Longrightarrow> codec_carries reg reg' enc M m"
  shows "single_request_message a b p encoding reg' M (envelope_bytes flag data) = Ok m"
  using assms by (intro single_message_envelope)
    (auto simp: envelope_of_def result_bind_Ok_iff codec_carries_def split: option.splits if_splits)

lemma body_parts_bytes:
  assumes "length (into_contiguous body) \<le> u32_MAX"
  obtains d payload where "encode_body_parts flag body n = Some (d, payload)"
    "concat (d # payload) = envelope_bytes flag (into_contiguous body)"
proof -
  have "result_map (\<lambda>(dst', chained). dst' @ concat chained) (write_envelope_chained flag body [] [] n) =
      Ok (envelope_bytes flag (into_contiguous body))"
    using assms by (simp add: write_chained_bytes write_envelope_Ok)
  then obtain d payload where "write_envelope_chained flag body [] [] n = Ok (d, payload)"
      "d @ concat payload = envelope_bytes flag (into_contiguous body)"
    by (cases "write_envelope_chained flag body [] [] n") auto
  then show thesis using that by (simp add: encode_body_parts_def)
qed

lemma response_envelope_read:
  assumes "length (into_contiguous body) \<le> M" and "M \<le> u32_MAX"
    and "\<And>enc. encoding = Some enc \<Longrightarrow> codec_carries reg reg' enc M (into_contiguous body)"
  obtains d payload flag data where "grpc_unary_envelope reg pol encoding body = Some (d, payload)"
    "concat (d # payload) = envelope_bytes flag data" "flag AND flags_GRPC_WEB_TRAILER = 0"
    "length data \<le> M" "length data \<le> u32_MAX"
    "response_envelope_data reg' encoding M \<lparr>env_flags = flag, env_data = data\<rparr> = Ok (into_contiguous body)"
proof -
  let ?m = "into_contiguous body"
  note found = that
  have plain: thesis if b: "grpc_unary_envelope reg pol encoding body = encode_body_parts flags_DATA b MIN_CHAIN_SIZE"
    "into_contiguous b = ?m" for b
  proof -
    obtain d payload where "encode_body_parts flags_DATA b MIN_CHAIN_SIZE = Some (d, payload)"
        "concat (d # payload) = envelope_bytes flags_DATA ?m"
      using body_parts_bytes [of b flags_DATA MIN_CHAIN_SIZE] assms(1,2) b(2) by auto
    then show thesis
      using b assms(1,2) by (intro found) (auto simp: response_envelope_data_def is_compressed_def flags_defs)
  qed
  show thesis
  proof (cases encoding)
    case None
    then show thesis by (intro plain [of body]) (simp_all add: grpc_unary_envelope_def)
  next
    case (Some e)
    show thesis
    proof (cases "should_compress pol (body_len body)")
      case False
      then show thesis using Some by (intro plain [of body]) (simp_all add: grpc_unary_envelope_def)
    next
      case True
      show thesis
      proof (cases "registry_compress reg e ?m")
        case (Err x)
        then show thesis
          using Some True by (intro plain [of "Contiguous ?m"]) (simp_all add: grpc_unary_envelope_def Let_def)
      next
        case (Ok c)
        have c: "length c \<le> M" "registry_decompress_with_limit reg' e c M = result.Ok ?m" "e \<noteq> ''identity''"
          using assms(3) [OF Some] Ok by (auto simp: codec_carries_def)
        obtain d payload where "encode_body_parts flags_COMPRESSED (Contiguous c) MIN_CHAIN_SIZE = Some (d, payload)"
            "concat (d # payload) = envelope_bytes flags_COMPRESSED c"
          using body_parts_bytes [of "Contiguous c" flags_COMPRESSED MIN_CHAIN_SIZE] assms(2) c(1) by auto
        then show thesis
          using Some True Ok c assms(2)
          by (intro found) (auto simp: grpc_unary_envelope_def response_envelope_data_def is_compressed_def flags_defs Let_def)
      qed
    qed
  qed
qed

lemma grpc_request_served:
  assumes "text_laws (ce_text ce) w" and "cfg_protocol config \<noteq> Connect" and "cfg_codec_format config = Json \<longrightarrow> env_json env"
    and "hm_wf (opt_headers options)" and "hm_get (opt_headers options) ''grpc-encoding'' = None"
    and "\<forall>enc. request_compression config = Some enc \<longrightarrow>
      codec_carries (cfg_compression config) (svc_compression svc) enc (max_message_size (svc_limits svc)) body"
    and "length body \<le> max_message_size (svc_limits svc)"
    and "unary_http_request ce u config s (Ok body) options = Some (Ok req)" and "undisturbed env"
    and "env_collect env (full_body (cq_body req)) (max_request_body_size (svc_limits svc)) = Ok (cq_body req)"
    and "svc_interceptors svc = []" and "path = strip_slash (uri_path (cq_uri req))"
    and "d_lookup (svc_dispatcher svc) path = Some md" and "md_kind md = Unary" and "md_limits md = None"
  shows "service_call env q svc (arriving_post x req) =
    map_option (map_response GrpcUnaryBody) (grpc_unary_answer env svc (cfg_protocol config) (cfg_codec_format config) (cq_headers req)
      (d_call_unary (svc_dispatcher svc) path
        (grpc_unary_context env svc (cfg_protocol config) (cq_headers req) x (md_spec md) path)
        (pl_with_decode_options (Some (element_memory_limit (svc_limits svc))) (payload_new body (cfg_codec_format config)))
        (cfg_codec_format config)))"
    and "registry_wf (cfg_compression config) \<Longrightarrow> providers (cfg_compression config) \<noteq> [] \<Longrightarrow>
      hm_get_str (cq_headers req) ''grpc-accept-encoding'' = Some (accept_encoding_header (cfg_compression config))"
proof -
  let ?p = "cfg_protocol config" and ?codec = "cfg_codec_format config" and ?rh = "cq_headers req"
  obtain h flag data where shape:
      "add_unary_request_headers (ce_text ce) config (opt_timeout options) None (Some hm_new) = Some h"
      "?rh = hm_append_all (hm_iter (opt_headers options)) h" "cq_body req = envelope_bytes flag data" "length data \<le> u32_MAX"
      "envelope_of \<lparr>enc_compression = map_option (Pair (cfg_compression config)) (request_compression config),
         enc_policy = with_override (cfg_compression_policy config) (opt_compress options)\<rparr> body = Ok (flag, data)"
    using grpc_request_shape [OF assms(2,8)] by blast
  note hs = grpc_request_headers [OF assms(2) shape(1)]
  have get: "hm_get ?rh k = option_or (hm_get h k) (hm_get (opt_headers options) k)" for k
    using assms(4) by (simp add: shape(2) hm_get_user_headers hm_get_iter)
  have tok: "value_from_str (ce_text ce) e = Some e" if "is_http_token e" for e
    using assms(1) token_header_to_str [OF that] by (simp add: text_laws_def)
  have enc: "hm_get_str ?rh ''grpc-encoding'' = request_compression config"
    using assms(5,6) hs(2) tok token_header_to_str
    by (cases "request_compression config") (auto simp: hm_get_str_def get codec_carries_def)
  have det: "detect (env_json env) ?rh = Some (rp_of ?p ?codec True False)"
    using detect_response_type [OF assms(3), of ?p False] normalized_response_type(1) [OF assms(2), of ?codec False] assms(2) hs(1)
    by (simp add: detect_def hm_get_str_def get)
  have uns: "unsupported_encoding (svc_compression svc) (metadata_from_headers ?rh ?p) = None"
    using assms(6) enc grpc_header_names [OF assms(2)]
    by (auto simp: unsupported_encoding_def metadata_from_headers_def codec_carries_def split: option.splits)
  have msg: "single_request_message a b ?p (hm_get_str ?rh (content_encoding_header ?p)) (svc_compression svc)
      (max_message_size (svc_limits svc)) (cq_body req) = Ok body" for a b
    using request_message_read [OF shape(5) assms(7) shape(4)] assms(6) enc grpc_header_names [OF assms(2)] shape(3) by simp
  have req: "req_method (arriving_post x req) = POST" "req_headers (arriving_post x req) = ?rh" "req_extensions (arriving_post x req) = x"
      "strip_slash (req_path (arriving_post x req)) = path" "req_body (arriving_post x req) = full_body (cq_body req)"
    by (simp_all add: arriving_post_def assms(12))
  show "service_call env q svc (arriving_post x req) =
    map_option (map_response GrpcUnaryBody) (grpc_unary_answer env svc ?p ?codec ?rh
      (d_call_unary (svc_dispatcher svc) path (grpc_unary_context env svc ?p ?rh x (md_spec md) path)
        (pl_with_decode_options (Some (element_memory_limit (svc_limits svc))) (payload_new body ?codec)) ?codec))"
    using grpc_service_routes [OF assms(2), of env "arriving_post x req" ?codec path svc md q]
      grpc_unary_served [OF assms(9,11,2), of "arriving_post x req" "cq_body req" body q path "md_spec md" ?codec]
      det uns msg req assms(10,11,13-15) by simp
  show "hm_get_str ?rh ''grpc-accept-encoding'' = Some (accept_encoding_header (cfg_compression config))"
    if "registry_wf (cfg_compression config)" "providers (cfg_compression config) \<noteq> []"
    using advertised_header [OF that] hs(3) by (simp add: hm_get_str_def get)
qed

section \<open>A gRPC unary call from the client to the handler and back\<close>

text \<open>
  What the theorem relies on: a transport that hands the client the service's response, and an
  answer within what the two sides agreed on.
\<close>

definition carries ::
    "'x server_env \<Rightarrow> ('m, 't) message_ops \<Rightarrow> ('x, 'm) service \<Rightarrow> 'x \<Rightarrow>
     (client_request \<Rightarrow> (client_response, transport_error) result) \<Rightarrow> bool" where
  "carries env q svc x transport \<longleftrightarrow>
     (\<forall>req r b. service_call env q svc (arriving_post x req) = Some r \<longrightarrow> hr_body r = GrpcUnaryBody b \<longrightarrow>
        transport req = Ok \<lparr>cr_status = hr_status r, cr_headers = hr_headers r, cr_body = map Ok (grpc_unary_frames b)\<rparr>)"

definition sound_answer :: "text_ops \<Rightarrow> wire_ops \<Rightarrow> protocol \<Rightarrow> usize \<Rightarrow> encoded_response connect_result \<Rightarrow> bool" where
  "sound_answer t w p M result \<longleftrightarrow>
     (case result of
        Ok resp \<Rightarrow> hm_wf (resp_headers resp) \<and> hm_wf (resp_trailers resp) \<and> hm_get (resp_headers resp) ''grpc-encoding'' = None \<and>
          length (into_contiguous (resp_body resp)) \<le> M \<and> trailers_fit t p (build_grpc_trailers t w None (resp_trailers resp))
      | Err e \<Rightarrow> err_message e \<noteq> None \<and> utf8_valid (as_bytes (the (err_message e))) \<and> hm_wf (err_trailers e) \<and>
          length (status_encode w e) \<le> u64_MAX \<and>
          list_all (\<lambda>d. utf8_valid (as_bytes (any_type_url (type_url d)))) (err_details e) \<and>
          trailers_fit t p (build_grpc_trailers t w (Some e) (err_trailers e)))"

lemma grpc_error_read:
  assumes "text_laws (ce_text ce) (ce_wire ce)" and "wire_laws (ce_wire ce)" and "cfg_protocol config \<noteq> Connect"
    and "lib_text (env_libs env) = ce_text ce" and "lib_wire (env_libs env) = ce_wire ce"
    and "sound_answer (ce_text ce) (ce_wire ce) (cfg_protocol config) M (Err e)" and "undisturbed env"
    and "r = grpc_unary_error env (cfg_protocol config) (cfg_codec_format config) e"
  shows "\<exists>e'. parse_grpc_unary_response ce \<lparr>cr_status = hr_status r, cr_headers = hr_headers r,
        cr_body = map Ok (grpc_unary_frames (hr_body r))\<rparr> config options deadline = Err e' \<and>
      err_code e' = err_code e \<and> err_message e' = err_message e \<and>
      err_details e' = map (wire_detail (ce_wire ce)) (err_details e) \<and>
      (\<forall>k. hm_values (err_trailers e') k = (if is_status_trailer k then [] else hm_values (err_trailers e) k))"
proof -
  let ?p = "cfg_protocol config" and ?t = "error_trailers env e"
  have t: "?t = build_grpc_trailers (ce_text ce) (ce_wire ce) (Some e) (err_trailers e)"
    by (simp add: error_trailers_def assms(4,5))
  have ok: "err_message e \<noteq> None" "utf8_valid (as_bytes (the (err_message e)))" "hm_wf (err_trailers e)"
      "length (status_encode (ce_wire ce) e) \<le> u64_MAX"
      "\<forall>d \<in> set (err_details e). utf8_valid (as_bytes (any_type_url (type_url d)))" "trailers_fit (ce_text ce) ?p ?t"
    using assms(6) by (simp_all add: sound_answer_def t list_all_iff)
  obtain m where m: "err_message e = Some m" using ok(1) by blast
  obtain e' where e': "parse_grpc_error_from_trailers (ce_text ce) (ce_wire ce) ?t = Some e'"
      "err_code e' = err_code e" "err_message e' = Some m" "err_details e' = map (wire_detail (ce_wire ce)) (err_details e)"
      "\<forall>k. hm_values (err_trailers e') k = (if is_status_trailer k then [] else hm_values (err_trailers e) k)"
    using grpc_error_survives [OF assms(1,2) ok(4,5) m _ ok(3,3)] ok(2) m unfolding t by auto
  have r: "hr_status r = 200" "hr_headers r = trailers_only_head env e ?p (cfg_codec_format config)"
      "grpc_unary_frames (hr_body r) = [trailer_frame ?p ?t]"
    using assms(3,7,8)
    by (auto simp: grpc_unary_error_def undisturbed_def Let_def grpc_unary_frames_def grpc_unary_trailers_for_def trailer_frame_def)
  note head = trailers_only_head_get [of env e ?p "cfg_codec_format config"]
  have "parse_grpc_unary_response ce \<lparr>cr_status = hr_status r, cr_headers = hr_headers r,
      cr_body = map Ok (grpc_unary_frames (hr_body r))\<rparr> config options deadline =
      Err (set_response_headers (hr_headers r) e')"
    using grpc_head_accepted [OF assms(3) head(1)] grpc_body_trailers_only [OF assms(3) ok(6)] outcome_error [OF ok(6) e'(1)]
    by (subst parse_grpc_eq) (simp_all add: r head unsupported_response_def hm_get_str_def)
  then show ?thesis
    using e' m by (simp add: set_response_headers_def err_trailers_def)
qed

lemma success_trailers:
  assumes "hm_wf custom"
  shows "hm_values (build_grpc_trailers t w None custom) k =
    (if k = ''grpc-status'' then ''0'' # hm_values custom k else hm_values custom k)"
  using hm_append_all_iter [OF assms] by (simp add: build_grpc_trailers_def GRPC_STATUS_def)

lemma grpc_success_read:
  assumes "text_laws (ce_text ce) (ce_wire ce)" and "wire_laws (ce_wire ce)" and "cfg_protocol config \<noteq> Connect"
    and "lib_text (env_libs env) = ce_text ce" and "lib_wire (env_libs env) = ce_wire ce"
    and "sound_answer (ce_text ce) (ce_wire ce) (cfg_protocol config) (max_message_size_of options) (Ok resp)"
    and "max_message_size_of options \<le> u32_MAX"
    and "encoding = negotiate_encoding (svc_compression svc) (hm_get_str rh ''grpc-accept-encoding'') (hm_get_str rh ''grpc-encoding'')"
    and "\<And>enc. encoding = Some enc \<Longrightarrow>
      codec_carries (svc_compression svc) (cfg_compression config) enc (max_message_size_of options) (into_contiguous (resp_body resp))"
  shows "\<exists>r. grpc_unary_answer env svc (cfg_protocol config) (cfg_codec_format config) rh (Ok resp) = Some r \<and>
      parse_grpc_unary_response ce \<lparr>cr_status = hr_status r, cr_headers = hr_headers r,
        cr_body = map Ok (grpc_unary_frames (hr_body r))\<rparr> config options deadline =
      result_bind (decode_response_view ce (into_contiguous (resp_body resp)) (cfg_codec_format config) (opt_element_memory_limit options))
        (\<lambda>v. Ok \<lparr>ur_headers = streaming_head (svc_compression svc) (cfg_protocol config) (cfg_codec_format config) encoding (resp_headers resp),
          ur_body = v, ur_trailers = build_grpc_trailers (ce_text ce) (ce_wire ce) None (resp_trailers resp)\<rparr>)"
proof -
  let ?p = "cfg_protocol config" and ?codec = "cfg_codec_format config" and ?m = "into_contiguous (resp_body resp)"
  let ?t = "build_grpc_trailers (ce_text ce) (ce_wire ce) None (resp_trailers resp)"
  let ?h = "streaming_head (svc_compression svc) ?p ?codec encoding (resp_headers resp)"
  have ok: "hm_wf (resp_headers resp)" "hm_get (resp_headers resp) ''grpc-encoding'' = None" "length ?m \<le> max_message_size_of options"
      "trailers_fit (ce_text ce) ?p ?t"
    using assms(6) by (simp_all add: sound_answer_def)
  obtain d payload flag data where ev:
      "grpc_unary_envelope (svc_compression svc) (with_override (svc_compression_policy svc) (resp_compress resp)) encoding (resp_body resp) =
        Some (d, payload)"
      "concat (d # payload) = envelope_bytes flag data" "flag AND flags_GRPC_WEB_TRAILER = 0"
      "length data \<le> max_message_size_of options" "length data \<le> u32_MAX"
      "response_envelope_data (cfg_compression config) encoding (max_message_size_of options) \<lparr>env_flags = flag, env_data = data\<rparr> = Ok ?m"
    using response_envelope_read [OF ok(3) assms(7,9)] by blast
  have enc: "hm_get_str ?h ''grpc-encoding'' = encoding" "unsupported_response config encoding = None"
    using assms(9) streaming_head_get(2) [OF assms(3) ok(1), of "svc_compression svc" ?codec encoding] ok(2) token_header_to_str
    by (cases encoding; auto simp: hm_get_str_def unsupported_response_def codec_carries_def)+
  define r where "r = \<lparr>hr_status = 200, hr_headers = ?h, hr_body = \<lparr>gub_data = Some d, gub_payload = payload,
      gub_trailers = Some (grpc_unary_trailers_for ?p ?t)\<rparr>\<rparr>"
  have ans: "grpc_unary_answer env svc ?p ?codec rh (Ok resp) = Some r"
    using ev(1) assms(8) grpc_header_names [OF assms(3)] by (simp add: grpc_unary_answer_def r_def assms(4,5) Let_def)
  have frames: "map Ok (grpc_unary_frames (hr_body r)) = map (\<lambda>d. Ok (DataFrame d)) (d # payload) @ [Ok (trailer_frame ?p ?t)]"
    using assms(3) by (simp add: r_def grpc_unary_frames_def grpc_unary_trailers_for_def trailer_frame_def)
  have pe: "parse_grpc_error_from_trailers (ce_text ce) (ce_wire ce) ?t = None"
    by (rule grpc_success_parsed)
  have "parse_grpc_unary_response ce \<lparr>cr_status = hr_status r, cr_headers = hr_headers r,
        cr_body = map Ok (grpc_unary_frames (hr_body r))\<rparr> config options deadline =
      result_bind (decode_response_view ce ?m ?codec (opt_element_memory_limit options))
        (\<lambda>v. Ok \<lparr>ur_headers = ?h, ur_body = v, ur_trailers = ?t\<rparr>)"
    unfolding frames
    using grpc_head_accepted [OF assms(3) streaming_head_get(1) [OF assms(3) ok(1)]]
      grpc_body_data [OF assms(3) ok(4) ev(3-6) ev(2)] outcome_success [OF ok(4) refl pe ok(3)] enc
    by (subst parse_grpc_eq) (simp_all add: r_def)
  with ans show ?thesis by blast
qed

lemma append_headers_keeps: "hm_wf extra \<Longrightarrow> set (hm_values extra k) \<subseteq> set (hm_values (append_headers extra h) k)"
  using hm_append_all_iter [of extra h k] by (simp add: append_headers_def hm_append_all_def)

text \<open>
  C1. A gRPC or gRPC-Web unary call end to end: whatever request the client builds for a
  message, over a transport that carries the service's response, the method's handler runs on
  exactly that message, and the caller gets exactly its answer: the decoded response message
  with the handler's headers and trailers, or the handler's error with its code, message,
  details in wire form and trailers, whatever compression the two sides negotiate and however
  the response is cut into frames.
\<close>

theorem grpc_call_end_to_end:
  assumes "text_laws (ce_text ce) (ce_wire ce)" and "wire_laws (ce_wire ce)"
    and "lib_text (env_libs env) = ce_text ce" and "lib_wire (env_libs env) = ce_wire ce"
    and "cfg_protocol config \<noteq> Connect" and "cfg_codec_format config = Json \<longrightarrow> env_json env"
    and "options = effective_options config opts" and "max_message_size_of options \<le> u32_MAX"
    and "hm_wf (opt_headers options)" and "hm_get (opt_headers options) ''grpc-encoding'' = None"
    and "registry_wf (cfg_compression config)" and "providers (cfg_compression config) \<noteq> []"
    and "\<forall>enc. request_compression config = Some enc \<longrightarrow>
      codec_carries (cfg_compression config) (svc_compression svc) enc (max_message_size (svc_limits svc)) body"
    and "length body \<le> max_message_size (svc_limits svc)"
    and "unary_http_request ce u config s (Ok body) options = Some (Ok req)"
    and "undisturbed env" and "\<forall>d. \<not> ce_timer_fires ce d"
    and "env_collect env (full_body (cq_body req)) (max_request_body_size (svc_limits svc)) = Ok (cq_body req)"
    and "carries env q svc x transport" and "svc_interceptors svc = []" and "path = strip_slash (uri_path (cq_uri req))"
    and "d_lookup (svc_dispatcher svc) path = Some md" and "md_kind md = Unary" and "md_limits md = None"
    and "result = d_call_unary (svc_dispatcher svc) path
      (grpc_unary_context env svc (cfg_protocol config) (cq_headers req) x (md_spec md) path)
      (pl_with_decode_options (Some (element_memory_limit (svc_limits svc))) (payload_new body (cfg_codec_format config)))
      (cfg_codec_format config)"
    and "sound_answer (ce_text ce) (ce_wire ce) (cfg_protocol config) (max_message_size_of options) result"
    and "\<forall>resp enc. result = Ok resp \<longrightarrow> supports (svc_compression svc) enc \<longrightarrow> supports (cfg_compression config) enc \<longrightarrow>
      enc \<noteq> ''identity'' \<longrightarrow> is_http_token enc \<longrightarrow>
      codec_carries (svc_compression svc) (cfg_compression config) enc (max_message_size_of options) (into_contiguous (resp_body resp))"
  shows "\<exists>out. call_unary ce u transport config s (Ok body) opts = Some out \<and>
    (case result of
       Ok resp \<Rightarrow>
         (case decode_response_view ce (into_contiguous (resp_body resp)) (cfg_codec_format config) (opt_element_memory_limit options) of
            Ok v \<Rightarrow> (\<exists>r. out = Ok r \<and> ur_body r = v \<and>
              (\<forall>k. set (hm_values (resp_headers resp) k) \<subseteq> set (hm_values (ur_headers r) k)) \<and>
              (\<forall>k. hm_values (ur_trailers r) k =
                (if k = ''grpc-status'' then ''0'' # hm_values (resp_trailers resp) k else hm_values (resp_trailers resp) k)))
          | Err e \<Rightarrow> out = Err e)
     | Err e \<Rightarrow> (\<exists>e'. out = Err e' \<and> err_code e' = err_code e \<and> err_message e' = err_message e \<and>
         err_details e' = map (wire_detail (ce_wire ce)) (err_details e) \<and>
         (\<forall>k. hm_values (err_trailers e') k = (if is_status_trailer k then [] else hm_values (err_trailers e) k))))"
proof -
  let ?p = "cfg_protocol config" and ?codec = "cfg_codec_format config" and ?rh = "cq_headers req"
  let ?deadline = "client_deadline (ce_now ce) (opt_timeout options) ?p"
  note served = grpc_request_served [OF assms(1,5,6,9,10,13-16,18,20-24)]
  have call: "call_unary ce u transport config s (Ok body) opts =
      Some (parse_grpc_unary_response ce \<lparr>cr_status = hr_status r, cr_headers = hr_headers r,
        cr_body = map Ok (grpc_unary_frames (hr_body r))\<rparr> config options ?deadline)"
    if "grpc_unary_answer env svc ?p ?codec ?rh result = Some r" for r
  proof -
    have "service_call env q svc (arriving_post x req) = Some (map_response GrpcUnaryBody r)"
      using served(1) [of q x] that assms(25) by simp
    then have "transport req = Ok \<lparr>cr_status = hr_status r, cr_headers = hr_headers r, cr_body = map Ok (grpc_unary_frames (hr_body r))\<rparr>"
      using assms(19) by (simp add: carries_def map_response_def)
    then show ?thesis
      using assms(5,15,17) by (simp add: call_unary_def assms(7) [symmetric] Let_def with_deadline_def split: option.splits)
  qed
  show ?thesis
  proof (cases result)
    case (Err e)
    have "sound_answer (ce_text ce) (ce_wire ce) ?p (max_message_size_of options) (result.Err e)" using assms(26) Err by simp
    from grpc_error_read [OF assms(1,2,5,3,4) this assms(16) refl, of options ?deadline] Err
      call [of "grpc_unary_error env ?p ?codec e"]
    show ?thesis by (simp add: grpc_unary_answer_def)
  next
    case (Ok resp)
    let ?enc = "negotiate_encoding (svc_compression svc) (hm_get_str ?rh ''grpc-accept-encoding'') (hm_get_str ?rh ''grpc-encoding'')"
    have snd: "sound_answer (ce_text ce) (ce_wire ce) ?p (max_message_size_of options) (result.Ok resp)" using assms(26) Ok by simp
    have car: "codec_carries (svc_compression svc) (cfg_compression config) enc (max_message_size_of options) (into_contiguous (resp_body resp))"
      if "?enc = Some enc" for enc
      using negotiated_both [OF assms(11,12)] that served(2) [OF assms(11,12)] assms(27) Ok by metis
    from grpc_success_read [OF assms(1,2,5,3,4) snd assms(8) refl, where deadline = ?deadline, OF car] obtain r where r:
      "grpc_unary_answer env svc ?p ?codec ?rh (result.Ok resp) = Some r"
      "parse_grpc_unary_response ce \<lparr>cr_status = hr_status r, cr_headers = hr_headers r,
          cr_body = map result.Ok (grpc_unary_frames (hr_body r))\<rparr> config options ?deadline =
        result_bind (decode_response_view ce (into_contiguous (resp_body resp)) ?codec (opt_element_memory_limit options))
          (\<lambda>v. result.Ok \<lparr>ur_headers = streaming_head (svc_compression svc) ?p ?codec ?enc (resp_headers resp),
            ur_body = v, ur_trailers = build_grpc_trailers (ce_text ce) (ce_wire ce) None (resp_trailers resp)\<rparr>)"
      by blast
    have wf: "hm_wf (resp_headers resp)" "hm_wf (resp_trailers resp)" using snd by (simp_all add: sound_answer_def)
    show ?thesis
      using call [of r] r Ok append_headers_keeps [OF wf(1)] success_trailers [OF wf(2)]
      by (cases "decode_response_view ce (into_contiguous (resp_body resp)) ?codec (opt_element_memory_limit options)")
        (auto simp: streaming_head_def)
  qed
qed

text \<open>A client of the echo service over an in-process transport.\<close>

definition sample_client :: "(unit, bytes) client_env" where
  "sample_client = \<lparr>ce_text = sample_text_escape, ce_wire = sample_wire_text, ce_now = 0, ce_elapsed = (\<lambda>_. False),
     ce_timer_fires = (\<lambda>_. False), ce_json = False, ce_decode_view = (\<lambda>_ b. Ok b), ce_json_message = (\<lambda>_. Err ''no''),
     ce_encode_message = (\<lambda>_. Err ''no''), ce_json_error = (\<lambda>_. None), ce_json_end_stream = (\<lambda>_. Err ''no'')\<rparr>"

definition grpc_config :: client_config where
  "grpc_config = cfg_with_protocol Grpc (client_config_new sample_registry
     \<lparr>uri_scheme = None, uri_authority = None, uri_path = ''/'', uri_query = None\<rparr>)"

definition in_process :: "client_request \<Rightarrow> (client_response, transport_error) result" where
  "in_process req =
     (case service_call sample_env sample_messages sample_service (arriving_post () req) of
        Some r \<Rightarrow>
          (case hr_body r of
             GrpcUnaryBody b \<Rightarrow> Ok \<lparr>cr_status = hr_status r, cr_headers = hr_headers r, cr_body = map Ok (grpc_unary_frames b)\<rparr>
           | _ \<Rightarrow> Err \<lparr>te_display = ''no unary response'', te_chain = []\<rparr>)
      | None \<Rightarrow> Err \<lparr>te_display = ''no response'', te_chain = []\<rparr>)"

lemma sample_grpc_request:
  "\<exists>s req. spec_client True ''/p.S/M'' StUnary = Some s \<and>
     unary_http_request sample_client sample_uri_ops grpc_config s (Ok [1, 255]) (effective_options grpc_config call_options_default) =
       Some (Ok req) \<and> uri_path (cq_uri req) = ''/p.S/M'' \<and> cq_body req = [0, 0, 0, 0, 2, 1, 255]"
proof -
  let ?s = "\<lparr>procedure = ''/p.S/M'', spec_stream_type = StUnary, spec_origin_of = OriginClient, spec_idempotency_level = LevelUnknown\<rparr>"
  let ?o = "effective_options grpc_config call_options_default"
  have s: "spec_client True ''/p.S/M'' StUnary = Some ?s" "check_client_spec sample_uri_ops ?s StUnary ''call_unary'' = Ok ()"
    by (simp_all add: spec_client_def debug_assert_well_formed_def procedure_is_well_formed_def check_client_spec_def)
  have c: "cfg_protocol grpc_config = Grpc" "request_compression grpc_config = None"
    by (simp_all add: grpc_config_def cfg_with_protocol_def client_config_new_def)
  obtain target where t: "procedure_uri sample_uri_ops grpc_config ''/p.S/M'' None = Ok target" "uri_path target = ''/p.S/M''"
    by (auto simp: procedure_uri_def sample_uri_ops_def trim_end_slashes_def grpc_config_def cfg_with_protocol_def client_config_new_def)
  have b: "unary_request_body grpc_config ?o [1, 255] = Ok ([0, 0, 0, 0, 2, 1, 255], None)"
    by (simp add: unary_request_body_def c encoder_encode_eq envelope_of_def write_envelope_Ok envelope_bytes_def flags_defs
        u32_to_be_bytes_def u32_MAX_def)
  obtain h where "add_unary_request_headers (ce_text sample_client) grpc_config (opt_timeout ?o) None (Some hm_new) = Some h"
    by (cases "accept_encoding (cfg_compression grpc_config)"; cases "opt_timeout ?o")
      (auto simp: add_unary_request_headers_def c builder_header_def builder_optional_def Let_def)
  then show ?thesis using s t b by (simp add: unary_http_request_def)
qed

theorem grpc_call_end_to_end_witness:
  "\<exists>s r. spec_client True ''/p.S/M'' StUnary = Some s \<and>
     call_unary sample_client sample_uri_ops in_process grpc_config s (Ok [1, 255]) call_options_default = Some (Ok r) \<and>
     ur_body r = [1, 255] \<and> hm_values (ur_trailers r) ''grpc-status'' = [''0'']"
proof -
  let ?o = "effective_options grpc_config call_options_default"
  obtain s req where sr: "spec_client True ''/p.S/M'' StUnary = Some s"
      "unary_http_request sample_client sample_uri_ops grpc_config s (Ok [1, 255]) ?o = Some (Ok req)"
      "uri_path (cq_uri req) = ''/p.S/M''" "cq_body req = [0, 0, 0, 0, 2, 1, 255]"
    using sample_grpc_request by blast
  have c: "cfg_protocol grpc_config = Grpc" "request_compression grpc_config = None" "cfg_codec_format grpc_config = Proto"
      "cfg_compression grpc_config = sample_registry"
    by (simp_all add: grpc_config_def cfg_with_protocol_def client_config_new_def)
  have o: "opt_headers ?o = hm_new" "max_message_size_of ?o = DEFAULT_MAX_MESSAGE_SIZE"
    by (simp_all add: effective_options_def grpc_config_def cfg_with_protocol_def client_config_new_def call_options_default_def
        merge_headers_def max_message_size_of_def hm_new_def hm_is_empty_def hm_iter_def)
  have laws: "text_laws (ce_text sample_client) (ce_wire sample_client)" "wire_laws (ce_wire sample_client)"
      "lib_text (env_libs sample_env) = ce_text sample_client" "lib_wire (env_libs sample_env) = ce_wire sample_client"
    using sample_laws by (simp_all add: sample_client_def sample_env_def sample_libs_def)
  have und: "undisturbed sample_env" by (simp add: undisturbed_def sample_env_def)
  have col: "env_collect sample_env (full_body (cq_body req)) (max_request_body_size (svc_limits sample_service)) = Ok (cq_body req)"
    by (simp add: sample_env_def full_body_def sr(4) limits_default_def DEFAULT_MAX_REQUEST_BODY_SIZE_def frame_data_def)
  have car: "carries sample_env sample_messages sample_service () in_process"
    by (auto simp: carries_def in_process_def)
  have path: "''p.S/M'' = strip_slash (uri_path (cq_uri req))" by (simp add: sr(3) strip_slash_def)
  have none: "\<not> supports registry_new enc" for enc by (simp add: supports_def registry_get_def registry_new_def)
  have snd: "sound_answer (ce_text sample_client) (ce_wire sample_client) Grpc (max_message_size_of ?o)
      (Ok (response_new (Contiguous [1, 255])))"
    by (simp add: sound_answer_def response_new_def o DEFAULT_MAX_MESSAGE_SIZE_def trailers_fit_def build_grpc_trailers_def
        hm_insert_def hm_new_def hm_iter_def hm_append_all_def hm_wf_def hm_get_def hm_values_def)
  have dec: "decode_response_view sample_client b Proto l = Ok b" for b l
    by (simp add: decode_response_view_def sample_client_def)
  have pre: "cfg_protocol grpc_config \<noteq> Connect" "cfg_codec_format grpc_config = Json \<longrightarrow> env_json sample_env"
      "max_message_size_of ?o \<le> u32_MAX" "hm_wf (opt_headers ?o)" "hm_get (opt_headers ?o) ''grpc-encoding'' = None"
      "registry_wf (cfg_compression grpc_config)" "providers (cfg_compression grpc_config) \<noteq> []"
      "\<forall>enc. request_compression grpc_config = Some enc \<longrightarrow> codec_carries (cfg_compression grpc_config)
        (svc_compression sample_service) enc (max_message_size (svc_limits sample_service)) [1, 255]"
      "length [1, 255 :: byte] \<le> max_message_size (svc_limits sample_service)" "\<forall>d. \<not> ce_timer_fires sample_client d"
    using sample_registry_wf sample_registry_providers
    by (auto simp: c o DEFAULT_MAX_MESSAGE_SIZE_def u32_MAX_def limits_default_def sample_client_def)
  have res: "Ok (response_new (Contiguous [1, 255])) = d_call_unary (svc_dispatcher sample_service) ''p.S/M'' ctx
      (pl_with_decode_options l (payload_new [1, 255] (cfg_codec_format grpc_config))) (cfg_codec_format grpc_config)" for ctx l
    by (simp add: echo_handler_def pl_with_decode_options_def payload_new_def)
  note call = grpc_call_end_to_end [OF laws pre(1,2) refl pre(3-9) sr(2) und pre(10) col car _ path, of
      "\<lparr>md_kind = Unary, md_idempotent = True, md_spec = None, md_limits = None\<rparr>", OF _ _ _ _ res snd [folded c(1)]]
  obtain out where
    "call_unary sample_client sample_uri_ops in_process grpc_config s (Ok [1, 255]) call_options_default = Some out"
    "\<exists>r. out = Ok r \<and> ur_body r = [1, 255] \<and> hm_values (ur_trailers r) ''grpc-status'' = [''0'']"
    using call by (auto simp: c dec none response_new_def)
  then show ?thesis using sr(1) by auto
qed

end
