(* ===== verification/ClientStream.thy ===== *)
theory ClientStream
  imports ClientUnary
begin

text \<open>
  The client's streaming calls (\<^verbatim>\<open>connectrpc/src/client/mod.rs\<close>): \<^verbatim>\<open>ServerStream\<close> with its decode
  loop and terminal record, and the calls that build one. The body of a streaming response is
  the script of what its polls answer: \<open>Pending\<close> while a frame is awaited, where the call's
  timer may fire first, or a frame or read error; the end of the script is the end of the body.
\<close>

section \<open>The terminal record\<close>

record stream_end =
  se_outcome :: "unit connect_result"
  se_trailers :: "headers option"

definition attach_metadata :: "headers \<Rightarrow> stream_end \<Rightarrow> stream_end" where
  "attach_metadata h se =
     (case se_outcome se of
        Ok _ \<Rightarrow> se
      | Err e \<Rightarrow>
          (let e = set_response_headers h e in
           se\<lparr>se_outcome := Err (case se_trailers se of
                Some trailers \<Rightarrow> set_trailers (error_metadata_from_trailers trailers) e
              | None \<Rightarrow> e)\<rparr>))"

definition replay :: "stream_end \<Rightarrow> 'a option connect_result" where
  "replay se = (case se_outcome se of Ok _ \<Rightarrow> Ok None | Err e \<Rightarrow> Err e)"

definition stream_end_from_error :: "connect_error \<Rightarrow> stream_end" where
  "stream_end_from_error e = \<lparr>se_outcome = Err e, se_trailers = None\<rparr>"

datatype body_poll = BodyData bytes | BodyTrailers headers | BodyEof

section \<open>The end of a Connect stream\<close>

definition parse_connect_end_stream :: "('o, 'v) client_env \<Rightarrow> bytes \<Rightarrow> client_end_stream_response connect_result" where
  "parse_connect_end_stream ce data =
     (case ce_json_end_stream ce data of
        Ok es \<Rightarrow> Ok es
      | Err e \<Rightarrow> Err (internal (''protocol error: malformed Connect END_STREAM JSON: '' @ e)))"

definition end_stream_error_to_connect_error :: "client_end_stream_error \<Rightarrow> connect_error" where
  "end_stream_error_to_connect_error err =
     (new_error (case Option.bind (ces_code err) error_code_from_str of Some c \<Rightarrow> c | None \<Rightarrow> Unknown)
        (case ces_message err of Some m \<Rightarrow> m | None \<Rightarrow> []))\<lparr>err_details := ces_details err\<rparr>"

section \<open>The response stream\<close>

type_synonym body_script = "(http_frame, string) result poll list"

record server_stream =
  ss_headers :: headers
  ss_body :: body_script
  ss_frame :: bytes
  ss_assembler :: assembler
  ss_encoding :: "string option"
  ss_compression :: compression_registry
  ss_codec_format :: codec_format
  ss_protocol :: protocol
  ss_max_message_size :: usize
  ss_element_memory_limit :: "usize option"
  ss_deadline :: "instant option"
  ss_end :: "stream_end option"
  ss_saw_body_data :: bool

definition response_assembler :: "protocol \<Rightarrow> usize \<Rightarrow> assembler" where
  "response_assembler p max_size =
     (case p of
        GrpcWeb \<Rightarrow> with_grpc_web_trailer_limit MAX_GRPC_WEB_TRAILER_SIZE (assembler_new max_size)
      | _ \<Rightarrow> assembler_new max_size)"

definition stream_trailers :: "server_stream \<Rightarrow> headers option" where
  "stream_trailers ss = Option.bind (ss_end ss) se_trailers"

definition stream_error :: "server_stream \<Rightarrow> connect_error option" where
  "stream_error ss =
     Option.bind (ss_end ss) (\<lambda>se. case se_outcome se of Ok _ \<Rightarrow> None | Err e \<Rightarrow> Some e)"

definition decompress_envelope :: "server_stream \<Rightarrow> envelope \<Rightarrow> bytes connect_result" where
  "decompress_envelope ss e =
     (if is_compressed e then
        (case ss_encoding ss of
           None \<Rightarrow> Err (internal ''received compressed message without content-encoding header'')
         | Some encoding \<Rightarrow>
             (case registry_decompress_with_limit (ss_compression ss) encoding (env_data e) (ss_max_message_size ss) of
                Ok d \<Rightarrow> Ok d
              | Err x \<Rightarrow> Err (map_response_decompression_error x)))
      else Ok (env_data e))"

definition process_end_stream :: "('o, 'v) client_env \<Rightarrow> server_stream \<Rightarrow> envelope \<Rightarrow> stream_end" where
  "process_end_stream ce ss e =
     (case result_bind (decompress_envelope ss e) (parse_connect_end_stream ce) of
        Err x \<Rightarrow> stream_end_from_error x
      | Ok es \<Rightarrow>
          \<lparr>se_outcome = (case ces_error es of Some err \<Rightarrow> Err (end_stream_error_to_connect_error err) | None \<Rightarrow> Ok ()),
           se_trailers = map_option (append_metadata_capped (ce_text ce) hm_new) (ces_metadata es)\<rparr>)"

definition classify_grpc_end :: "('o, 'v) client_env \<Rightarrow> server_stream \<Rightarrow> headers option \<Rightarrow> stream_end" where
  "classify_grpc_end ce ss trailers =
     \<lparr>se_outcome =
        (case Option.bind trailers (parse_grpc_error_from_trailers (ce_text ce) (ce_wire ce)) of
           Some err \<Rightarrow> Err err
         | None \<Rightarrow>
             (let has_status = (\<lambda>h. hm_contains h ''grpc-status'');
                  trailers_only = \<not> ss_saw_body_data ss
              in if (case trailers of Some t \<Rightarrow> has_status t | None \<Rightarrow> False) \<or> trailers_only \<and> has_status (ss_headers ss)
                 then Ok ()
                 else if deadline_elapsed ce (ss_deadline ss) then Err (deadline_exceeded ''request timeout'')
                 else if trailers \<noteq> None then Err (new_error Unknown ''protocol error: grpc-status missing from trailers'')
                 else Err (internal ''stream ended without grpc-status''))),
      se_trailers = trailers\<rparr>"

text \<open>
  The loop of \<^verbatim>\<open>poll_body\<close> over the script, with the stream's saw-data flag. The timer is looked at
  only while no frame is ready.
\<close>

fun poll_body_loop ::
    "('o, 'v) client_env \<Rightarrow> protocol \<Rightarrow> instant option \<Rightarrow> bool \<Rightarrow> body_script \<Rightarrow> body_poll connect_result \<times> bool \<times> body_script" where
  "poll_body_loop ce p deadline saw [] = (Ok BodyEof, saw, [])"
| "poll_body_loop ce p deadline saw (Pending # script) =
     (case with_deadline ce deadline (Ok ()) of
        Err e \<Rightarrow> (Err e, saw, script)
      | Ok _ \<Rightarrow> poll_body_loop ce p deadline saw script)"
| "poll_body_loop ce p deadline saw (Ready (Ok (DataFrame data)) # script) =
     (Ok (BodyData data), saw \<or> data \<noteq> [], script)"
| "poll_body_loop ce p deadline saw (Ready (Ok (TrailersFrame trailers)) # script) =
     (if p = Connect then poll_body_loop ce p deadline saw script else (Ok (BodyTrailers trailers), saw, script))"
| "poll_body_loop ce p deadline saw (Ready (Err e) # script) =
     (Err (classify_body_read_error ce ''failed to read response body'' e deadline), saw, script)"

definition poll_body :: "('o, 'v) client_env \<Rightarrow> server_stream \<Rightarrow> body_poll connect_result \<times> server_stream" where
  "poll_body ce ss =
     (case poll_body_loop ce (ss_protocol ss) (ss_deadline ss) (ss_saw_body_data ss) (ss_body ss) of
        (r, saw, script) \<Rightarrow> (r, ss\<lparr>ss_saw_body_data := saw, ss_body := script\<rparr>))"

lemma poll_body_loop_shrinks:
  "poll_body_loop ce p deadline saw script = (Ok (BodyData data), saw', script') \<Longrightarrow> length script' < length script"
  by (induction ce p deadline saw script rule: poll_body_loop.induct) (auto split: result.splits if_splits)

lemma poll_body_shrinks:
  "poll_body ce ss = (Ok (BodyData data), ss') \<Longrightarrow> length (ss_body ss') < length (ss_body ss)"
  by (auto simp: poll_body_def dest: poll_body_loop_shrinks split: prod.splits)

definition read_data_envelope :: "('o, 'v) client_env \<Rightarrow> server_stream \<Rightarrow> envelope \<Rightarrow> ('v, stream_end) result" where
  "read_data_envelope ce ss e =
     (case result_bind (decompress_envelope ss e)
             (\<lambda>data. decode_response_view ce data (ss_codec_format ss) (ss_element_memory_limit ss)) of
        Ok v \<Rightarrow> Ok v
      | Err x \<Rightarrow> Err (stream_end_from_error x))"

text \<open>What one complete envelope gives: a message, or the end of the stream.\<close>

definition read_envelope :: "('o, 'v) client_env \<Rightarrow> server_stream \<Rightarrow> envelope \<Rightarrow> ('v, stream_end) result" where
  "read_envelope ce ss e =
     (if ss_protocol ss = GrpcWeb \<and> env_flags e AND flags_GRPC_WEB_TRAILER \<noteq> 0
      then Err (classify_grpc_end ce ss
             (parse_grpc_web_trailer_payload (ce_text ce) (is_compressed e) (env_data e)
               (map_option (Pair (ss_compression ss)) (ss_encoding ss))))
      else if is_end_stream e then Err (process_end_stream ce ss e)
      else read_data_envelope ce ss e)"

function next_message_or_end :: "('o, 'v) client_env \<Rightarrow> server_stream \<Rightarrow> ('v, stream_end) result \<times> server_stream" where
  "next_message_or_end ce ss =
     (case feed (ss_assembler ss) (ss_frame ss) of
        (Err x, a, frame) \<Rightarrow> (Err (stream_end_from_error x), ss\<lparr>ss_assembler := a, ss_frame := frame\<rparr>)
      | (Ok (Some e), a, frame) \<Rightarrow>
          (let ss = ss\<lparr>ss_assembler := a, ss_frame := frame\<rparr> in (read_envelope ce ss e, ss))
      | (Ok None, a, frame) \<Rightarrow>
          (case poll_body ce (ss\<lparr>ss_assembler := a, ss_frame := frame\<rparr>) of
             (Err x, ss') \<Rightarrow> (Err (stream_end_from_error x), ss')
           | (Ok (BodyData data), ss') \<Rightarrow> next_message_or_end ce (ss'\<lparr>ss_frame := data\<rparr>)
           | (Ok (BodyTrailers trailers), ss') \<Rightarrow> (Err (classify_grpc_end ce ss' (Some trailers)), ss')
           | (Ok BodyEof, ss') \<Rightarrow>
               (Err (if ss_protocol ss = Connect
                     then stream_end_from_error (internal ''Connect streaming response ended without END_STREAM envelope'')
                     else classify_grpc_end ce ss' None), ss')))"
  by pat_completeness auto
termination
  by (relation "measure (\<lambda>(ce, ss). length (ss_body ss))") (auto dest!: poll_body_shrinks [OF sym])

declare next_message_or_end.simps [simp del]

definition message :: "('o, 'v) client_env \<Rightarrow> server_stream \<Rightarrow> 'v option connect_result \<times> server_stream" where
  "message ce ss =
     (case ss_end ss of
        Some se \<Rightarrow> (replay se, ss)
      | None \<Rightarrow>
          (case next_message_or_end ce ss of
             (Ok v, ss') \<Rightarrow> (Ok (Some v), ss')
           | (Err se, ss') \<Rightarrow>
               (let se = attach_metadata (ss_headers ss') se in (replay se, ss'\<lparr>ss_end := Some se\<rparr>))))"

section \<open>What a response stream delivers\<close>

text \<open>
  The reference: the data of the frames as one byte string with what cuts it off, the envelopes
  contiguous decoding of it gives, and each envelope read in turn up to the first that ends
  the stream.
\<close>

fun script_body ::
    "('o, 'v) client_env \<Rightarrow> protocol \<Rightarrow> instant option \<Rightarrow> body_script \<Rightarrow> bytes \<times> body_poll connect_result" where
  "script_body ce p deadline [] = ([], Ok BodyEof)"
| "script_body ce p deadline (Pending # script) =
     (case with_deadline ce deadline (Ok ()) of Err e \<Rightarrow> ([], Err e) | Ok _ \<Rightarrow> script_body ce p deadline script)"
| "script_body ce p deadline (Ready (Ok (DataFrame data)) # script) =
     (let (bs, t) = script_body ce p deadline script in (data @ bs, t))"
| "script_body ce p deadline (Ready (Ok (TrailersFrame trailers)) # script) =
     (if p = Connect then script_body ce p deadline script else ([], Ok (BodyTrailers trailers)))"
| "script_body ce p deadline (Ready (Err e) # script) =
     ([], Err (classify_body_read_error ce ''failed to read response body'' e deadline))"

definition final_end :: "('o, 'v) client_env \<Rightarrow> server_stream \<Rightarrow> body_poll connect_result \<Rightarrow> stream_end" where
  "final_end ce ss t =
     (case t of
        Err e \<Rightarrow> stream_end_from_error e
      | Ok (BodyTrailers trailers) \<Rightarrow> classify_grpc_end ce ss (Some trailers)
      | Ok _ \<Rightarrow>
          (if ss_protocol ss = Connect
           then stream_end_from_error (internal ''Connect streaming response ended without END_STREAM envelope'')
           else classify_grpc_end ce ss None))"

fun stream_walk :: "('o, 'v) client_env \<Rightarrow> server_stream \<Rightarrow> envelope list \<Rightarrow> stream_end \<Rightarrow> 'v list \<times> stream_end" where
  "stream_walk ce ss [] fin = ([], fin)"
| "stream_walk ce ss (e # es) fin =
     (case read_envelope ce ss e of
        Err se \<Rightarrow> ([], se)
      | Ok v \<Rightarrow> (let (vs, se) = stream_walk ce ss es fin in (v # vs, se)))"

definition web_limit :: "protocol \<Rightarrow> usize option" where
  "web_limit p = (if p = GrpcWeb then Some MAX_GRPC_WEB_TRAILER_SIZE else None)"

definition stream_reading :: "('o, 'v) client_env \<Rightarrow> server_stream \<Rightarrow> 'v list \<times> stream_end" where
  "stream_reading ce ss =
     (let (bs, t) = script_body ce (ss_protocol ss) (ss_deadline ss) (ss_body ss);
          (es, rest) = decode_all (spec_decode (ss_max_message_size ss) (web_limit (ss_protocol ss)))
                         (asm_pend (ss_assembler ss) @ ss_frame ss @ bs);
          seen = ss\<lparr>ss_saw_body_data := ss_saw_body_data ss \<or> bs \<noteq> []\<rparr>
      in stream_walk ce seen es (case rest of Err x \<Rightarrow> stream_end_from_error x | Ok _ \<Rightarrow> final_end ce seen t))"

definition ss_inv :: "server_stream \<Rightarrow> bool" where
  "ss_inv ss \<longleftrightarrow> asm_inv (ss_max_message_size ss) (web_limit (ss_protocol ss)) (ss_assembler ss) \<and>
     (asm_pend (ss_assembler ss) @ ss_frame ss \<noteq> [] \<longrightarrow> ss_saw_body_data ss)"

lemma response_assembler_inv [simp, inv_intros]: "asm_inv M (web_limit p) (response_assembler p M)"
  by (cases p) (simp_all add: response_assembler_def web_limit_def)

lemma response_assembler_pend [simp]: "asm_pend (response_assembler p M) = []"
  by (cases p) (simp_all add: response_assembler_def)

text \<open>Reading an envelope looks at neither the buffers nor the rest of the body.\<close>

lemma decompress_envelope_state [simp]:
  "decompress_envelope (ss\<lparr>ss_assembler := a\<rparr>) e = decompress_envelope ss e"
  "decompress_envelope (ss\<lparr>ss_frame := f\<rparr>) e = decompress_envelope ss e"
  "decompress_envelope (ss\<lparr>ss_body := b\<rparr>) e = decompress_envelope ss e"
  "decompress_envelope (ss\<lparr>ss_saw_body_data := s\<rparr>) e = decompress_envelope ss e"
  by (simp_all add: decompress_envelope_def split: option.splits)

lemma classify_grpc_end_state [simp]:
  "classify_grpc_end ce (ss\<lparr>ss_assembler := a\<rparr>) t = classify_grpc_end ce ss t"
  "classify_grpc_end ce (ss\<lparr>ss_frame := f\<rparr>) t = classify_grpc_end ce ss t"
  "classify_grpc_end ce (ss\<lparr>ss_body := b\<rparr>) t = classify_grpc_end ce ss t"
  by (simp_all add: classify_grpc_end_def split: option.splits)

lemma read_envelope_state [simp]:
  "read_envelope ce (ss\<lparr>ss_assembler := a\<rparr>) e = read_envelope ce ss e"
  "read_envelope ce (ss\<lparr>ss_frame := f\<rparr>) e = read_envelope ce ss e"
  "read_envelope ce (ss\<lparr>ss_body := b\<rparr>) e = read_envelope ce ss e"
  by (simp_all add: read_envelope_def read_data_envelope_def process_end_stream_def)

lemma final_end_state [simp]:
  "final_end ce (ss\<lparr>ss_assembler := a\<rparr>) t = final_end ce ss t"
  "final_end ce (ss\<lparr>ss_frame := f\<rparr>) t = final_end ce ss t"
  "final_end ce (ss\<lparr>ss_body := b\<rparr>) t = final_end ce ss t"
  by (simp_all add: final_end_def split: result.splits body_poll.splits)

lemma stream_walk_state [simp]:
  "stream_walk ce (ss\<lparr>ss_assembler := a\<rparr>) es t = stream_walk ce ss es t"
  "stream_walk ce (ss\<lparr>ss_frame := f\<rparr>) es t = stream_walk ce ss es t"
  "stream_walk ce (ss\<lparr>ss_body := b\<rparr>) es t = stream_walk ce ss es t"
  by (induction es) (simp_all split: result.splits)

lemma poll_body_loop_reads:
  assumes "poll_body_loop ce p deadline saw script = (r, saw', script')"
  shows "(\<exists>data. r = Ok (BodyData data) \<and> saw' = (saw \<or> data \<noteq> []) \<and>
      script_body ce p deadline script =
        (data @ fst (script_body ce p deadline script'), snd (script_body ce p deadline script'))) \<or>
    (\<forall>data. r \<noteq> Ok (BodyData data)) \<and> saw' = saw \<and> script_body ce p deadline script = ([], r)"
  using assms
  by (induction ce p deadline saw script rule: poll_body_loop.induct)
    (auto split: result.splits if_splits prod.splits)

text \<open>The state after one more piece of the body has been taken in.\<close>

lemma stream_reading_more:
  assumes "poll_body ce (ss\<lparr>ss_assembler := a, ss_frame := []\<rparr>) = (Ok (BodyData data), ss')"
    and "asm_pend a = asm_pend (ss_assembler ss) @ ss_frame ss"
  shows "stream_reading ce (ss'\<lparr>ss_frame := data\<rparr>) = stream_reading ce ss"
proof -
  let ?p = "ss_protocol ss" and ?d = "ss_deadline ss"
  obtain saw script where loop:
      "poll_body_loop ce ?p ?d (ss_saw_body_data ss) (ss_body ss) = (Ok (BodyData data), saw, script)"
      and ss': "ss' = ss\<lparr>ss_assembler := a, ss_frame := [], ss_saw_body_data := saw, ss_body := script\<rparr>"
    using assms(1) by (auto simp: poll_body_def split: prod.splits)
  have saw: "saw = (ss_saw_body_data ss \<or> data \<noteq> [])"
    and body: "script_body ce ?p ?d (ss_body ss) = (data @ fst (script_body ce ?p ?d script), snd (script_body ce ?p ?d script))"
    using poll_body_loop_reads [OF loop] by auto
  obtain bs t where "script_body ce ?p ?d script = (bs, t)" by fastforce
  with body have b: "script_body ce ?p ?d (ss_body ss) = (data @ bs, t)" "script_body ce ?p ?d script = (bs, t)" by simp_all
  let ?ss = "\<lambda>x. ss\<lparr>ss_assembler := a, ss_body := script, ss_frame := data, ss_saw_body_data := x\<rparr>"
  have seen: "?ss x = ss\<lparr>ss_saw_body_data := x\<rparr>\<lparr>ss_assembler := a\<rparr>\<lparr>ss_body := script\<rparr>\<lparr>ss_frame := data\<rparr>" for x by simp
  have final: "final_end ce (?ss x) t = final_end ce (ss\<lparr>ss_saw_body_data := x\<rparr>) t" for x
    unfolding seen by (simp only: final_end_state)
  have walk: "stream_walk ce (?ss x) es f = stream_walk ce (ss\<lparr>ss_saw_body_data := x\<rparr>) es f" for x es f
    unfolding seen by (simp only: stream_walk_state)
  show ?thesis
    by (simp add: stream_reading_def ss' b saw assms(2) walk final disj_assoc Let_def split: prod.splits result.splits)
qed

lemma next_message_step:
  assumes "ss_inv ss"
  shows "case stream_reading ce ss of
      ([], se) \<Rightarrow> \<exists>ss'. next_message_or_end ce ss = (Err se, ss') \<and> ss_headers ss' = ss_headers ss
    | (v # vs, se) \<Rightarrow> \<exists>ss'. next_message_or_end ce ss = (Ok v, ss') \<and> ss_inv ss' \<and>
        stream_reading ce ss' = (vs, se) \<and> ss_headers ss' = ss_headers ss \<and> ss_end ss' = ss_end ss"
  using assms
proof (induction "length (ss_body ss)" arbitrary: ss rule: less_induct)
  case less
  let ?M = "ss_max_message_size ss" and ?T = "web_limit (ss_protocol ss)" and ?a = "ss_assembler ss"
  let ?dec = "spec_decode ?M ?T" and ?w = "asm_pend ?a @ ss_frame ss"
  obtain bs t where b: "script_body ce (ss_protocol ss) (ss_deadline ss) (ss_body ss) = (bs, t)" by fastforce
  have inv: "asm_inv ?M ?T ?a" and saw: "?w \<noteq> [] \<longrightarrow> ss_saw_body_data ss" using less.prems by (simp_all add: ss_inv_def)
  show ?case
  proof (cases "?dec ?w")
    case (Err x)
    obtain a frame where "feed ?a (ss_frame ss) = (Err x, a, frame)"
      using assembler_feed.feed_err [OF inv Err] by (cases "feed ?a (ss_frame ss)") auto
    moreover have "decode_all ?dec (?w @ bs) = ([], Err x)"
      using envelope_frames.dec_err_stable [OF Err] by (rule envelope_frames.decode_all_Err)
    ultimately show ?thesis
      using b by (subst next_message_or_end.simps) (simp add: stream_reading_def)
  next
    case (Ok out)
    show ?thesis
    proof (cases out)
      case (Some q)
      obtain e r where q: "?dec ?w = Ok (Some (e, r))" using Ok Some by (cases q) auto
      obtain a where f: "feed ?a (ss_frame ss) = (Ok (Some e), a, r)" "asm_inv ?M ?T a" "asm_pend a = []"
        using assembler_feed.feed_item [OF inv q] by blast
      have "?w \<noteq> []" using q by (auto simp: spec_decode_def)
      then have seen: "ss_saw_body_data ss" using saw by blast
      have "?dec (?w @ bs) = Ok (Some (e, r @ bs))" using q by (rule envelope_frames.dec_item_stable)
      note all = envelope_frames.decode_all_item [OF this]
      have upd: "ss\<lparr>ss_saw_body_data := True\<rparr> = ss" using seen by simp
      have upd': "ss\<lparr>ss_assembler := a, ss_frame := r, ss_saw_body_data := True\<rparr> = ss\<lparr>ss_assembler := a\<rparr>\<lparr>ss_frame := r\<rparr>"
        using seen by simp
      let ?ss = "ss\<lparr>ss_assembler := a, ss_frame := r\<rparr>"
      have rd: "read_envelope ce ?ss e = read_envelope ce ss e"
        by simp
      have step: "next_message_or_end ce ss = (read_envelope ce ss e, ?ss)"
        by (subst next_message_or_end.simps) (simp add: f rd)
      have rest: "stream_reading ce ?ss = stream_walk ce ss (fst (decode_all ?dec (r @ bs)))
          (case snd (decode_all ?dec (r @ bs)) of Err x \<Rightarrow> stream_end_from_error x | Ok _ \<Rightarrow> final_end ce ss t)"
        using b seen by (simp add: stream_reading_def f(3) upd' split: prod.splits result.splits)
      have whole: "stream_reading ce ss =
          (case read_envelope ce ss e of Err se \<Rightarrow> ([], se) | Ok v \<Rightarrow> (v # fst (stream_reading ce ?ss), snd (stream_reading ce ?ss)))"
        using b seen all by (simp add: stream_reading_def [of ce ss] rest upd case_prod_beta split: result.splits)
      have "ss_inv ?ss" using f(2,3) seen by (simp add: ss_inv_def)
      then show ?thesis
        by (cases "read_envelope ce ss e") (simp_all add: whole step)
    next
      case None
      then have m: "?dec ?w = Ok None" using Ok by simp
      obtain a where f: "feed ?a (ss_frame ss) = (Ok None, a, [])" "asm_inv ?M ?T a" "asm_pend a = ?w"
        using assembler_feed.feed_more [OF inv m] by blast
      let ?ss = "ss\<lparr>ss_assembler := a, ss_frame := []\<rparr>"
      obtain out ss' where p: "poll_body ce ?ss = (out, ss')" by fastforce
      then obtain saw' script where loop:
          "poll_body_loop ce (ss_protocol ss) (ss_deadline ss) (ss_saw_body_data ss) (ss_body ss) = (out, saw', script)"
          and ss': "ss' = ?ss\<lparr>ss_saw_body_data := saw', ss_body := script\<rparr>"
        by (auto simp: poll_body_def split: prod.splits)
      show ?thesis
      proof (cases "\<exists>data. out = Ok (BodyData data)")
        case True
        then obtain data where data: "out = Ok (BodyData data)" by blast
        have step: "next_message_or_end ce ss = next_message_or_end ce (ss'\<lparr>ss_frame := data\<rparr>)"
          by (subst next_message_or_end.simps) (simp add: f p data)
        have less': "length (ss_body (ss'\<lparr>ss_frame := data\<rparr>)) < length (ss_body ss)"
          using poll_body_shrinks [where ss = ?ss] p data by simp
        have "ss_inv (ss'\<lparr>ss_frame := data\<rparr>)"
          using f(2,3) saw poll_body_loop_reads [OF loop] data by (auto simp: ss_inv_def ss')
        note IH = less.hyps [OF less' this]
        have same: "stream_reading ce (ss'\<lparr>ss_frame := data\<rparr>) = stream_reading ce ss"
          using p data f(3) by (intro stream_reading_more) simp_all
        have "ss_headers (ss'\<lparr>ss_frame := data\<rparr>) = ss_headers ss" "ss_end (ss'\<lparr>ss_frame := data\<rparr>) = ss_end ss"
          by (simp_all add: ss')
        from IH [unfolded same this] show ?thesis unfolding step .
      next
        case False
        have eof: "saw' = ss_saw_body_data ss" "(bs, t) = ([], out)" using poll_body_loop_reads [OF loop] False b by auto
        have "decode_all ?dec ?w = ([], Ok ?w)" using m by (rule envelope_frames.decode_all_more)
        then have reading: "stream_reading ce ss = ([], final_end ce ss out)"
          using b eof by (simp add: stream_reading_def)
        have c: "classify_grpc_end ce ss' tr = classify_grpc_end ce ss tr" for tr
          using eof(1) by (simp add: ss' classify_grpc_end_def split: option.splits)
        have "next_message_or_end ce ss = (Err (final_end ce ss out), ss')"
          using False by (subst next_message_or_end.simps)
            (simp add: f p c final_end_def split: result.splits body_poll.splits)
        then show ?thesis by (simp add: reading ss')
      qed
    qed
  qed
qed

text \<open>The answers of \<open>n\<close> calls of \<^verbatim>\<open>message()\<close>.\<close>

fun read_messages :: "('o, 'v) client_env \<Rightarrow> nat \<Rightarrow> server_stream \<Rightarrow> 'v option connect_result list" where
  "read_messages ce 0 ss = []"
| "read_messages ce (Suc n) ss = (let (r, ss') = message ce ss in r # read_messages ce n ss')"

fun stream_after :: "('o, 'v) client_env \<Rightarrow> nat \<Rightarrow> server_stream \<Rightarrow> server_stream" where
  "stream_after ce 0 ss = ss"
| "stream_after ce (Suc n) ss = stream_after ce n (snd (message ce ss))"

lemma stream_after_ended: "ss_end ss = Some se \<Longrightarrow> stream_after ce n ss = ss"
  by (induction n) (simp_all add: message_def)

lemma read_messages_ended: "ss_end ss = Some se \<Longrightarrow> read_messages ce n ss = replicate n (replay se)"
  by (induction n) (simp_all add: message_def)

lemma read_messages_all:
  assumes "ss_inv ss" and "ss_end ss = None" and "stream_reading ce ss = (vs, se)"
  shows "read_messages ce n ss = map (Ok \<circ> Some) (take n vs) @
    replicate (n - length vs) (replay (attach_metadata (ss_headers ss) se))"
  using assms
proof (induction n arbitrary: ss vs)
  case (Suc n)
  show ?case
  proof (cases vs)
    case Nil
    then obtain ss' where "next_message_or_end ce ss = (Err se, ss')" "ss_headers ss' = ss_headers ss"
      using next_message_step [OF Suc.prems(1), of ce] Suc.prems(3) by auto
    then show ?thesis using Nil Suc.prems(2) by (simp add: message_def read_messages_ended Let_def)
  next
    case (Cons v ws)
    then obtain ss' where ss': "next_message_or_end ce ss = (Ok v, ss')" "ss_inv ss'" "stream_reading ce ss' = (ws, se)"
        "ss_headers ss' = ss_headers ss" "ss_end ss' = ss_end ss"
      using next_message_step [OF Suc.prems(1), of ce] Suc.prems(3) by auto
    from Suc.IH [OF ss'(2) _ ss'(3)] show ?thesis using Cons Suc.prems(2) ss' by (simp add: message_def)
  qed
qed simp

lemma stream_after_all:
  assumes "ss_inv ss" and "ss_end ss = None" and "stream_reading ce ss = (vs, se)" and "length vs < n"
  shows "ss_end (stream_after ce n ss) = Some (attach_metadata (ss_headers ss) se)"
  using assms
proof (induction n arbitrary: ss vs)
  case (Suc n)
  show ?case
  proof (cases vs)
    case Nil
    then obtain ss' where "next_message_or_end ce ss = (Err se, ss')" "ss_headers ss' = ss_headers ss"
      using next_message_step [OF Suc.prems(1), of ce] Suc.prems(3) by auto
    then show ?thesis using Suc.prems(2) by (simp add: message_def stream_after_ended Let_def)
  next
    case (Cons v ws)
    then obtain ss' where ss': "next_message_or_end ce ss = (Ok v, ss')" "ss_inv ss'" "stream_reading ce ss' = (ws, se)"
        "ss_headers ss' = ss_headers ss" "ss_end ss' = ss_end ss"
      using next_message_step [OF Suc.prems(1), of ce] Suc.prems(3) by auto
    from Suc.IH [OF ss'(2) _ ss'(3)] show ?thesis using Cons Suc.prems(2,4) ss' by (simp add: message_def)
  qed
qed simp

section \<open>Opening a response stream\<close>

record client_stream_response =
  sr_status :: nat
  sr_headers :: headers
  sr_body :: body_script

text \<open>
  The error of a Connect response to a streaming call whose status is no success: its JSON body
  when that can be read, or else the status.
\<close>

definition connect_stream_error ::
    "('o, 'v) client_env \<Rightarrow> client_stream_response \<Rightarrow> compression_registry \<Rightarrow> usize \<Rightarrow> instant option \<Rightarrow> connect_error" where
  "connect_stream_error ce response compression limit deadline =
     (let status = sr_status response; h = sr_headers response;
          plain = set_response_headers h (new_error (http_status_to_error_code status) (''HTTP error '' @ show_nat status))
      in case collect_body_bounded ce (script_items (sr_body response)) limit deadline of
           Err e \<Rightarrow> e
         | Ok body \<Rightarrow>
             (case (case hm_get_str h ''content-encoding'' of
                      Some encoding \<Rightarrow> registry_decompress_with_limit compression encoding body limit
                    | None \<Rightarrow> Ok body) of
                Err _ \<Rightarrow> plain
              | Ok body \<Rightarrow>
                  (case ce_json_error ce body of
                     None \<Rightarrow> plain
                   | Some eb \<Rightarrow>
                       (let code = (case Option.bind (eb_code eb) error_code_from_str of
                                      Some c \<Rightarrow> c | None \<Rightarrow> http_status_to_error_code status);
                            err = new_error code (case eb_message eb of Some m \<Rightarrow> m | None \<Rightarrow> [])
                        in set_response_headers h (err\<lparr>err_details := eb_details eb\<rparr>)))))"

definition make_server_stream ::
    "('o, 'v) client_env \<Rightarrow> client_stream_response \<Rightarrow> protocol \<Rightarrow> compression_registry \<Rightarrow> codec_format \<Rightarrow>
     usize option \<Rightarrow> usize option \<Rightarrow> instant option \<Rightarrow> server_stream connect_result" where
  "make_server_stream ce response p compression codec max_size memory_limit deadline =
     (let limit = (case max_size of Some n \<Rightarrow> n | None \<Rightarrow> DEFAULT_MAX_MESSAGE_SIZE);
          h = sr_headers response; status = sr_status response
      in result_bind
           (if p = Connect then Ok ()
            else result_bind (check_grpc_response_head status h p codec) (\<lambda>_.
                   case parse_grpc_error_from_trailers (ce_text ce) (ce_wire ce) h of
                     Some err \<Rightarrow> Err (set_response_headers h err)
                   | None \<Rightarrow> Ok ())) (\<lambda>_.
         if \<not> is_success status
         then Err (if p = Connect then connect_stream_error ce response compression limit deadline
                   else set_response_headers h (new_error (http_status_to_error_code status) (''HTTP error '' @ show_nat status)))
         else result_bind (if p = Connect then validate_connect_response_content_type h codec True else Ok ()) (\<lambda>_.
           Ok \<lparr>ss_headers = h, ss_body = sr_body response, ss_frame = [], ss_assembler = response_assembler p limit,
               ss_encoding = hm_get_str h (content_encoding_header p), ss_compression = compression,
               ss_codec_format = codec, ss_protocol = p, ss_max_message_size = limit,
               ss_element_memory_limit = memory_limit, ss_deadline = deadline, ss_end = None, ss_saw_body_data = False\<rparr>)))"

section \<open>The streaming requests\<close>

record 'b client_stream_request =
  sq_uri :: uri
  sq_headers :: headers
  sq_body :: 'b

definition request_encoder :: "client_config \<Rightarrow> call_options \<Rightarrow> envelope_encoder" where
  "request_encoder config options =
     \<lparr>enc_compression = map_option (Pair (cfg_compression config)) (request_compression config),
      enc_policy = with_override (cfg_compression_policy config) (opt_compress options)\<rparr>"

text \<open>
  The request of a streaming call: the spec check, the target, the body (or the error of
  encoding it) and the headers. Unwrapping a builder that holds an error panics.
\<close>

definition streaming_http_request ::
    "('o, 'v) client_env \<Rightarrow> uri_ops \<Rightarrow> client_config \<Rightarrow> spec \<Rightarrow> stream_type \<Rightarrow> string \<Rightarrow> 'b connect_result \<Rightarrow> call_options \<Rightarrow>
     'b client_stream_request connect_result option" where
  "streaming_http_request ce u config s shape entry body options =
     (case result_bind (check_client_spec u s shape entry) (\<lambda>_.
             result_bind (procedure_uri u config (procedure s) None) (\<lambda>target.
             result_bind body (\<lambda>b. Ok (target, b)))) of
        Err e \<Rightarrow> Some (Err e)
      | Ok (target, b) \<Rightarrow>
          map_option (\<lambda>h. Ok \<lparr>sq_uri = target, sq_headers = hm_append_all (hm_iter (opt_headers options)) h, sq_body = b\<rparr>)
            (add_streaming_request_headers (ce_text ce) config (opt_timeout options) (Some hm_new)))"

definition call_server_stream ::
    "('o, 'v) client_env \<Rightarrow> uri_ops \<Rightarrow> (bytes client_stream_request \<Rightarrow> (client_stream_response, transport_error) result) \<Rightarrow>
     client_config \<Rightarrow> spec \<Rightarrow> bytes connect_result \<Rightarrow> call_options \<Rightarrow> server_stream connect_result option" where
  "call_server_stream ce u transport config s encoded opts =
     (let options = effective_options config opts;
          deadline = client_deadline (ce_now ce) (opt_timeout options) (cfg_protocol config);
          body = result_bind encoded (\<lambda>m. encoder_encode (request_encoder config options) m [])
      in map_option (\<lambda>r. result_bind r (\<lambda>request.
             with_deadline ce deadline
               (case transport request of
                  Err e \<Rightarrow> Err (map_transport_send_error e ''request failed'')
                | Ok response \<Rightarrow>
                    make_server_stream ce response (cfg_protocol config) (cfg_compression config) (cfg_codec_format config)
                      (opt_max_message_size options) (opt_element_memory_limit options) deadline)))
           (streaming_http_request ce u config s StServerStream ''call_server_stream'' body options))"

lemma make_server_stream_fresh:
  assumes "make_server_stream ce response p compression codec max_size memory_limit deadline = Ok ss"
  shows "ss_inv ss" "ss_end ss = None" "ss_headers ss = sr_headers response" "ss_body ss = sr_body response"
    "ss_protocol ss = p" "ss_deadline ss = deadline" "ss_frame ss = []" "asm_pend (ss_assembler ss) = []"
    "\<not> ss_saw_body_data ss"
  using assms by (auto simp: make_server_stream_def ss_inv_def Let_def result_bind_Ok_iff split: if_splits)

end
