(* ===== verification/StreamProps.thy ===== *)
theory StreamProps
  imports ClientStream ClientProps
begin

text \<open>
  The client's response stream against the service: what \<^verbatim>\<open>ServerStream::message\<close> reads from any
  response body, and the composition with the body \<^verbatim>\<open>StreamingResponseBody\<close> sends.
\<close>

section \<open>Bodies as the transport carries them\<close>

fun frames_bytes :: "http_frame list \<Rightarrow> bytes" where
  "frames_bytes [] = []"
| "frames_bytes (DataFrame d # fs) = d @ frames_bytes fs"
| "frames_bytes (TrailersFrame t # fs) = frames_bytes fs"

fun frames_trailers :: "http_frame list \<Rightarrow> headers list" where
  "frames_trailers [] = []"
| "frames_trailers (DataFrame d # fs) = frames_trailers fs"
| "frames_trailers (TrailersFrame t # fs) = t # frames_trailers fs"

text \<open>
  A body arrives: the same bytes, cut into frames anywhere and with any waits, then the trailers.
\<close>

definition carried :: "body_script \<Rightarrow> http_frame list \<Rightarrow> bool" where
  "carried script frames \<longleftrightarrow>
     (\<exists>ds. script_items script = map (Ok \<circ> DataFrame) ds @ map (Ok \<circ> TrailersFrame) (frames_trailers frames) \<and>
        concat ds = frames_bytes frames)"

lemma frames_bytes_append: "frames_bytes (a @ b) = frames_bytes a @ frames_bytes b"
  by (induction a rule: frames_bytes.induct) simp_all

lemma frames_trailers_append: "frames_trailers (a @ b) = frames_trailers a @ frames_trailers b"
  by (induction a rule: frames_trailers.induct) simp_all

lemma frames_data [simp]: "frames_bytes (map DataFrame ds) = concat ds" "frames_trailers (map DataFrame ds) = []"
  by (induction ds) simp_all

definition no_timer :: "('o, 'v) client_env \<Rightarrow> bool" where
  "no_timer ce \<longleftrightarrow> (\<forall>d. \<not> ce_timer_fires ce d)"

lemma no_timer_deadline [simp]: "no_timer ce \<Longrightarrow> with_deadline ce deadline r = r"
  by (simp add: no_timer_def with_deadline_def split: option.splits)

lemma script_trailers:
  assumes "no_timer ce" and "script_items script = map (Ok \<circ> TrailersFrame) ts"
  shows "script_body ce p deadline script =
    ([], Ok (if p = Connect \<or> ts = [] then BodyEof else BodyTrailers (hd ts)))"
  using assms
proof (induction script arbitrary: ts)
  case (Cons x script)
  show ?case
  proof (cases x)
    case Pending
    then show ?thesis using Cons.IH [of ts] Cons.prems by simp
  next
    case (Ready item)
    then obtain t ts' where ts: "ts = t # ts'" "item = Ok (TrailersFrame t)" "script_items script = map (Ok \<circ> TrailersFrame) ts'"
      using Cons.prems(2) by (cases ts) auto
    then show ?thesis using Cons.IH [OF Cons.prems(1) ts(3)] Ready by (cases "p = Connect") simp_all
  qed
qed simp

lemma script_body_items:
  assumes "no_timer ce" and "script_items script = map (Ok \<circ> DataFrame) ds @ map (Ok \<circ> TrailersFrame) ts"
  shows "script_body ce p deadline script =
    (concat ds, Ok (if p = Connect \<or> ts = [] then BodyEof else BodyTrailers (hd ts)))"
  using assms
proof (induction script arbitrary: ds)
  case Nil
  then show ?case by simp
next
  case (Cons x script)
  show ?case
  proof (cases x)
    case Pending
    then show ?thesis using Cons by simp
  next
    case (Ready item)
    show ?thesis
    proof (cases ds)
      case Nil
      then show ?thesis using script_trailers [OF Cons.prems(1), of "x # script" ts] Cons.prems(2) by simp
    next
      case (Cons d ds')
      then have "item = Ok (DataFrame d)" "script_items script = map (Ok \<circ> DataFrame) ds' @ map (Ok \<circ> TrailersFrame) ts"
        using Cons.prems(2) Ready by simp_all
      from Cons.IH [OF Cons.prems(1) this(2)] this(1) show ?thesis using Ready \<open>ds = d # ds'\<close> by simp
    qed
  qed
qed

lemma script_body_carried:
  assumes "no_timer ce" and "carried script frames"
  shows "script_body ce p deadline script =
    (frames_bytes frames, Ok (if p = Connect \<or> frames_trailers frames = [] then BodyEof
       else BodyTrailers (hd (frames_trailers frames))))"
proof -
  obtain ds where "script_items script = map (Ok \<circ> DataFrame) ds @ map (Ok \<circ> TrailersFrame) (frames_trailers frames)"
    and "concat ds = frames_bytes frames"
    using assms(2) unfolding carried_def by blast
  with script_body_items [OF assms(1) this(1), of p deadline] show ?thesis by simp
qed

section \<open>Any response body\<close>

text \<open>
  C3. The client's response stream refines contiguous decoding: whatever frames a body arrives
  in and wherever the transport waits, the calls of \<^verbatim>\<open>message()\<close> return, in order, the messages of
  the envelopes that repeated contiguous decoding of the data gives, up to the first envelope,
  size violation, read error, deadline, trailers or end of body that ends the stream; from
  then on every call returns that same outcome.
\<close>

theorem server_stream_reads:
  assumes "make_server_stream ce response p compression codec max_size memory_limit deadline = Ok ss"
    and "script_body ce p deadline (sr_body response) = (bs, t)"
    and "decode_all (spec_decode (ss_max_message_size ss) (web_limit p)) bs = (es, rest)"
    and "seen = ss\<lparr>ss_saw_body_data := bs \<noteq> []\<rparr>"
    and "stream_walk ce seen es (case rest of Err x \<Rightarrow> stream_end_from_error x | Ok _ \<Rightarrow> final_end ce seen t) = (vs, se)"
  shows "read_messages ce n ss = map (Ok \<circ> Some) (take n vs) @
    replicate (n - length vs) (replay (attach_metadata (sr_headers response) se))"
proof -
  note fresh = make_server_stream_fresh [OF assms(1)]
  have "stream_reading ce ss = (vs, se)"
    using assms(2,3,5) fresh unfolding assms(4) by (simp add: stream_reading_def Let_def)
  from read_messages_all [OF fresh(1,2) this] show ?thesis by (simp add: fresh(3))
qed

theorem server_stream_reads_witness:
  "\<exists>ss e. make_server_stream sample_client \<lparr>sr_status = 200, sr_headers = hm_new,
      sr_body = [Ready (Ok (DataFrame [0, 0, 0])), Pending, Ready (Ok (DataFrame [0, 1, 7])), Ready (Err ''reset'')]\<rparr>
      Grpc sample_registry Proto None None None = Ok ss \<and>
    read_messages sample_client 3 ss = [Ok (Some [7]), Err e, Err e] \<and> err_code e = Internal"
proof -
  let ?r = "\<lparr>sr_status = 200, sr_headers = hm_new,
      sr_body = [Ready (Ok (DataFrame [0, 0, 0])), Pending, Ready (Ok (DataFrame [0, 1, 7])), Ready (Err ''reset'')]\<rparr>"
  define x where "x = classify_body_read_error sample_client ''failed to read response body'' ''reset'' None"
  obtain ss where ss: "make_server_stream sample_client ?r Grpc sample_registry Proto None None None = Ok ss"
      "ss_max_message_size ss = DEFAULT_MAX_MESSAGE_SIZE" "ss_codec_format ss = Proto" "ss_protocol ss = Grpc"
    by (simp add: make_server_stream_def check_grpc_response_head_def validate_grpc_response_content_type_def is_success_def
        parse_grpc_error_from_trailers_def Let_def)
  have body: "script_body sample_client Grpc None (sr_body ?r) = ([0, 0, 0, 0, 1, 7], Err x)"
    by (simp add: x_def with_deadline_def)
  have dec: "decode_all (spec_decode (ss_max_message_size ss) (web_limit Grpc)) [0, 0, 0, 0, 1, 7] =
      ([\<lparr>env_flags = 0, env_data = [7]\<rparr>], Ok [])"
    by (simp add: decode_all_def spec_decode_def web_limit_def header_limit_def declared_length_def u32_from_be_bytes_def ss(2)
        DEFAULT_MAX_MESSAGE_SIZE_def)
  have read: "read_envelope sample_client (ss\<lparr>ss_saw_body_data := True\<rparr>) \<lparr>env_flags = 0, env_data = [7]\<rparr> = Ok [7]"
    by (simp add: read_envelope_def read_data_envelope_def decompress_envelope_def is_end_stream_def is_compressed_def ss
        decode_response_view_def sample_client_def)
  have walk: "stream_walk sample_client (ss\<lparr>ss_saw_body_data := [0, 0, 0, 0, 1, 7 :: byte] \<noteq> []\<rparr>) [\<lparr>env_flags = 0, env_data = [7]\<rparr>]
      (case Ok [] of Err y \<Rightarrow> stream_end_from_error y | Ok _ \<Rightarrow> final_end sample_client (ss\<lparr>ss_saw_body_data := [0, 0, 0, 0, 1, 7 :: byte] \<noteq> []\<rparr>) (Err x))
      = ([[7]], stream_end_from_error x)"
    by (simp add: read final_end_def)
  have "read_messages sample_client 3 ss = [Ok (Some [7]), Err (set_response_headers hm_new x), Err (set_response_headers hm_new x)]"
    using server_stream_reads [OF ss(1) body dec refl walk, of 3]
    by (simp add: numeral_eq_Suc replay_def attach_metadata_def stream_end_from_error_def del: read_messages.simps)
  moreover have "err_code (set_response_headers hm_new x) = Internal"
    by (simp add: x_def classify_body_read_error_def deadline_elapsed_def internal_def new_error_def with_source_def set_response_headers_def)
  ultimately show ?thesis using ss(1) by blast
qed

section \<open>Messages from the service's encoder\<close>

text \<open>What a message of the stream needs: it fits, its encoding is removed again, and it decodes.\<close>

definition message_carried ::
    "('o, 'v) client_env \<Rightarrow> compression_registry \<Rightarrow> compression_registry \<Rightarrow> string option \<Rightarrow> usize \<Rightarrow> codec_format \<Rightarrow>
     usize option \<Rightarrow> encoded_body \<Rightarrow> 'v \<Rightarrow> bool" where
  "message_carried ce sender receiver encoding M codec memory_limit body v \<longleftrightarrow>
     length (into_contiguous body) \<le> M \<and>
     (case encoding of
        None \<Rightarrow> True
      | Some enc \<Rightarrow>
          (case registry_compress sender enc (into_contiguous body) of
             Ok c \<Rightarrow> length c \<le> M \<and> registry_decompress_with_limit receiver enc c M = Ok (into_contiguous body)
           | Err _ \<Rightarrow> False)) \<and>
     decode_response_view ce (into_contiguous body) codec memory_limit = Ok v"

abbreviation stream_carries ::
    "('o, 'v) client_env \<Rightarrow> compression_registry \<Rightarrow> string option \<Rightarrow> server_stream \<Rightarrow> encoded_body \<Rightarrow> 'v \<Rightarrow> bool" where
  "stream_carries ce sender encoding ss \<equiv> message_carried ce sender (ss_compression ss) encoding (ss_max_message_size ss)
     (ss_codec_format ss) (ss_element_memory_limit ss)"

lemma plain_flags:
  "flags_DATA AND flags_GRPC_WEB_TRAILER = 0" "flags_COMPRESSED AND flags_GRPC_WEB_TRAILER = 0"
  "flags_DATA AND flags_END_STREAM = 0" "flags_COMPRESSED AND flags_END_STREAM = 0"
  "flags_DATA AND flags_COMPRESSED = 0" "flags_COMPRESSED AND flags_COMPRESSED \<noteq> 0"
  by (simp_all add: flags_defs)

lemma carried_envelope:
  assumes "stream_carries ce sender encoding ss body v" and "ss_encoding ss = encoding" and "ss_max_message_size ss \<le> u32_MAX"
    and "enc = \<lparr>enc_compression = map_option (Pair sender) encoding, enc_policy = policy\<rparr>"
  obtains flag data where "encoder_encode enc (into_contiguous body) [] = Ok (envelope_bytes flag data)"
    "length data \<le> ss_max_message_size ss" "flag AND flags_GRPC_WEB_TRAILER = 0"
    "read_envelope ce ss \<lparr>env_flags = flag, env_data = data\<rparr> = Ok v"
proof -
  let ?m = "into_contiguous body"
  have ok: "length ?m \<le> ss_max_message_size ss" "decode_response_view ce ?m (ss_codec_format ss) (ss_element_memory_limit ss) = Ok v"
    using assms(1) by (simp_all add: message_carried_def)
  have "\<exists>flag data. envelope_of enc ?m = Ok (flag, data) \<and> length data \<le> ss_max_message_size ss \<and>
      (flag = flags_DATA \<or> flag = flags_COMPRESSED) \<and> decompress_envelope ss \<lparr>env_flags = flag, env_data = data\<rparr> = Ok ?m"
  proof (cases "encoding \<noteq> None \<and> should_compress policy (length ?m)")
    case True
    then obtain name where name: "encoding = Some name" by blast
    then obtain c where "registry_compress sender name ?m = Ok c" "length c \<le> ss_max_message_size ss"
        "registry_decompress_with_limit (ss_compression ss) name c (ss_max_message_size ss) = Ok ?m"
      using assms(1) by (auto simp: message_carried_def split: result.splits)
    then show ?thesis
      using True name assms(2,4) plain_flags
      by (intro exI [of _ flags_COMPRESSED] exI [of _ c]) (simp add: envelope_of_def decompress_envelope_def is_compressed_def)
  next
    case False
    then show ?thesis
      using ok(1) assms(4) plain_flags
      by (intro exI [of _ flags_DATA] exI [of _ ?m]) (auto simp: envelope_of_def decompress_envelope_def is_compressed_def split: option.splits)
  qed
  then obtain flag data where e: "envelope_of enc ?m = Ok (flag, data)" "length data \<le> ss_max_message_size ss"
      "flag = flags_DATA \<or> flag = flags_COMPRESSED" "decompress_envelope ss \<lparr>env_flags = flag, env_data = data\<rparr> = Ok ?m" by blast
  have "encoder_encode enc ?m [] = Ok (envelope_bytes flag data)"
    using e(1,2) assms(3) by (simp add: encoder_encode_eq write_envelope_Ok)
  moreover have "flag AND flags_GRPC_WEB_TRAILER = 0" "flag AND flags_END_STREAM = 0" using e(3) plain_flags by auto
  moreover have "read_envelope ce ss \<lparr>env_flags = flag, env_data = data\<rparr> = Ok v"
    using calculation(2,3) e(4) ok(2) by (simp add: read_envelope_def read_data_envelope_def is_end_stream_def)
  ultimately show thesis using that e(2) by blast
qed

lemma carried_messages:
  assumes "list_all2 (stream_carries ce sender (ss_encoding ss) ss) bodies vs" and "ss_max_message_size ss \<le> u32_MAX"
    and "enc = \<lparr>enc_compression = map_option (Pair sender) (ss_encoding ss), enc_policy = policy\<rparr>"
    and "dec = spec_decode (ss_max_message_size ss) T"
  shows "\<exists>w es. stream_spec l enc fin trailers (map Ok bodies @ tail) =
      (w @ fst (stream_spec l enc fin trailers tail), snd (stream_spec l enc fin trailers tail)) \<and>
    (\<forall>rest. decode_all dec (w @ rest) = (es @ fst (decode_all dec rest), snd (decode_all dec rest))) \<and>
    (\<forall>es' f. stream_walk ce ss (es @ es') f = (vs @ fst (stream_walk ce ss es' f), snd (stream_walk ce ss es' f)))"
  using assms(1)
proof (induction bodies vs rule: list_all2_induct)
  case Nil
  then show ?case by (intro exI [of _ "[]"]) simp
next
  case (Cons body bodies v vs)
  from Cons(3) obtain w es where IH: "stream_spec l enc fin trailers (map Ok bodies @ tail) =
      (w @ fst (stream_spec l enc fin trailers tail), snd (stream_spec l enc fin trailers tail))"
    "\<And>rest. decode_all dec (w @ rest) = (es @ fst (decode_all dec rest), snd (decode_all dec rest))"
    "\<And>es' f. stream_walk ce ss (es @ es') f = (vs @ fst (stream_walk ce ss es' f), snd (stream_walk ce ss es' f))" by blast
  obtain flag data where e: "encoder_encode enc (into_contiguous body) [] = Ok (envelope_bytes flag data)"
      "length data \<le> ss_max_message_size ss" "flag AND flags_GRPC_WEB_TRAILER = 0"
      "read_envelope ce ss \<lparr>env_flags = flag, env_data = data\<rparr> = Ok v"
    using carried_envelope [OF Cons(1) refl assms(2,3)] by blast
  have "length data \<le> snd (header_limit (ss_max_message_size ss) T flag)" "length data \<le> u32_MAX"
    using e(2,3) assms(2) by (auto simp: header_limit_def split: option.splits)
  note item = spec_decode_any_envelope [OF this, folded assms(4)]
  have "decode_all dec (envelope_bytes flag data @ r) =
      (\<lparr>env_flags = flag, env_data = data\<rparr> # fst (decode_all dec r), snd (decode_all dec r))" for r
    using item [of r] unfolding assms(4) by (rule envelope_frames.decode_all_item)
  then have "decode_all dec ((envelope_bytes flag data @ w) @ rest) =
      ((\<lparr>env_flags = flag, env_data = data\<rparr> # es) @ fst (decode_all dec rest), snd (decode_all dec rest))" for rest
    using IH(2) [of rest] by simp
  moreover have "stream_walk ce ss ((\<lparr>env_flags = flag, env_data = data\<rparr> # es) @ es') f =
      ((v # vs) @ fst (stream_walk ce ss es' f), snd (stream_walk ce ss es' f))" for es' f
    using e(4) IH(3) [of es' f] by (simp add: case_prod_beta)
  ultimately show ?case
    using e(1) IH(1) by (intro exI [of _ "envelope_bytes flag data @ w"] exI [of _ "\<lparr>env_flags = flag, env_data = data\<rparr> # es"]) simp
qed

section \<open>The end of the service's stream\<close>

text \<open>What the client's JSON reader is to make of the end-of-stream message the server writes.\<close>

definition client_end_stream :: "end_stream_response \<Rightarrow> client_end_stream_response" where
  "client_end_stream es =
     \<lparr>ces_error = map_option (\<lambda>e. \<lparr>ces_code = Some (es_code e), ces_message = es_message e,
        ces_details = (case es_details e of Some ds \<Rightarrow> ds | None \<Rightarrow> [])\<rparr>) (es_error es),
      ces_metadata = es_metadata es\<rparr>"

definition end_stream_json_law :: "('o, 'v) client_env \<Rightarrow> service_libs \<Rightarrow> end_stream_response \<Rightarrow> bool" where
  "end_stream_json_law ce l es \<longleftrightarrow> ce_json_end_stream ce (lib_end_stream_json l es) = Ok (client_end_stream es)"

definition end_stream_of :: "headers \<Rightarrow> connect_error option \<Rightarrow> end_stream_response" where
  "end_stream_of trailers failure =
     (case failure of None \<Rightarrow> end_stream_success trailers | Some e \<Rightarrow> end_stream_failure e trailers)"

definition end_metadata :: "headers \<Rightarrow> connect_error option \<Rightarrow> headers" where
  "end_metadata trailers failure =
     (case failure of None \<Rightarrow> trailers | Some e \<Rightarrow> (if hm_is_empty (err_trailers e) then trailers else err_trailers e))"

text \<open>A stream of messages that ends well or in an error, and how its end must be to be carried.\<close>

definition end_items :: "connect_error option \<Rightarrow> encoded_body connect_result list" where
  "end_items failure = (case failure of None \<Rightarrow> [] | Some e \<Rightarrow> [Err e])"

definition sound_end ::
    "('o, 'v) client_env \<Rightarrow> service_libs \<Rightarrow> protocol \<Rightarrow> usize \<Rightarrow> headers \<Rightarrow> connect_error option \<Rightarrow> bool" where
  "sound_end ce l p M trailers failure \<longleftrightarrow>
     hm_wf trailers \<and>
     (case failure of
        None \<Rightarrow> True
      | Some e \<Rightarrow> err_message e \<noteq> None \<and> hm_wf (err_trailers e) \<and>
          (p = Connect \<or> utf8_valid (as_bytes (the (err_message e))) \<and> length (status_encode (ce_wire ce) e) \<le> u64_MAX \<and>
             list_all (\<lambda>d. utf8_valid (as_bytes (any_type_url (type_url d)))) (err_details e))) \<and>
     (if p = Connect
      then length (lib_end_stream_json l (end_stream_of trailers failure)) \<le> M \<and>
        list_all (metadata_entry_ok (ce_text ce)) (hm_iter (end_metadata trailers failure)) \<and>
        list_all (\<lambda>n. \<not> map_full (ce_text ce) (hm_append_all (take n (hm_iter (end_metadata trailers failure))) hm_new))
          [0..<Suc (length (hm_iter (end_metadata trailers failure)))]
      else trailers_fit (ce_text ce) p (build_grpc_trailers (ce_text ce) (ce_wire ce) failure trailers))"

definition ended_as :: "wire_ops \<Rightarrow> protocol \<Rightarrow> headers \<Rightarrow> connect_error option \<Rightarrow> stream_end \<Rightarrow> bool" where
  "ended_as w p trailers failure se \<longleftrightarrow>
     (case failure of
        None \<Rightarrow> se_outcome se = Ok () \<and>
          (\<forall>k. hm_values (case se_trailers se of Some h \<Rightarrow> h | None \<Rightarrow> hm_new) k =
             (if p \<noteq> Connect \<and> k = ''grpc-status'' then [''0''] else []) @ hm_values trailers k)
      | Some e \<Rightarrow>
          (\<exists>e'. se_outcome se = Err e' \<and> err_code e' = err_code e \<and> err_message e' = err_message e \<and>
             err_details e' = (if p = Connect then err_details e else map (wire_detail w) (err_details e)) \<and>
             (\<forall>k. hm_values (err_trailers e') k =
                (if is_status_trailer k then [] else hm_values (end_metadata trailers failure) k))))"

lemma error_attributes [simp]:
  "err_code (set_response_headers h e) = err_code e" "err_message (set_response_headers h e) = err_message e"
  "err_details (set_response_headers h e) = err_details e" "err_trailers (set_response_headers h e) = err_trailers e"
  "err_code (set_trailers t e) = err_code e" "err_message (set_trailers t e) = err_message e"
  "err_details (set_trailers t e) = err_details e"
  by (simp_all add: set_response_headers_def set_trailers_def err_trailers_def)

lemma attach_metadata_ended:
  assumes "se_outcome se = Err e"
  shows "attach_metadata h se = se\<lparr>se_outcome := Err (case se_trailers se of
      Some trailers \<Rightarrow> set_trailers (error_metadata_from_trailers trailers) (set_response_headers h e)
    | None \<Rightarrow> set_response_headers h e)\<rparr>"
  using assms by (simp add: attach_metadata_def Let_def)

lemma grpc_end_read:
  assumes "text_laws (ce_text ce) (ce_wire ce)" and "wire_laws (ce_wire ce)" and "p \<noteq> Connect"
    and "sound_end ce l p M trailers failure"
  shows "ended_as (ce_wire ce) p trailers failure (attach_metadata h (classify_grpc_end ce ss
    (Some (build_grpc_trailers (ce_text ce) (ce_wire ce) failure trailers))))"
proof (cases failure)
  case None
  let ?t = "build_grpc_trailers (ce_text ce) (ce_wire ce) None trailers"
  have wf: "hm_wf trailers" using assms(4) by (simp add: sound_end_def)
  have "hm_contains ?t ''grpc-status''" by (simp add: hm_contains_def success_trailers [OF wf])
  then have "classify_grpc_end ce ss (Some ?t) = \<lparr>se_outcome = Ok (), se_trailers = Some ?t\<rparr>"
    by (simp add: classify_grpc_end_def grpc_success_parsed)
  then show ?thesis
    using assms(3) by (simp add: None ended_as_def attach_metadata_def success_trailers [OF wf])
next
  case (Some e)
  let ?t = "build_grpc_trailers (ce_text ce) (ce_wire ce) (Some e) trailers"
  obtain m where m: "err_message e = Some m" using assms(4) Some by (auto simp: sound_end_def)
  obtain e' where e': "parse_grpc_error_from_trailers (ce_text ce) (ce_wire ce) ?t = Some e'"
      "err_code e' = err_code e" "err_message e' = Some m" "err_details e' = map (wire_detail (ce_wire ce)) (err_details e)"
      "\<forall>k. hm_values (err_trailers e') k = (if is_status_trailer k then []
         else hm_values (if hm_is_empty (err_trailers e) then trailers else err_trailers e) k)"
    using grpc_error_survives [OF assms(1,2), of e m trailers] assms(3,4) Some m by (auto simp: sound_end_def list_all_iff)
  have "classify_grpc_end ce ss (Some ?t) = \<lparr>se_outcome = Err e', se_trailers = Some ?t\<rparr>"
    by (simp add: classify_grpc_end_def e'(1))
  then show ?thesis
    using assms(1,3,4) e'(2-4) m built_error_metadata [of "ce_text ce" "ce_wire ce" e m trailers]
    by (simp add: Some ended_as_def attach_metadata_ended end_metadata_def sound_end_def)
qed

lemma end_stream_of_eq:
  "es_metadata (end_stream_of trailers failure) = metadata_from_trailers (end_metadata trailers failure)"
  "es_error (end_stream_of trailers failure) = map_option (\<lambda>e. \<lparr>es_code = as_str (err_code e), es_message = err_message e,
     es_details = (if err_details e = [] then None else Some (err_details e))\<rparr>) failure"
  by (simp_all add: end_stream_of_def end_metadata_def end_stream_success_def end_stream_failure_def Let_def split: option.splits)

lemma connect_end_read:
  assumes "end_stream_json_law ce l (end_stream_of trailers failure)" and "sound_end ce l Connect M trailers failure"
  shows "ended_as (ce_wire ce) Connect trailers failure (attach_metadata h (process_end_stream ce ss
    \<lparr>env_flags = flags_END_STREAM, env_data = lib_end_stream_json l (end_stream_of trailers failure)\<rparr>))"
proof -
  let ?es = "end_stream_of trailers failure" and ?md = "end_metadata trailers failure"
  have wf: "hm_wf ?md" using assms(2) by (auto simp: sound_end_def end_metadata_def split: option.splits)
  have md: "append_metadata_capped (ce_text ce) hm_new (headers_to_metadata ?md) = ?md"
    using assms(2) wf by (intro metadata_survives) (auto simp: sound_end_def list_all_iff)
  have "result_bind (decompress_envelope ss \<lparr>env_flags = flags_END_STREAM, env_data = lib_end_stream_json l ?es\<rparr>)
      (parse_connect_end_stream ce) = Ok (client_end_stream ?es)"
    using assms(1) by (simp add: decompress_envelope_def is_compressed_def flags_defs parse_connect_end_stream_def end_stream_json_law_def)
  then have p: "process_end_stream ce ss \<lparr>env_flags = flags_END_STREAM, env_data = lib_end_stream_json l ?es\<rparr> =
      \<lparr>se_outcome = (case failure of None \<Rightarrow> Ok () | Some e \<Rightarrow>
         Err ((new_error (err_code e) (case err_message e of Some m \<Rightarrow> m | None \<Rightarrow> []))\<lparr>err_details := err_details e\<rparr>)),
       se_trailers = (if hm_is_empty ?md then None else Some ?md)\<rparr>"
    using md by (cases failure) (auto simp: process_end_stream_def client_end_stream_def end_stream_of_eq
        end_stream_error_to_connect_error_def metadata_from_trailers_def code_names.dec_enc)
  show ?thesis
  proof (cases failure)
    case None
    show ?thesis
      unfolding p by (auto simp: None ended_as_def attach_metadata_def end_metadata_def hm_is_empty_def hm_new_def)
  next
    case (Some e)
    then obtain m where m: "err_message e = Some m" using assms(2) by (auto simp: sound_end_def)
    have fresh: "err_code ((new_error c m)\<lparr>err_details := ds\<rparr>) = c" "err_message ((new_error c m)\<lparr>err_details := ds\<rparr>) = Some m"
        "err_trailers ((new_error c m)\<lparr>err_details := ds\<rparr>) = hm_new" "hm_values hm_new k = []" "hm_values [] k = []" for c m ds k
      by (simp_all add: new_error_def err_trailers_def hm_values_def hm_new_def)
    show ?thesis
      unfolding p using m wf
      by (auto simp: Some ended_as_def attach_metadata_ended error_metadata_values fresh hm_is_empty_def)
  qed
qed

text \<open>The final frame on its own, in each protocol.\<close>

lemma final_frame_read:
  assumes "text_laws (ce_text ce) (ce_wire ce)" and "wire_laws (ce_wire ce)" and "end_stream_json_law ce l (end_stream_of trailers failure)"
    and "lib_text l = ce_text ce" and "lib_wire l = ce_wire ce" and "ss_protocol ss = p" and "ss_max_message_size ss \<le> u32_MAX"
    and "sound_end ce l p (ss_max_message_size ss) trailers failure"
    and "f = snd (stream_spec l enc (finalizer_for p) trailers (end_items failure))"
    and "dec = spec_decode (ss_max_message_size ss) (web_limit p)"
    and "t = Ok (if p = Connect \<or> frames_trailers [f] = [] then BodyEof else BodyTrailers (hd (frames_trailers [f])))"
  shows "\<exists>es w se. decode_all dec (frames_bytes [f]) = (es, Ok w) \<and> stream_walk ce ss es (final_end ce ss t) = ([], se) \<and>
    ended_as (ce_wire ce) p trailers failure (attach_metadata h se)"
proof -
  let ?b = "build_grpc_trailers (ce_text ce) (ce_wire ce) failure trailers"
  have nil: "decode_all dec [] = ([], Ok [])"
    unfolding assms(10) by (rule envelope_frames.decode_all_more) (simp add: spec_decode_def)
  have single: "decode_all dec (envelope_bytes flag data) = ([\<lparr>env_flags = flag, env_data = data\<rparr>], Ok [])"
    if "length data \<le> snd (header_limit (ss_max_message_size ss) (web_limit p) flag)" "length data \<le> u32_MAX" for flag data
    using envelope_frames.decode_all_item [OF spec_decode_any_envelope [OF that, of "[]"]] nil unfolding assms(10) by simp
  show ?thesis
  proof (cases p)
    case Connect
    let ?j = "lib_end_stream_json l (end_stream_of trailers failure)"
    have j: "length ?j \<le> ss_max_message_size ss" using assms(8) Connect by (simp add: sound_end_def)
    have "f = DataFrame (envelope_bytes flags_END_STREAM ?j)"
      using assms(7,9) j Connect by (cases failure) (simp_all add: end_items_def finalizer_success_def finalizer_error_def
          end_stream_frame_def encode_end_stream_def write_envelope_Ok end_stream_of_def)
    moreover have "read_envelope ce ss \<lparr>env_flags = flags_END_STREAM, env_data = d\<rparr> =
        Err (process_end_stream ce ss \<lparr>env_flags = flags_END_STREAM, env_data = d\<rparr>)" for d
      using assms(6) Connect by (simp add: read_envelope_def is_end_stream_def flags_defs)
    ultimately show ?thesis
      using single [of ?j flags_END_STREAM] j assms(7,8) connect_end_read [OF assms(3)] Connect
      by (simp add: web_limit_def header_limit_def)
  next
    case Grpc
    then have f: "f = TrailersFrame ?b"
      using assms(4,5,9) by (cases failure) (simp_all add: end_items_def finalizer_success_def finalizer_error_def)
    then show ?thesis
      using Grpc nil assms(11) grpc_end_read [OF assms(1,2) _ assms(8)] by (simp add: final_end_def)
  next
    case GrpcWeb
    let ?payload = "as_bytes (concat (map trailer_line (hm_iter ?b)))"
    have f: "f = DataFrame (envelope_bytes flags_GRPC_WEB_TRAILER ?payload)"
      using assms(4,5,9) GrpcWeb
      by (cases failure) (simp_all add: end_items_def finalizer_success_def finalizer_error_def encode_web_envelope)
    have fit: "trailers_fit (ce_text ce) GrpcWeb ?b" using assms(8) GrpcWeb by (simp add: sound_end_def)
    have len: "length ?payload \<le> MAX_GRPC_WEB_TRAILER_SIZE" "length ?payload \<le> u32_MAX"
      using trailers_fit_web(2) [OF fit] by (simp_all add: RESPONSE_BUFFER_TRAILER_SLACK_def MAX_GRPC_WEB_TRAILER_SIZE_def u32_MAX_def)
    have lim: "snd (header_limit M (web_limit GrpcWeb) flags_GRPC_WEB_TRAILER) = MAX_GRPC_WEB_TRAILER_SIZE" for M
      by (simp add: header_limit_def web_limit_def flags_defs)
    have "parse_grpc_web_trailer_payload (ce_text ce) False ?payload d = Some ?b" for d
      using fit by (intro web_payload_survives) (auto simp: trailers_fit_def list_all_iff)
    then have "read_envelope ce ss \<lparr>env_flags = flags_GRPC_WEB_TRAILER, env_data = ?payload\<rparr> = Err (classify_grpc_end ce ss (Some ?b))"
      using assms(6) GrpcWeb by (simp add: read_envelope_def is_compressed_def flags_defs)
    moreover have "decode_all dec (frames_bytes [f]) = ([\<lparr>env_flags = flags_GRPC_WEB_TRAILER, env_data = ?payload\<rparr>], Ok [])"
      using single [of ?payload flags_GRPC_WEB_TRAILER] len GrpcWeb by (simp add: f lim)
    ultimately show ?thesis
      using GrpcWeb grpc_end_read [OF assms(1,2) _ assms(8)] by simp
  qed
qed

section \<open>The head of a streaming response\<close>

lemma stream_head_get:
  assumes "hm_wf extra"
  shows "hm_get (streaming_head reg p codec encoding extra) ''content-type'' = Some (response_content_type p codec True)"
    and "hm_get (streaming_head reg p codec encoding extra) (content_encoding_header p) =
      option_or encoding (hm_get extra (content_encoding_header p))"
    and "k \<noteq> ''content-type'' \<Longrightarrow> k \<noteq> content_encoding_header p \<Longrightarrow> k \<noteq> accept_encoding_header_name p \<Longrightarrow>
      hm_get (streaming_head reg p codec encoding extra) k = hm_get extra k"
proof -
  have names: "content_encoding_header p \<noteq> ''content-type''" "accept_encoding_header_name p \<noteq> ''content-type''"
      "accept_encoding_header_name p \<noteq> content_encoding_header p"
    by (cases p; simp)+
  note get = response_head_get [OF names, of "response_content_type p codec True" encoding reg]
  show "hm_get (streaming_head reg p codec encoding extra) ''content-type'' = Some (response_content_type p codec True)"
    "hm_get (streaming_head reg p codec encoding extra) (content_encoding_header p) =
      option_or encoding (hm_get extra (content_encoding_header p))"
    using get by (simp_all add: streaming_head_def hm_get_append_headers [OF assms])
  show "hm_get (streaming_head reg p codec encoding extra) k = hm_get extra k"
    if "k \<noteq> ''content-type''" "k \<noteq> content_encoding_header p" "k \<noteq> accept_encoding_header_name p"
  proof -
    have "hm_get (response_head (response_content_type p codec True) (content_encoding_header p) encoding
        (accept_encoding_header_name p) reg) k = None"
      using that by (auto simp: response_head_def Let_def split: option.splits)
    then show ?thesis by (simp add: streaming_head_def hm_get_append_headers [OF assms])
  qed
qed

lemma connect_type_accepted:
  assumes "hm_get h ''content-type'' = Some (response_content_type Connect codec True)"
  shows "validate_connect_response_content_type h codec True = Ok ()"
proof -
  let ?ct = "response_content_type Connect codec True"
  have v: "list_all visible_char ?ct \<and> CHR '';'' \<notin> set ?ct \<and> ?ct \<noteq> []"
    by (cases codec) (simp_all add: visible_char_def)
  then have "header_to_str ?ct = Some ?ct"
    by (auto simp: header_to_str_def list_all_iff visible_char_def)
  moreover have "normalized_type ?ct = ?ct"
    using v by (auto simp: normalized_type_def split_once_def list_all_iff intro: str_trim_visible)
  ultimately show ?thesis using assms by (simp add: validate_connect_response_content_type_def Let_def)
qed

lemma stream_opened:
  assumes "hm_wf extra" and "hm_get extra (content_encoding_header p) = None" and "hm_get extra ''grpc-status'' = None"
    and "\<forall>enc. encoding = Some enc \<longrightarrow> is_http_token enc"
    and "response = \<lparr>sr_status = 200, sr_headers = streaming_head reg p codec encoding extra, sr_body = body\<rparr>"
  obtains ss where "make_server_stream ce response p compression codec max_size memory_limit deadline = Ok ss"
    "ss_encoding ss = encoding" "ss_compression ss = compression" "ss_codec_format ss = codec"
    "ss_element_memory_limit ss = memory_limit" "ss_protocol ss = p"
    "ss_max_message_size ss = (case max_size of Some n \<Rightarrow> n | None \<Rightarrow> DEFAULT_MAX_MESSAGE_SIZE)"
proof -
  let ?h = "streaming_head reg p codec encoding extra"
  note get = stream_head_get [OF assms(1), where reg = reg and p = p and codec = codec and encoding = encoding]
  have enc: "hm_get_str ?h (content_encoding_header p) = encoding"
    using get(2) assms(2,4) token_header_to_str by (cases encoding) (auto simp: hm_get_str_def)
  have status: "hm_get ?h GRPC_STATUS = None"
    using get(3) [where k = "''grpc-status''"] assms(3) by (cases p) (simp_all add: GRPC_STATUS_def)
  have "parse_grpc_error_from_trailers (ce_text ce) (ce_wire ce) ?h = None"
    by (simp add: parse_grpc_error_from_trailers_def status)
  moreover have "p \<noteq> Connect \<Longrightarrow> check_grpc_response_head 200 ?h p codec = Ok ()" using get(1) by (rule grpc_head_accepted [rotated])
  moreover have "p = Connect \<Longrightarrow> validate_connect_response_content_type ?h codec True = Ok ()"
    using get(1) by (simp add: connect_type_accepted)
  ultimately have "\<exists>ss. make_server_stream ce response p compression codec max_size memory_limit deadline = Ok ss \<and>
      ss_encoding ss = encoding \<and> ss_compression ss = compression \<and> ss_codec_format ss = codec \<and>
      ss_element_memory_limit ss = memory_limit \<and> ss_protocol ss = p \<and>
      ss_max_message_size ss = (case max_size of Some n \<Rightarrow> n | None \<Rightarrow> DEFAULT_MAX_MESSAGE_SIZE)"
    using enc assms(5) by (cases "p = Connect") (simp_all add: make_server_stream_def is_success_def Let_def)
  then show thesis using that by blast
qed

section \<open>A response stream from the handler to the caller\<close>

lemma service_body_read:
  assumes "text_laws (ce_text ce) (ce_wire ce)" and "wire_laws (ce_wire ce)" and "end_stream_json_law ce l (end_stream_of trailers failure)"
    and "lib_text l = ce_text ce" and "lib_wire l = ce_wire ce" and "no_timer ce"
    and "make_server_stream ce response p receiver codec max_size memory_limit deadline = Ok ss"
    and "ss_max_message_size ss \<le> u32_MAX"
    and "list_all2 (stream_carries ce sender (ss_encoding ss) ss) bodies vs"
    and "sound_end ce l p (ss_max_message_size ss) trailers failure"
    and "(w, f) = stream_spec l \<lparr>enc_compression = map_option (Pair sender) (ss_encoding ss), enc_policy = policy\<rparr>
      (finalizer_for p) trailers (map Ok bodies @ end_items failure)"
    and "carried (sr_body response) (map DataFrame ds @ [f])" and "concat ds = w"
  shows "\<exists>se. stream_reading ce ss = (vs, se) \<and>
    ended_as (ce_wire ce) p trailers failure (attach_metadata (sr_headers response) se)"
proof -
  let ?enc = "\<lparr>enc_compression = map_option (Pair sender) (ss_encoding ss), enc_policy = policy\<rparr>"
  let ?dec = "spec_decode (ss_max_message_size ss) (web_limit p)" and ?tail = "stream_spec l ?enc (finalizer_for p) trailers (end_items failure)"
  let ?t = "Ok (if p = Connect \<or> frames_trailers [f] = [] then BodyEof else BodyTrailers (hd (frames_trailers [f])))"
  note fresh = make_server_stream_fresh [OF assms(7)]
  let ?bs = "w @ frames_bytes [f]" and ?ss = "ss\<lparr>ss_saw_body_data := w @ frames_bytes [f] \<noteq> []\<rparr>"
  have carries: "list_all2 (stream_carries ce sender (ss_encoding ?ss) ?ss) bodies vs" "ss_max_message_size ?ss \<le> u32_MAX"
    using assms(8,9) by simp_all
  have tail: "fst ?tail = []" by (simp add: end_items_def split: option.splits)
  obtain es where m: "snd ?tail = f"
      "\<And>rest. decode_all ?dec (w @ rest) = (es @ fst (decode_all ?dec rest), snd (decode_all ?dec rest))"
      "\<And>es' g. stream_walk ce ?ss (es @ es') g = (vs @ fst (stream_walk ce ?ss es' g), snd (stream_walk ce ?ss es' g))"
    using carried_messages [OF carries, of ?enc policy ?dec "web_limit p" l "finalizer_for p" trailers "end_items failure"]
      assms(11) tail by auto
  have sound: "sound_end ce l p (ss_max_message_size ?ss) trailers failure" "ss_protocol ?ss = p"
      "?dec = spec_decode (ss_max_message_size ?ss) (web_limit p)"
    using assms(10) fresh(5) by simp_all
  obtain es' r se where fin: "decode_all ?dec (frames_bytes [f]) = (es', Ok r)"
      "stream_walk ce ?ss es' (final_end ce ?ss ?t) = ([], se)"
      "ended_as (ce_wire ce) p trailers failure (attach_metadata (sr_headers response) se)"
    using final_frame_read [OF assms(1-5) sound(2) carries(2) sound(1) m(1) [symmetric] sound(3) refl, of "sr_headers response"] by blast
  have "script_body ce p deadline (sr_body response) = (?bs, ?t)"
    using script_body_carried [OF assms(6,12)] assms(13) by (simp add: frames_bytes_append frames_trailers_append)
  then have "stream_reading ce ss = (vs, se)"
    using m(2) [of "frames_bytes [f]"] m(3) [of es' "final_end ce ?ss ?t"] fin(1,2) fresh
    by (simp add: stream_reading_def Let_def)
  then show ?thesis using fin(3) by blast
qed

text \<open>
  C2. A server stream end to end, in every protocol: whatever a handler's stream yields, however
  often it is not ready, and however the transport cuts the response, the client opens the
  stream and its \<^verbatim>\<open>message()\<close> calls return exactly the handler's messages in order, each decoded,
  then the end the handler gave: a clean end with the handler's trailers, or its error with
  the code, message, details and trailing metadata; every further call repeats that end.
\<close>

theorem server_stream_end_to_end:
  assumes "text_laws (ce_text ce) (ce_wire ce)" and "wire_laws (ce_wire ce)" and "end_stream_json_law ce l (end_stream_of trailers failure)"
    and "lib_text l = ce_text ce" and "lib_wire l = ce_wire ce" and "no_timer ce"
    and "\<forall>enc. encoding = Some enc \<longrightarrow> is_http_token enc"
    and "hm_wf extra" and "hm_get extra (content_encoding_header p) = None" and "hm_get extra ''grpc-status'' = None"
    and "M = (case max_size of Some n \<Rightarrow> n | None \<Rightarrow> DEFAULT_MAX_MESSAGE_SIZE)" and "M \<le> u32_MAX"
    and "list_all2 (message_carried ce sender receiver encoding M codec memory_limit) bodies vs"
    and "sound_end ce l p M trailers failure"
    and "script_items source = map Ok bodies @ end_items failure"
  shows "\<exists>N. \<forall>k body.
    carried body (delivered (poll_run (batching_poll_next l script_poll) (N + k)
      (streaming_body_new source trailers p (map_option (Pair sender) encoding) policy))) \<longrightarrow>
    (\<exists>ss se. make_server_stream ce \<lparr>sr_status = 200, sr_headers = streaming_head sender p codec encoding extra, sr_body = body\<rparr>
        p receiver codec max_size memory_limit deadline = Ok ss \<and>
      ended_as (ce_wire ce) p trailers failure se \<and>
      (\<forall>n. read_messages ce n ss = map (Ok \<circ> Some) (take n vs) @ replicate (n - length vs) (replay se)) \<and>
      (\<forall>n > length vs. ss_end (stream_after ce n ss) = Some se))"
proof -
  let ?spec = "stream_spec l \<lparr>enc_compression = map_option (Pair sender) encoding, enc_policy = policy\<rparr>
      (finalizer_for p) trailers (script_items source)"
  let ?frames = "\<lambda>n. delivered (poll_run (batching_poll_next l script_poll) n
      (streaming_body_new source trailers p (map_option (Pair sender) encoding) policy))"
  obtain N where N: "\<forall>k. \<exists>ds. ?frames (N + k) = map DataFrame ds @ [snd ?spec] \<and> concat ds = fst ?spec"
    using streaming_body_delivered by blast
  have "\<exists>ss se. make_server_stream ce response p receiver codec max_size memory_limit deadline = Ok ss \<and>
      ended_as (ce_wire ce) p trailers failure se \<and>
      (\<forall>n. read_messages ce n ss = map (Ok \<circ> Some) (take n vs) @ replicate (n - length vs) (replay se)) \<and>
      (\<forall>n > length vs. ss_end (stream_after ce n ss) = Some se)"
    if c: "carried body (?frames (N + k))"
      and r: "response = \<lparr>sr_status = 200, sr_headers = streaming_head sender p codec encoding extra, sr_body = body\<rparr>" for k body response
  proof -
    from N obtain ds where ds: "?frames (N + k) = map DataFrame ds @ [snd ?spec]" "concat ds = fst ?spec" by blast
    obtain ss where ss: "make_server_stream ce response p receiver codec max_size memory_limit deadline = Ok ss"
        "ss_encoding ss = encoding" "ss_compression ss = receiver" "ss_codec_format ss = codec"
        "ss_element_memory_limit ss = memory_limit" "ss_max_message_size ss = M"
      using stream_opened [OF assms(8-10,7) r] assms(11) by metis
    note fresh = make_server_stream_fresh [OF ss(1)]
    obtain se where se: "stream_reading ce ss = (vs, se)"
        "ended_as (ce_wire ce) p trailers failure (attach_metadata (sr_headers response) se)"
      using service_body_read [OF assms(1-6) ss(1), of sender bodies vs "fst ?spec" "snd ?spec" policy ds]
        assms(12-15) ss(2-6) ds c by (auto simp: r)
    then show ?thesis
      using read_messages_all [OF fresh(1,2) se(1)] stream_after_all [OF fresh(1,2) se(1)] ss(1) fresh(3) by auto
  qed
  then show ?thesis by blast
qed

text \<open>A Connect stream of two messages that fails, over a transport that hands on its frames.\<close>

definition stream_libs :: service_libs where
  "stream_libs = \<lparr>lib_text = sample_text_escape, lib_wire = sample_wire_text,
     lib_end_stream_json = (\<lambda>es. case es_error es of Some e \<Rightarrow> as_bytes (es_code e) | None \<Rightarrow> []), lib_error_json = (\<lambda>_. [])\<rparr>"

definition stream_client :: "(unit, bytes) client_env" where
  "stream_client = sample_client\<lparr>ce_json_end_stream := (\<lambda>b. Ok \<lparr>ces_error = Some \<lparr>ces_code = Some (from_bytes b),
     ces_message = Some ''gone'', ces_details = []\<rparr>, ces_metadata = None\<rparr>)\<rparr>"

lemma carried_self: "carried (map (Ready \<circ> Ok) (map DataFrame ds @ [f])) (map DataFrame ds @ [f])"
proof -
  have items: "script_items (map (Ready \<circ> Ok) xs) = map Ok xs" for xs :: "http_frame list" by (induction xs) simp_all
  show ?thesis
  proof (cases f)
    case (DataFrame d)
    then show ?thesis
      unfolding carried_def items by (intro exI [of _ "ds @ [d]"]) (simp add: frames_bytes_append frames_trailers_append)
  next
    case (TrailersFrame t)
    then show ?thesis
      unfolding carried_def items by (intro exI [of _ ds]) (simp add: frames_bytes_append frames_trailers_append)
  qed
qed

theorem server_stream_end_to_end_witness:
  "\<exists>n script ss e. carried script (delivered (poll_run (batching_poll_next stream_libs script_poll) n
      (streaming_body_new [Pending, Ready (Ok (Contiguous [1, 2])), Ready (Ok (Contiguous [])), Ready (Err (not_found ''gone''))]
        hm_new Connect None policy_default))) \<and>
    make_server_stream stream_client \<lparr>sr_status = 200, sr_headers = streaming_head sample_registry Connect Proto None hm_new,
      sr_body = script\<rparr> Connect sample_registry Proto None None None = Ok ss \<and>
    read_messages stream_client 4 ss = [Ok (Some [1, 2]), Ok (Some []), Err e, Err e] \<and> err_code e = NotFound"
proof -
  let ?e = "not_found ''gone''" and ?ce = stream_client and ?l = stream_libs
  let ?source = "[Pending, Ready (Ok (Contiguous [1, 2])), Ready (Ok (Contiguous [])), Ready (Err ?e)]"
  have laws: "text_laws (ce_text ?ce) (ce_wire ?ce)" "wire_laws (ce_wire ?ce)" "lib_text ?l = ce_text ?ce" "lib_wire ?l = ce_wire ?ce"
    using sample_laws by (simp_all add: stream_client_def sample_client_def stream_libs_def)
  have e: "err_code ?e = NotFound" "err_message ?e = Some ''gone''" "err_details ?e = []" "err_trailers ?e = hm_new"
    by (simp_all add: not_found_def new_error_def err_trailers_def)
  have es: "end_stream_of hm_new (Some ?e) = \<lparr>es_error = Some \<lparr>es_code = ''not_found'', es_message = Some ''gone'', es_details = None\<rparr>, es_metadata = None\<rparr>"
    by (simp add: end_stream_of_def end_stream_failure_def e metadata_from_trailers_def hm_is_empty_def hm_new_def)
  have json: "end_stream_json_law ?ce ?l (end_stream_of hm_new (Some ?e))"
    by (simp add: end_stream_json_law_def es stream_libs_def stream_client_def client_end_stream_def)
  have timer: "no_timer ?ce" by (simp add: no_timer_def stream_client_def sample_client_def)
  have carried: "list_all2 (message_carried ?ce sample_registry sample_registry None DEFAULT_MAX_MESSAGE_SIZE Proto None)
      [Contiguous [1, 2], Contiguous []] [[1, 2], []]"
    by (simp add: message_carried_def decode_response_view_def stream_client_def sample_client_def DEFAULT_MAX_MESSAGE_SIZE_def)
  have sound: "sound_end ?ce ?l Connect DEFAULT_MAX_MESSAGE_SIZE hm_new (Some ?e)"
    by (simp add: sound_end_def e es es [unfolded hm_new_def] end_metadata_def hm_is_empty_def hm_new_def hm_wf_def hm_iter_def hm_append_all_def stream_libs_def
        DEFAULT_MAX_MESSAGE_SIZE_def as_bytes_def stream_client_def sample_client_def sample_text_escape_def sample_text_def)
  obtain N where N: "\<And>k body. carried body (delivered (poll_run (batching_poll_next ?l script_poll) (N + k)
        (streaming_body_new ?source hm_new Connect None policy_default))) \<Longrightarrow>
      \<exists>ss se. make_server_stream ?ce \<lparr>sr_status = 200, sr_headers = streaming_head sample_registry Connect Proto None hm_new, sr_body = body\<rparr>
          Connect sample_registry Proto None None None = Ok ss \<and> ended_as (ce_wire ?ce) Connect hm_new (Some ?e) se \<and>
        (\<forall>n. read_messages ?ce n ss = map (Ok \<circ> Some) (take n [[1, 2], []]) @ replicate (n - length [[1, 2], []]) (replay se))"
    using server_stream_end_to_end [OF laws(1,2) json laws(3,4) timer, of None hm_new Connect DEFAULT_MAX_MESSAGE_SIZE None sample_registry
        sample_registry Proto None "[Contiguous [1, 2], Contiguous []]" "[[1, 2], []]" ?source policy_default None] carried sound
    by (simp add: end_items_def DEFAULT_MAX_MESSAGE_SIZE_def u32_MAX_def) blast
  obtain K ds f where K: "delivered (poll_run (batching_poll_next ?l script_poll) (N + K)
      (streaming_body_new ?source hm_new Connect None policy_default)) = map DataFrame ds @ [f]"
    using streaming_body_delivered [of ?l ?source hm_new Connect None policy_default] by (metis add.commute)
  obtain ss se where ss: "make_server_stream ?ce \<lparr>sr_status = 200, sr_headers = streaming_head sample_registry Connect Proto None hm_new,
        sr_body = map (Ready \<circ> Ok) (map DataFrame ds @ [f])\<rparr> Connect sample_registry Proto None None None = Ok ss"
      "ended_as (ce_wire ?ce) Connect hm_new (Some ?e) se"
      "\<forall>n. read_messages ?ce n ss = map (Ok \<circ> Some) (take n [[1, 2], []]) @ replicate (n - length [[1, 2], []]) (replay se)"
    using N [of "map (Ready \<circ> Ok) (map DataFrame ds @ [f])" K] K carried_self [of ds f] by auto
  then obtain e' where e': "replay se = (Err e' :: bytes option connect_result)" "err_code e' = NotFound"
    by (auto simp: ended_as_def replay_def e(1))
  have "read_messages ?ce 4 ss = [Ok (Some [1, 2]), Ok (Some []), Err e', Err e']"
    using ss(3) [rule_format, of 4] e'(1) by (simp add: numeral_eq_Suc del: read_messages.simps)
  then show ?thesis using K carried_self [of ds f] ss(1) e'(2) by metis
qed

section \<open>A rejected streaming call\<close>

lemma echo_wf: "hm_wf response \<Longrightarrow> hm_wf (echo_error_headers response err)"
proof -
  have "hm_wf (fold (\<lambda>(key, value) response. if is_unforwardable_header key \<or> key \<in> ks then response
      else hm_append key value response) kvs h)" if "hm_wf h" for kvs h ks
    using that by (induction kvs arbitrary: h) (auto simp: hm_wf_append)
  then show "hm_wf response \<Longrightarrow> hm_wf (echo_error_headers response err)" by (simp add: echo_error_headers_def)
qed

lemma grpc_rejection_head:
  assumes "text_laws t w" and "lib_text (env_libs env) = t" and "err_message e = Some m"
  shows "hm_get (trailers_only_head env e Grpc codec) GRPC_STATUS = Some (show_nat (unat (grpc_code (err_code e))))"
    and "hm_get (trailers_only_head env e Grpc codec) GRPC_MESSAGE = Some (percent_encode t m)"
    and "hm_get (trailers_only_head env e Grpc codec) GRPC_STATUS_DETAILS_BIN = None"
    and "hm_wf (trailers_only_head env e Grpc codec)"
proof -
  define h where "h = hm_append GRPC_MESSAGE (percent_encode t m)
    (hm_append GRPC_STATUS (show_nat (unat (grpc_code (err_code e)))) (hm_append ''content-type'' (response_content_type Grpc codec True) hm_new))"
  have eq: "trailers_only_head env e Grpc codec = echo_error_headers h e"
    using assms by (simp add: trailers_only_head_def h_def text_laws_def grpc_percent_encode_def Let_def)
  have get: "hm_get h GRPC_STATUS = Some (show_nat (unat (grpc_code (err_code e))))" "hm_get h GRPC_MESSAGE = Some (percent_encode t m)"
      "hm_get h GRPC_STATUS_DETAILS_BIN = None"
    by (simp_all add: h_def hm_get_append_same grpc_header_defs)
  then show "hm_get (trailers_only_head env e Grpc codec) GRPC_STATUS = Some (show_nat (unat (grpc_code (err_code e))))"
    "hm_get (trailers_only_head env e Grpc codec) GRPC_MESSAGE = Some (percent_encode t m)"
    "hm_get (trailers_only_head env e Grpc codec) GRPC_STATUS_DETAILS_BIN = None"
    unfolding eq by (simp_all add: echo_keeps_get is_unforwardable_header_def GRPC_STATUS_DETAILS_BIN_def)
  show "hm_wf (trailers_only_head env e Grpc codec)"
    unfolding eq h_def by (intro echo_wf inv_intros)
qed

lemma status_code_parsed:
  "Option.bind (header_to_str (show_nat (unat (grpc_code c)))) parse_u32 = Some (grpc_code c)"
  "from_grpc_code (grpc_code c) = Some c" "grpc_code c \<noteq> 0"
  using parse_u32_show [OF unat_u32_le, of "grpc_code c"]
  by (simp_all add: header_to_str_show_nat grpc_codes.dec_enc) (cases c; simp)

text \<open>
  C28. A plain gRPC server that rejects a streaming call sends its error twice, in the head and
  complete in the trailers frame. The client takes the one in the head: it reports the code
  and message, but never the error's details, and as trailing metadata the response's own
  headers (its content type among them) instead of the error's.
\<close>

theorem rejected_grpc_stream_read:
  assumes "text_laws (ce_text ce) (ce_wire ce)" and "lib_text (env_libs env) = ce_text ce"
    and "env_build_error env (trailers_only_head env e Grpc codec) = None"
    and "err_message e = Some m" and "utf8_valid (as_bytes m)"
  shows "\<exists>h e'. streaming_error_response env e Grpc codec =
      Some \<lparr>hr_status = 200, hr_headers = h, hr_body = OnceFrame (TrailersFrame (error_trailers env e))\<rparr> \<and>
    make_server_stream ce \<lparr>sr_status = 200, sr_headers = h, sr_body = body\<rparr> Grpc compression codec max_size memory_limit deadline = Err e' \<and>
    err_code e' = err_code e \<and> err_message e' = Some m \<and> err_details e' = [] \<and>
    (\<forall>k. hm_values (err_trailers e') k = (if is_status_trailer k then [] else hm_values h k)) \<and>
    hm_get (err_trailers e') ''content-type'' = Some (response_content_type Grpc codec True)"
proof -
  let ?h = "trailers_only_head env e Grpc codec" and ?c = "grpc_code (err_code e)"
  note head = grpc_rejection_head [OF assms(1,2,4), where codec = codec]
  have msg: "map_option (grpc_percent_decode (ce_text ce)) (hm_get_str ?h GRPC_MESSAGE) = Some m"
    using assms(1,5) by (simp add: hm_get_str_def head(2) text_laws_def grpc_percent_decode_def)
  have det: "status_details (ce_wire ce) ?h = None" by (simp add: status_details_def hm_get_str_def head(3))
  let ?e = "set_trailers (error_metadata_from_trailers ?h) (new_error (err_code e) m)"
  have "parse_grpc_error_from_trailers (ce_text ce) (ce_wire ce) ?h = Some ?e"
    by (simp add: parse_grpc_error_from_trailers_def head(1) status_code_parsed msg det Let_def)
  moreover have "check_grpc_response_head 200 ?h Grpc codec = Ok ()"
    using trailers_only_head_get(1) [of env e Grpc codec] by (intro grpc_head_accepted) simp_all
  ultimately have "make_server_stream ce \<lparr>sr_status = 200, sr_headers = ?h, sr_body = body\<rparr> Grpc compression codec max_size
      memory_limit deadline = Err (set_response_headers ?h ?e)"
    by (simp add: make_server_stream_def Let_def)
  moreover have vals: "hm_values (error_metadata_from_trailers ?h) k = (if is_status_trailer k then [] else hm_values ?h k)" for k
    by (rule error_metadata_values [OF head(4)])
  moreover have "hm_get (error_metadata_from_trailers ?h) ''content-type'' = Some (response_content_type Grpc codec True)"
    using trailers_only_head_get(1) [of env e Grpc codec] vals [of "''content-type''"]
    by (simp add: hm_get_def is_status_trailer_def grpc_header_defs)
  ultimately show ?thesis
    using assms(3) by (simp add: streaming_error_response_def grpc_error_response_def Let_def new_error_def)
qed

theorem rejected_grpc_stream_read_witness:
  "\<exists>h e'. streaming_error_response sample_env (with_detail (from_message sample_wire_text ''a.B'' [1]) (not_found ''gone'')) Grpc Proto =
      Some \<lparr>hr_status = 200, hr_headers = h, hr_body = OnceFrame (TrailersFrame (error_trailers sample_env
        (with_detail (from_message sample_wire_text ''a.B'' [1]) (not_found ''gone''))))\<rparr> \<and>
    make_server_stream sample_client \<lparr>sr_status = 200, sr_headers = h, sr_body = []\<rparr> Grpc sample_registry Proto None None None = Err e' \<and>
    err_code e' = NotFound \<and> err_details e' = []"
proof -
  let ?e = "with_detail (from_message sample_wire_text ''a.B'' [1]) (not_found ''gone'')"
  have "text_laws (ce_text sample_client) (ce_wire sample_client)" "lib_text (env_libs sample_env) = ce_text sample_client"
      "env_build_error sample_env (trailers_only_head sample_env ?e Grpc Proto) = None"
    using sample_laws by (simp_all add: sample_client_def sample_env_def sample_libs_def)
  moreover have "err_message ?e = Some ''gone''" "err_code ?e = NotFound"
    by (simp_all add: with_detail_def not_found_def new_error_def)
  moreover have "utf8_valid (as_bytes ''gone'')" by (simp add: as_bytes_def in_range_def)
  ultimately show ?thesis using rejected_grpc_stream_read [of sample_client sample_env ?e Proto "''gone''"] by metis
qed

end
