(* ===== verification/ClientDuplex.thy ===== *)
theory ClientDuplex
  imports ClientStream
begin

text \<open>
  The client's calls with a request stream (\<^verbatim>\<open>connectrpc/src/client/mod.rs\<close>): \<^verbatim>\<open>EncodingBody\<close> and
  \<^verbatim>\<open>call_client_stream\<close> with the Connect response scan, and the bidirectional stream with its
  send half over a channel and its receive half as a state machine. The items of a request
  stream are what the codec makes of the caller's messages. The tokio channel and task handles
  are parameters: a channel is an operation on its state, a task the script of its polls.
\<close>

section \<open>The request body of a client stream\<close>

record 's encoding_body =
  ebd_stream :: 's
  ebd_encoder :: envelope_encoder
  ebd_error :: "connect_error option"
  ebd_done :: bool

definition encoding_body_new :: "'s \<Rightarrow> envelope_encoder \<Rightarrow> 's encoding_body" where
  "encoding_body_new s encoder = \<lparr>ebd_stream = s, ebd_encoder = encoder, ebd_error = None, ebd_done = False\<rparr>"

definition record_error :: "connect_error \<Rightarrow> 's encoding_body \<Rightarrow> 's encoding_body" where
  "record_error e b = b\<lparr>ebd_done := True, ebd_error := Some e\<rparr>"

definition encoding_poll_frame ::
    "('s, bytes connect_result) poll_fn \<Rightarrow> ('s encoding_body, (http_frame, connect_error) result) poll_fn" where
  "encoding_poll_frame poll b =
     (if ebd_done b then (Ready None, b)
      else
        (case poll (ebd_stream b) of
           (Pending, s) \<Rightarrow> (Pending, b\<lparr>ebd_stream := s\<rparr>)
         | (Ready None, s) \<Rightarrow> (Ready None, b\<lparr>ebd_stream := s, ebd_done := True\<rparr>)
         | (Ready (Some item), s) \<Rightarrow>
             (case result_bind item (\<lambda>m. encoder_encode (ebd_encoder b) m []) of
                Ok envelope_buf \<Rightarrow> (Ready (Some (Ok (DataFrame envelope_buf))), b\<lparr>ebd_stream := s\<rparr>)
              | Err e \<Rightarrow> (Ready (Some (Err e)), record_error e (b\<lparr>ebd_stream := s\<rparr>)))))"

section \<open>A Connect client-stream response\<close>

definition scan_envelope_data ::
    "string \<Rightarrow> compression_registry \<Rightarrow> string option \<Rightarrow> usize \<Rightarrow> envelope \<Rightarrow> bytes connect_result" where
  "scan_envelope_data missing compression encoding max_size e =
     (if is_compressed e then
        (case encoding of
           None \<Rightarrow> Err (internal missing)
         | Some enc \<Rightarrow>
             (case registry_decompress_with_limit compression enc (env_data e) max_size of
                Ok d \<Rightarrow> Ok d
              | Err x \<Rightarrow> Err (map_response_decompression_error x)))
      else Ok (env_data e))"

text \<open>The end-of-stream arm: the trailers it carries, or its error.\<close>

definition scan_end_stream ::
    "('o, 'v) client_env \<Rightarrow> compression_registry \<Rightarrow> string option \<Rightarrow> usize \<Rightarrow> envelope \<Rightarrow> headers connect_result" where
  "scan_end_stream ce compression encoding max_size e =
     result_bind (scan_envelope_data ''received compressed END_STREAM without encoding header'' compression encoding max_size e) (\<lambda>data.
     result_bind (parse_connect_end_stream ce data) (\<lambda>es.
     let trailers = (case ces_metadata es of Some m \<Rightarrow> append_metadata_capped (ce_text ce) hm_new m | None \<Rightarrow> hm_new)
     in case ces_error es of
          Some err \<Rightarrow> Err (set_trailers (error_metadata_from_trailers trailers) (end_stream_error_to_connect_error err))
        | None \<Rightarrow> Ok trailers))"

function scan_loop ::
    "('o, 'v) client_env \<Rightarrow> compression_registry \<Rightarrow> string option \<Rightarrow> usize \<Rightarrow> bytes \<Rightarrow> bytes option \<Rightarrow>
     (bytes option \<times> headers \<times> bool) connect_result" where
  "scan_loop ce compression encoding max_size buf found =
     (if buf = [] then Ok (found, hm_new, False)
      else
        (case decode_bytes_with_limit buf max_size of
           (Err x, _) \<Rightarrow> Err x
         | (Ok None, _) \<Rightarrow> Ok (found, hm_new, False)
         | (Ok (Some e), rest) \<Rightarrow>
             (if is_end_stream e
              then result_bind (scan_end_stream ce compression encoding max_size e) (\<lambda>trailers. Ok (found, trailers, True))
              else if found \<noteq> None
              then Err (unimplemented ''client streaming response contains multiple data messages'')
              else
                (case scan_envelope_data ''received compressed message without encoding header'' compression encoding max_size e of
                   Err x \<Rightarrow> Err x
                 | Ok data \<Rightarrow>
                     (if length data > max_size
                      then Err (new_error ResourceExhausted
                             (''message size '' @ show_nat (length data) @ '' exceeds limit '' @ show_nat max_size))
                      else scan_loop ce compression encoding max_size rest (Some data))))))"
  by pat_completeness auto
termination
  by (relation "measure (\<lambda>(ce, c, e, m, buf, msg). length buf)")
    (auto dest!: envelope_frames.dec_item_shrinks simp: decode_bytes_with_limit_def decode_contiguous_spec
      split: result.splits option.splits prod.splits)

declare scan_loop.simps [simp del]

definition scan_connect_client_stream_envelopes ::
    "('o, 'v) client_env \<Rightarrow> bytes \<Rightarrow> compression_registry \<Rightarrow> string option \<Rightarrow> usize \<Rightarrow> (bytes \<times> headers) connect_result" where
  "scan_connect_client_stream_envelopes ce body compression encoding max_size =
     result_bind (scan_loop ce compression encoding max_size body None) (\<lambda>(found, trailers, saw_end_stream).
     case found of
       None \<Rightarrow> Err (unimplemented ''client streaming response contains no data messages'')
     | Some m \<Rightarrow>
         (if saw_end_stream then Ok (m, trailers)
          else Err (internal ''Connect streaming response ended without END_STREAM envelope'')))"

definition map_err :: "(connect_error \<Rightarrow> connect_error) \<Rightarrow> 'a connect_result \<Rightarrow> 'a connect_result" where
  "map_err f r = (case r of Ok x \<Rightarrow> Ok x | Err e \<Rightarrow> Err (f e))"

definition parse_connect_client_stream_envelopes ::
    "('o, 'v) client_env \<Rightarrow> bytes \<Rightarrow> compression_registry \<Rightarrow> string option \<Rightarrow> usize \<Rightarrow> headers \<Rightarrow> (bytes \<times> headers) connect_result" where
  "parse_connect_client_stream_envelopes ce body compression encoding max_size h =
     map_err (set_response_headers h) (scan_connect_client_stream_envelopes ce body compression encoding max_size)"

definition parse_connect_client_stream_response ::
    "('o, 'v) client_env \<Rightarrow> client_stream_response \<Rightarrow> client_config \<Rightarrow> call_options \<Rightarrow> instant option \<Rightarrow>
     'v unary_response_view connect_result" where
  "parse_connect_client_stream_response ce response config options deadline =
     (let h = sr_headers response; limit = max_message_size_of options in
      if \<not> is_success (sr_status response)
      then Err (connect_stream_error ce response (cfg_compression config) limit deadline)
      else
        result_bind (validate_connect_response_content_type h (cfg_codec_format config) True) (\<lambda>_.
        result_bind (map_err (with_response_metadata h hm_new) (collect_body_bounded ce (script_items (sr_body response))
            (saturating_add (saturating_add limit (2 * HEADER_SIZE)) RESPONSE_BUFFER_TRAILER_SLACK) deadline)) (\<lambda>body.
        result_bind (parse_connect_client_stream_envelopes ce body (cfg_compression config)
            (hm_get_str h (content_encoding_header (cfg_protocol config))) limit h) (\<lambda>(data, trailers).
        result_bind (map_err (with_response_metadata h trailers) (decode_response_view ce data (cfg_codec_format config) (opt_element_memory_limit options))) (\<lambda>v.
        Ok \<lparr>ur_headers = h, ur_body = v, ur_trailers = trailers\<rparr>)))))"

section \<open>The client-streaming call\<close>

text \<open>
  The transport answers and leaves the request body as far as it was polled; an encode failure
  recorded there is reported in place of the answer.
\<close>

definition call_client_stream ::
    "('o, 'v) client_env \<Rightarrow> uri_ops \<Rightarrow>
     ('s encoding_body client_stream_request \<Rightarrow> (client_stream_response, transport_error) result \<times> 's encoding_body) \<Rightarrow>
     client_config \<Rightarrow> spec \<Rightarrow> 's \<Rightarrow> call_options \<Rightarrow> 'v unary_response_view connect_result option" where
  "call_client_stream ce u transport config s requests opts =
     (let options = effective_options config opts;
          deadline = client_deadline (ce_now ce) (opt_timeout options) (cfg_protocol config);
          body = encoding_body_new requests (request_encoder config options)
      in map_option (\<lambda>r. result_bind r (\<lambda>request.
             let (answer, body') = transport request;
                 result = with_deadline ce deadline
                   (case answer of
                      Err e \<Rightarrow> Err (map_transport_send_error e ''request failed'')
                    | Ok response \<Rightarrow>
                        (if cfg_protocol config = Connect
                         then parse_connect_client_stream_response ce response config options deadline
                         else parse_grpc_unary_response ce
                                \<lparr>cr_status = sr_status response, cr_headers = sr_headers response,
                                 cr_body = script_items (sr_body response)\<rparr> config options deadline))
             in case ebd_error body' of Some e \<Rightarrow> Err e | None \<Rightarrow> result))
           (streaming_http_request ce u config s StClientStream ''call_client_stream'' (Ok body) options))"

section \<open>The send half of a bidirectional stream\<close>

text \<open>
  Sending into the channel: whether the receiver was still there, and the channel afterwards.
  A channel closes when its sender is dropped.
\<close>

record 'c chan_ops =
  ch_send :: "'c \<Rightarrow> bytes connect_result \<Rightarrow> bool \<times> 'c"
  ch_close :: "'c \<Rightarrow> 'c"
  ch_recv :: "('c, bytes connect_result) poll_fn"

record bidi_send_half =
  sh_open :: bool
  sh_encoder :: envelope_encoder
  sh_deadline :: "instant option"

text \<open>\<open>encoded\<close> is the codec's answer for the message, \<open>now\<close> the clock at the call.\<close>

definition bidi_send ::
    "'c chan_ops \<Rightarrow> instant \<Rightarrow> bytes connect_result \<Rightarrow> bidi_send_half \<Rightarrow> 'c \<Rightarrow> unit connect_result \<times> 'c" where
  "bidi_send ops now encoded half c =
     (if (case sh_deadline half of Some d \<Rightarrow> now \<ge> d | None \<Rightarrow> False)
      then (Err (deadline_exceeded ''client-side deadline exceeded''), c)
      else if \<not> sh_open half then (Err (internal ''send after close_send''), c)
      else
        (case result_bind encoded (\<lambda>m. encoder_encode (sh_encoder half) m []) of
           Err e \<Rightarrow> (Err e, c)
         | Ok envelope_buf \<Rightarrow>
             (case ch_send ops c (Ok envelope_buf) of
                (True, c') \<Rightarrow> (Ok (), c')
              | (False, c') \<Rightarrow> (Err (unavailable ''stream closed by server (call message() for error)''), c'))))"

definition close_send :: "'c chan_ops \<Rightarrow> bidi_send_half \<Rightarrow> 'c \<Rightarrow> bidi_send_half \<times> 'c" where
  "close_send ops half c = (half\<lparr>sh_open := False\<rparr>, if sh_open half then ch_close ops c else c)"

definition channel_poll_frame :: "'c chan_ops \<Rightarrow> ('c, (http_frame, connect_error) result) poll_fn" where
  "channel_poll_frame ops c =
     (case ch_recv ops c of
        (Pending, c') \<Rightarrow> (Pending, c')
      | (Ready None, c') \<Rightarrow> (Ready None, c')
      | (Ready (Some r), c') \<Rightarrow> (Ready (Some (result_map DataFrame r)), c'))"

section \<open>The receive half\<close>

text \<open>
  A spawned task is the script of what polling its handle answers: waits, then its result or
  the text of its join error.
\<close>

type_synonym 'r task = "('r, string) result poll list"

fun join_poll :: "'r task \<Rightarrow> ('r, string) result poll \<times> 'r task" where
  "join_poll [] = (Pending, [])"
| "join_poll (Pending # r) = (Pending, r)"
| "join_poll (Ready x # r) = (Ready x, r)"

datatype recv_state =
    AwaitingHeaders "client_stream_response connect_result task"
  | Constructing "server_stream connect_result task"
  | StreamReady server_stream
  | RecvFailed connect_error

record stream_config =
  sc_protocol :: protocol
  sc_codec_format :: codec_format
  sc_compression :: compression_registry
  sc_max_message_size :: "usize option"
  sc_element_memory_limit :: "usize option"
  sc_deadline :: "instant option"

record bidi_recv_half =
  rh_recv :: recv_state
  rh_config :: stream_config

text \<open>What the construction task computes; \<open>spawn\<close> says when its handle answers.\<close>

definition construct_stream :: "('o, 'v) client_env \<Rightarrow> stream_config \<Rightarrow> client_stream_response \<Rightarrow> server_stream connect_result" where
  "construct_stream ce sc response =
     with_deadline ce (sc_deadline sc)
       (make_server_stream ce response (sc_protocol sc) (sc_compression sc) (sc_codec_format sc)
          (sc_max_message_size sc) (sc_element_memory_limit sc) (sc_deadline sc))"

definition recv_ready :: "('o, 'v) client_env \<Rightarrow> server_stream \<Rightarrow> bidi_recv_half \<Rightarrow> 'v option connect_result poll \<times> bidi_recv_half" where
  "recv_ready ce ss half = (case message ce ss of (r, ss') \<Rightarrow> (Ready r, half\<lparr>rh_recv := StreamReady ss'\<rparr>))"

definition recv_constructing ::
    "('o, 'v) client_env \<Rightarrow> server_stream connect_result task \<Rightarrow> bidi_recv_half \<Rightarrow> 'v option connect_result poll \<times> bidi_recv_half" where
  "recv_constructing ce task half =
     (case join_poll task of
        (Pending, task') \<Rightarrow> (Pending, half\<lparr>rh_recv := Constructing task'\<rparr>)
      | (Ready joined, _) \<Rightarrow>
          (case (case joined of
                   Ok result \<Rightarrow> result
                 | Err e \<Rightarrow> Err (internal (''response stream construction task failed: '' @ e))) of
             Ok ss \<Rightarrow> recv_ready ce ss half
           | Err e \<Rightarrow> (Ready (Err e), half\<lparr>rh_recv := RecvFailed e\<rparr>)))"

text \<open>One poll of \<^verbatim>\<open>message()\<close>: the loop runs on through every state that answers at once.\<close>

definition recv_message ::
    "('o, 'v) client_env \<Rightarrow> (server_stream connect_result \<Rightarrow> server_stream connect_result task) \<Rightarrow> bidi_recv_half \<Rightarrow>
     'v option connect_result poll \<times> bidi_recv_half" where
  "recv_message ce spawn half =
     (case rh_recv half of
        AwaitingHeaders task \<Rightarrow>
          (let failed = (\<lambda>e. (Ready (Err e), half\<lparr>rh_recv := RecvFailed e\<rparr>)) in
           case join_poll task of
             (Pending, task') \<Rightarrow>
               (case with_deadline ce (sc_deadline (rh_config half)) (Ok ()) of
                  Err e \<Rightarrow> failed e
                | Ok _ \<Rightarrow> (Pending, half\<lparr>rh_recv := AwaitingHeaders task'\<rparr>))
           | (Ready (Err e), _) \<Rightarrow> failed (internal (''transport send task failed: '' @ e))
           | (Ready (Ok (Err e)), _) \<Rightarrow> failed e
           | (Ready (Ok (Ok response)), _) \<Rightarrow>
               recv_constructing ce (spawn (construct_stream ce (rh_config half) response)) half)
      | Constructing task \<Rightarrow> recv_constructing ce task half
      | StreamReady ss \<Rightarrow> recv_ready ce ss half
      | RecvFailed e \<Rightarrow> (Ready (Err e), half))"

definition recv_headers :: "bidi_recv_half \<Rightarrow> headers option" where
  "recv_headers half = (case rh_recv half of StreamReady ss \<Rightarrow> Some (ss_headers ss) | _ \<Rightarrow> None)"

definition recv_trailers :: "bidi_recv_half \<Rightarrow> headers option" where
  "recv_trailers half = (case rh_recv half of StreamReady ss \<Rightarrow> stream_trailers ss | _ \<Rightarrow> None)"

definition recv_error :: "bidi_recv_half \<Rightarrow> connect_error option" where
  "recv_error half = (case rh_recv half of StreamReady ss \<Rightarrow> stream_error ss | RecvFailed e \<Rightarrow> Some e | _ \<Rightarrow> None)"

text \<open>Dropping the half: whether a task is aborted.\<close>

definition recv_drop_aborts :: "bidi_recv_half \<Rightarrow> bool" where
  "recv_drop_aborts half = (case rh_recv half of AwaitingHeaders _ \<Rightarrow> True | Constructing _ \<Rightarrow> True | _ \<Rightarrow> False)"

record bidi_stream =
  bd_send :: bidi_send_half
  bd_recv :: bidi_recv_half

definition into_split :: "bidi_stream \<Rightarrow> bidi_send_half \<times> bidi_recv_half" where
  "into_split b = (bd_send b, bd_recv b)"

text \<open>
  The call: \<open>open_channel\<close> is the fresh channel whose receiver is the request body, \<open>transport\<close>
  gives the script of the spawned send.
\<close>

definition map_sent :: "(client_stream_response, transport_error) result task \<Rightarrow> client_stream_response connect_result task" where
  "map_sent t = map (\<lambda>p. case p of
       Pending \<Rightarrow> Pending
     | Ready (Err e) \<Rightarrow> Ready (Err e)
     | Ready (Ok (Ok r)) \<Rightarrow> Ready (Ok (Ok r))
     | Ready (Ok (Err e)) \<Rightarrow> Ready (Ok (Err (map_transport_send_error e ''request failed'')))) t"

definition call_bidi_stream ::
    "('o, 'v) client_env \<Rightarrow> uri_ops \<Rightarrow> 'c \<Rightarrow>
     ('c client_stream_request \<Rightarrow> (client_stream_response, transport_error) result task) \<Rightarrow>
     client_config \<Rightarrow> spec \<Rightarrow> call_options \<Rightarrow> bidi_stream connect_result option" where
  "call_bidi_stream ce u open_channel transport config s opts =
     (let options = effective_options config opts;
          deadline = client_deadline (ce_now ce) (opt_timeout options) (cfg_protocol config)
      in map_option (\<lambda>r. result_bind r (\<lambda>request.
             Ok \<lparr>bd_send = \<lparr>sh_open = True, sh_encoder = request_encoder config options, sh_deadline = deadline\<rparr>,
                 bd_recv = \<lparr>rh_recv = AwaitingHeaders (map_sent (transport request)),
                   rh_config = \<lparr>sc_protocol = cfg_protocol config, sc_codec_format = cfg_codec_format config,
                     sc_compression = cfg_compression config, sc_max_message_size = opt_max_message_size options,
                     sc_element_memory_limit = opt_element_memory_limit options, sc_deadline = deadline\<rparr>\<rparr>\<rparr>))
           (streaming_http_request ce u config s StBidiStream ''call_bidi_stream'' (Ok open_channel) options))"

end
