(* ===== verification/DuplexProps.thy ===== *)
theory DuplexProps
  imports ClientDuplex StreamProps
begin

text \<open>
  The client's request streams and bidirectional streams: what the server's handler reads of an
  upload, which responses a client-streaming call accepts, and what the receive half delivers
  whatever the caller's \<^verbatim>\<open>message()\<close> futures do.
\<close>

section \<open>What a request stream uploads\<close>

fun upload_items :: "envelope_encoder \<Rightarrow> bytes connect_result list \<Rightarrow> (http_frame, connect_error) result list" where
  "upload_items enc [] = []"
| "upload_items enc (item # items) =
     (case result_bind item (\<lambda>m. encoder_encode enc m []) of
        Ok b \<Rightarrow> Ok (DataFrame b) # upload_items enc items
      | Err e \<Rightarrow> [Err e])"

fun upload_error :: "(http_frame, connect_error) result list \<Rightarrow> connect_error option" where
  "upload_error [] = None"
| "upload_error (Ok f # r) = upload_error r"
| "upload_error (Err e # r) = Some e"

text \<open>The state after \<open>n\<close> polls.\<close>

fun poll_after :: "('s, 'i) poll_fn \<Rightarrow> nat \<Rightarrow> 's \<Rightarrow> 's" where
  "poll_after poll 0 s = s"
| "poll_after poll (Suc n) s = poll_after poll n (snd (poll s))"

lemma encoding_done:
  assumes "ebd_done b"
  shows "delivered (poll_run (encoding_poll_frame poll) n b) = []" "poll_after (encoding_poll_frame poll) n b = b"
  using assms by (induction n) (simp_all add: encoding_poll_frame_def)

lemma encoding_uploads:
  assumes "\<not> ebd_done b" and "ebd_error b = None"
  shows "delivered (poll_run (encoding_poll_frame script_poll) (Suc (length (ebd_stream b)) + k) b) =
      upload_items (ebd_encoder b) (script_items (ebd_stream b)) \<and>
    ebd_error (poll_after (encoding_poll_frame script_poll) (Suc (length (ebd_stream b)) + k) b) =
      upload_error (upload_items (ebd_encoder b) (script_items (ebd_stream b)))"
  using assms
proof (induction "ebd_stream b" arbitrary: b)
  case Nil
  then have "encoding_poll_frame script_poll b = (Ready None, b\<lparr>ebd_stream := [], ebd_done := True\<rparr>)"
    by (simp add: encoding_poll_frame_def Nil(1) [symmetric])
  then show ?case using Nil by (simp add: encoding_done Nil(1) [symmetric])
next
  case (Cons x script)
  let ?b = "b\<lparr>ebd_stream := script\<rparr>"
  have IH: "delivered (poll_run (encoding_poll_frame script_poll) (Suc (length script) + k) ?b) = upload_items (ebd_encoder b) (script_items script) \<and>
      ebd_error (poll_after (encoding_poll_frame script_poll) (Suc (length script) + k) ?b) = upload_error (upload_items (ebd_encoder b) (script_items script))"
    using Cons.hyps(1) [of ?b] Cons.prems by simp
  have len: "Suc (length (ebd_stream b)) + k = Suc (Suc (length script) + k)" by (simp add: Cons.hyps(2) [symmetric])
  show ?case
  proof (cases x)
    case Pending
    then have "encoding_poll_frame script_poll b = (Pending, ?b)"
      using Cons.prems by (simp add: encoding_poll_frame_def Cons.hyps(2) [symmetric])
    then show ?thesis
      unfolding len Cons.hyps(2) [symmetric] using IH Pending by simp
  next
    case (Ready item)
    show ?thesis
    proof (cases "result_bind item (\<lambda>m. encoder_encode (ebd_encoder b) m [])")
      case (Ok buf)
      then have "encoding_poll_frame script_poll b = (Ready (Some (result.Ok (DataFrame buf))), ?b)"
        using Cons.prems Ready by (simp add: encoding_poll_frame_def Cons.hyps(2) [symmetric])
      then show ?thesis
        unfolding len Cons.hyps(2) [symmetric] using IH Ready Ok by simp
    next
      case (Err e)
      then have "encoding_poll_frame script_poll b = (Ready (Some (result.Err e)), record_error e ?b)"
        using Cons.prems Ready by (simp add: encoding_poll_frame_def Cons.hyps(2) [symmetric])
      moreover have "ebd_done (record_error e ?b)" "ebd_error (record_error e ?b) = Some e" by (simp_all add: record_error_def)
      moreover note encoding_done [OF this(1), of script_poll "Suc (length script) + k"]
      ultimately show ?thesis
        unfolding len Cons.hyps(2) [symmetric] using Ready Err by simp
    qed
  qed
qed

text \<open>
  C26. The body of a client stream is the stream: enough polls, whatever the caller's stream waits
  for, yield the envelope of every message in order and end, or stop with the first message
  that cannot be encoded; that error is both the last thing the transport sees and exactly
  the error recorded for the call to report.
\<close>

theorem encoding_body_uploads:
  "\<exists>N. \<forall>k.
     delivered (poll_run (encoding_poll_frame script_poll) (N + k) (encoding_body_new source enc)) = upload_items enc (script_items source) \<and>
     ebd_error (poll_after (encoding_poll_frame script_poll) (N + k) (encoding_body_new source enc)) =
       upload_error (upload_items enc (script_items source))"
  using encoding_uploads [of "encoding_body_new source enc"] by (intro exI [of _ "Suc (length source)"]) (simp add: encoding_body_new_def)

section \<open>The handler's view of an upload\<close>

text \<open>What a request message needs: it fits the server's limit and its encoding is removed again.\<close>

definition upload_carried :: "compression_registry \<Rightarrow> compression_registry \<Rightarrow> string option \<Rightarrow> usize \<Rightarrow> bytes \<Rightarrow> bool" where
  "upload_carried sender receiver encoding M m \<longleftrightarrow> length m \<le> M \<and>
     (case encoding of
        None \<Rightarrow> True
      | Some enc \<Rightarrow> enc \<noteq> ''identity'' \<and>
          (case registry_compress sender enc m of
             Ok c \<Rightarrow> length c \<le> M \<and> registry_decompress_with_limit receiver enc c M = Ok m
           | Err _ \<Rightarrow> False))"

lemma upload_envelope:
  assumes "upload_carried sender receiver encoding M m" and "M \<le> u32_MAX"
    and "enc = \<lparr>enc_compression = map_option (Pair sender) encoding, enc_policy = policy\<rparr>"
  obtains w where "encoder_encode enc m [] = Ok w"
    "\<And>rest. decode_all (message_decode encoding receiver M) (w @ rest) =
      (Message m # fst (decode_all (message_decode encoding receiver M) rest), snd (decode_all (message_decode encoding receiver M) rest))"
proof -
  have "\<exists>flag data. envelope_of enc m = Ok (flag, data) \<and> length data \<le> M \<and>
      classify_envelope encoding receiver M \<lparr>env_flags = flag, env_data = data\<rparr> = Ok (Message m)"
  proof (cases "encoding \<noteq> None \<and> should_compress policy (length m)")
    case True
    then obtain name where "encoding = Some name" by blast
    with True assms(1,3) show ?thesis
      by (auto simp: upload_carried_def envelope_of_def classify_flags split: result.splits)
  next
    case False
    then show ?thesis
      using assms(1,3) by (intro exI [of _ flags_DATA] exI [of _ m]) (auto simp: upload_carried_def envelope_of_def classify_flags split: option.splits)
  qed
  then obtain flag data where e: "envelope_of enc m = Ok (flag, data)" "length data \<le> M" "length data \<le> u32_MAX"
      "classify_envelope encoding receiver M \<lparr>env_flags = flag, env_data = data\<rparr> = Ok (Message m)"
    using assms(2) le_trans by blast
  show thesis
    using e that [of "envelope_bytes flag data"] message_decode_envelope [OF e(2-4)]
    by (simp add: encoder_encode_eq write_envelope_Ok)
qed

lemma upload_frames:
  assumes "\<forall>m \<in> set ms. upload_carried sender receiver encoding M m" and "M \<le> u32_MAX"
    and "enc = \<lparr>enc_compression = map_option (Pair sender) encoding, enc_policy = policy\<rparr>"
  shows "\<exists>ds. upload_items enc (map Ok ms) = map (Ok \<circ> DataFrame) ds \<and>
    decode_all (message_decode encoding receiver M) (concat ds) = (map Message ms, Ok [])"
  using assms(1)
proof (induction ms)
  case Nil
  have "decode_all (message_decode encoding receiver M) [] = ([], Ok [])"
    by (rule message_frames.decode_all_more) (simp add: message_decode_cases spec_decode_def)
  then show ?case by (intro exI [of _ "[]"]) simp
next
  case (Cons m ms)
  then have "\<forall>m \<in> set ms. upload_carried sender receiver encoding M m" by simp
  from Cons.IH [OF this] obtain ds where ds: "upload_items enc (map Ok ms) = map (Ok \<circ> DataFrame) ds"
      "decode_all (message_decode encoding receiver M) (concat ds) = (map Message ms, Ok [])" by blast
  obtain w where w: "encoder_encode enc m [] = Ok w"
      "\<And>rest. decode_all (message_decode encoding receiver M) (w @ rest) =
        (Message m # fst (decode_all (message_decode encoding receiver M) rest), snd (decode_all (message_decode encoding receiver M) rest))"
    using upload_envelope [OF _ assms(2,3)] Cons.prems by (metis list.set_intros(1))
  show ?case using ds w by (intro exI [of _ "w # ds"]) simp
qed

lemma carried_request:
  assumes "carried body (map DataFrame ds)"
  shows "body_bytes body = concat ds" "body_failure body = None"
proof -
  obtain es where es: "script_items body = map (Ok \<circ> DataFrame) es" "concat es = concat ds"
    using assms by (auto simp: carried_def)
  have "body_bytes body = concat es \<and> body_failure body = None"
    using es(1)
  proof (induction body arbitrary: es)
    case (Cons x body)
    show ?case
    proof (cases x)
      case Pending
      then show ?thesis using Cons by simp
    next
      case (Ready item)
      then obtain e es' where "es = e # es'" "item = Ok (DataFrame e)" "script_items body = map (Ok \<circ> DataFrame) es'"
        using Cons.prems by (cases es) auto
      then show ?thesis using Cons.IH [of es'] Ready by (simp add: frame_data_def)
    qed
  qed simp
  then show "body_bytes body = concat ds" "body_failure body = None" using es(2) by simp_all
qed

text \<open>
  C23. A client stream reaches the handler: the messages the caller's stream yields, encoded into
  the request body as the transport polls it and cut into frames anywhere on the way, are
  exactly what the server's request stream hands the handler, in order and with nothing after
  them, for a client-streaming and a bidirectional call alike.
\<close>

theorem client_stream_reaches_handler:
  assumes "\<forall>m \<in> set ms. upload_carried sender receiver encoding M m" and "M \<le> u32_MAX"
    and "enc = \<lparr>enc_compression = map_option (Pair sender) encoding, enc_policy = policy\<rparr>"
    and "script_items source = map Ok ms"
  shows "\<exists>N. \<forall>k. \<exists>frames.
    delivered (poll_run (encoding_poll_frame script_poll) (N + k) (encoding_body_new source enc)) = map Ok frames \<and>
    (\<forall>body. carried body frames \<longrightarrow>
      (\<exists>N'. \<forall>k'. \<exists>outs.
        poll_run_partial (request_poll_next script_poll ended) (N' + k') (decode_request_body body M encoding receiver) = Some outs \<and>
        delivered outs = map Ok ms))"
proof -
  obtain ds where ds: "upload_items enc (map Ok ms) = map (Ok \<circ> DataFrame) ds"
      "decode_all (message_decode encoding receiver M) (concat ds) = (map Message ms, Ok [])"
    using upload_frames [OF assms(1-3)] by blast
  have up: "delivered (poll_run (encoding_poll_frame script_poll) (Suc (length source) + k) (encoding_body_new source enc)) =
      map Ok (map DataFrame ds)" for k
    using encoding_uploads [of "encoding_body_new source enc" k] ds(1) assms(4) by (simp add: encoding_body_new_def)
  have read: "\<exists>N'. \<forall>k'. \<exists>outs.
        poll_run_partial (request_poll_next script_poll ended) (N' + k') (decode_request_body body M encoding receiver) = Some outs \<and>
        delivered outs = map Ok ms" if "carried body (map DataFrame ds)" for body
  proof -
    have tw: "takeWhile (\<lambda>d. d \<noteq> EndStream) (map Message ms) = map Message ms" by (simp add: takeWhile_eq_all_conv)
    have "request_items encoding receiver M (body_bytes body) (body_failure body) = map Ok ms"
      unfolding carried_request [OF that] by (auto simp: request_items_def ds(2) tw message_of_def)
    then show ?thesis using request_body_read [of ended body M encoding receiver] by simp
  qed
  have "\<exists>frames. delivered (poll_run (encoding_poll_frame script_poll) (Suc (length source) + k) (encoding_body_new source enc)) = map Ok frames \<and>
      (\<forall>body. carried body frames \<longrightarrow>
        (\<exists>N'. \<forall>k'. \<exists>outs.
          poll_run_partial (request_poll_next script_poll ended) (N' + k') (decode_request_body body M encoding receiver) = Some outs \<and>
          delivered outs = map Ok ms))" for k
    using up [of k] read by (intro exI [of _ "map DataFrame ds"]) blast
  then show ?thesis by blast
qed

theorem client_stream_reaches_handler_witness:
  "\<exists>n frames outs.
    delivered (poll_run (encoding_poll_frame script_poll) n
      (encoding_body_new [Ready (Ok [1]), Pending, Ready (Ok [])] \<lparr>enc_compression = None, enc_policy = policy_default\<rparr>)) = map Ok frames \<and>
    (\<exists>k body. carried body frames \<and>
      poll_run_partial (request_poll_next script_poll (\<lambda>_. False)) k (decode_request_body body 16 None sample_registry) = Some outs) \<and>
    delivered outs = [Ok [1], Ok []]"
proof -
  let ?src = "[Ready (Ok [1]), Pending, Ready (Ok [])] :: bytes connect_result poll list"
  let ?enc = "\<lparr>enc_compression = map_option (Pair sample_registry) None, enc_policy = policy_default\<rparr>"
  have "\<forall>m \<in> set [[1], []]. upload_carried sample_registry sample_registry None 16 m" by (simp add: upload_carried_def)
  note ok = this
  have "16 \<le> u32_MAX" by (simp add: u32_MAX_def)
  note e2e = client_stream_reaches_handler [OF ok this, of ?enc policy_default ?src "\<lambda>_. False"]
  obtain N where N: "\<forall>k. \<exists>frames. delivered (poll_run (encoding_poll_frame script_poll) (N + k) (encoding_body_new ?src ?enc)) = map Ok frames \<and>
      (\<forall>body. carried body frames \<longrightarrow> (\<exists>N'. \<forall>k'. \<exists>outs.
        poll_run_partial (request_poll_next script_poll (\<lambda>_. False)) (N' + k') (decode_request_body body 16 None sample_registry) = Some outs \<and>
        delivered outs = map Ok [[1], []]))"
    using e2e by auto
  obtain ds where ds: "upload_items ?enc (map Ok [[1], []]) = map (Ok \<circ> DataFrame) ds"
    using upload_frames [OF ok \<open>16 \<le> u32_MAX\<close>, of ?enc policy_default] by blast
  have up: "delivered (poll_run (encoding_poll_frame script_poll) (N + Suc (length ?src)) (encoding_body_new ?src ?enc)) = map Ok (map DataFrame ds)"
  proof -
    let ?b = "encoding_body_new ?src ?enc"
    have b: "\<not> ebd_done ?b" "ebd_error ?b = None" "ebd_stream ?b = ?src" "ebd_encoder ?b = ?enc" by (simp_all add: encoding_body_new_def)
    have items: "script_items ?src = map Ok [[1], []]" by simp
    have len: "N + Suc (length ?src) = Suc (length ?src) + N" by (rule add.commute)
    show ?thesis
      unfolding len using encoding_uploads [OF b(1,2), of N, THEN conjunct1, unfolded b(3,4) items ds] by (simp only: map_map)
  qed
  let ?body = "map (Ready \<circ> Ok) (map DataFrame ds)"
  have "script_items (map (Ready \<circ> Ok) (map DataFrame xs)) = map (Ok \<circ> DataFrame) xs" for xs by (induction xs) simp_all
  then have c: "carried ?body (map DataFrame ds)" unfolding carried_def by (intro exI [of _ ds]) simp
  from N obtain frames where f: "delivered (poll_run (encoding_poll_frame script_poll) (N + Suc (length ?src)) (encoding_body_new ?src ?enc)) = map Ok frames"
      "\<And>body. carried body frames \<Longrightarrow> (\<exists>N'. \<forall>k'. \<exists>outs.
        poll_run_partial (request_poll_next script_poll (\<lambda>_. False)) (N' + k') (decode_request_body body 16 None sample_registry) = Some outs \<and>
        delivered outs = map Ok [[1], []])" by blast
  from f(1) up have eq: "map Ok frames = (map Ok (map DataFrame ds) :: (http_frame, connect_error) result list)"
    by (rule trans [OF sym])
  have "inj (Ok :: http_frame \<Rightarrow> (http_frame, connect_error) result)" by (simp add: inj_on_def)
  with eq have "frames = map DataFrame ds" by (rule iffD1 [OF inj_map_eq_map, rotated])
  with f(2) [of ?body] c obtain N' outs where
    "poll_run_partial (request_poll_next script_poll (\<lambda>_. False)) (N' + 0) (decode_request_body ?body 16 None sample_registry) = Some outs"
    "delivered outs = map Ok [[1], []]" by blast
  with up c show ?thesis by (intro exI [of _ "N + Suc (length ?src)"] exI [of _ "map DataFrame ds"] exI [of _ outs]) auto
qed

section \<open>The responses a client-streaming call accepts\<close>

lemma scan_step:
  assumes "spec_decode M None buf = Ok (Some (e, rest))"
  shows "scan_loop ce compression encoding M buf found =
    (if is_end_stream e
     then result_bind (scan_end_stream ce compression encoding M e) (\<lambda>trailers. Ok (found, trailers, True))
     else if found \<noteq> None then Err (unimplemented ''client streaming response contains multiple data messages'')
     else result_bind (scan_envelope_data ''received compressed message without encoding header'' compression encoding M e) (\<lambda>data.
       if length data > M
       then Err (new_error ResourceExhausted (''message size '' @ show_nat (length data) @ '' exceeds limit '' @ show_nat M))
       else scan_loop ce compression encoding M rest (Some data)))"
proof -
  have "buf \<noteq> []" using assms by (auto simp: spec_decode_def)
  then show ?thesis
    using assms by (subst scan_loop.simps)
      (auto simp: decode_bytes_with_limit_def decode_contiguous_spec split: result.splits)
qed

lemma scan_stop:
  "spec_decode M None buf = Ok None \<Longrightarrow> scan_loop ce compression encoding M buf found = Ok (found, hm_new, False)"
  "spec_decode M None buf = Err x \<Longrightarrow> scan_loop ce compression encoding M buf found = Err x"
  by (subst scan_loop.simps; auto simp: decode_bytes_with_limit_def decode_contiguous_spec spec_decode_def split: if_splits)+

lemma scan_cases:
  obtains (stop) "spec_decode M None buf = Ok None" | (bad) x where "spec_decode M None buf = Err x"
    | (item) e rest where "spec_decode M None buf = Ok (Some (e, rest))"
  by (cases "spec_decode M None buf") (auto, metis option.exhaust surj_pair)

text \<open>
  C25. A Connect client-streaming call succeeds on exactly one kind of response body: a first data
  envelope whose payload is the message, within the limit, directly followed by an error-free
  end-of-stream envelope that supplies the trailers; what comes after it is ignored. An empty
  body, a missing terminus, a second data message or an oversized one is refused.
\<close>

theorem client_stream_response_exact:
  "scan_connect_client_stream_envelopes ce body compression encoding M = Ok (m, trailers) \<longleftrightarrow>
   (\<exists>e rest e' rest'. spec_decode M None body = Ok (Some (e, rest)) \<and> \<not> is_end_stream e \<and>
      scan_envelope_data ''received compressed message without encoding header'' compression encoding M e = Ok m \<and> length m \<le> M \<and>
      spec_decode M None rest = Ok (Some (e', rest')) \<and> is_end_stream e' \<and>
      scan_end_stream ce compression encoding M e' = Ok trailers)"
proof (cases M body rule: scan_cases)
  case stop
  then show ?thesis by (simp add: scan_connect_client_stream_envelopes_def scan_stop)
next
  case (bad x)
  then show ?thesis by (simp add: scan_connect_client_stream_envelopes_def scan_stop)
next
  case (item e rest)
  define fin :: "bytes option \<times> headers \<times> bool \<Rightarrow> (bytes \<times> headers) connect_result" where "fin = (\<lambda>(found, trailers, saw). case found of
        None \<Rightarrow> Err (unimplemented ''client streaming response contains no data messages'')
      | Some m \<Rightarrow> (if saw then Ok (m, trailers) else Err (internal ''Connect streaming response ended without END_STREAM envelope'')))"
  let ?data = "scan_envelope_data ''received compressed message without encoding header'' compression encoding M e"
  have scan: "scan_connect_client_stream_envelopes ce body compression encoding M = result_bind (scan_loop ce compression encoding M body None) fin"
    by (simp add: scan_connect_client_stream_envelopes_def fin_def)
  have second: "result_bind (scan_loop ce compression encoding M rest (Some d)) fin = Ok (m, trailers) \<longleftrightarrow>
    d = m \<and> (\<exists>e' rest'. spec_decode M None rest = Ok (Some (e', rest')) \<and> is_end_stream e' \<and> scan_end_stream ce compression encoding M e' = Ok trailers)" for d
    by (cases M rest rule: scan_cases) (auto simp: fin_def scan_stop scan_step result_bind_Ok_iff)
  show ?thesis
  proof (cases "is_end_stream e")
    case True
    then show ?thesis
      using item by (cases "scan_end_stream ce compression encoding M e") (simp_all add: scan scan_step [OF item] fin_def)
  next
    case False
    then show ?thesis
      using item by (cases ?data) (auto simp: scan scan_step [OF item] second)
  qed
qed

section \<open>Receiving on a bidirectional stream\<close>

text \<open>The answers to \<open>n\<close> polls of \<^verbatim>\<open>message()\<close>, each of a new future or of one that was kept.\<close>

fun recv_run ::
    "('o, 'v) client_env \<Rightarrow> (server_stream connect_result \<Rightarrow> server_stream connect_result task) \<Rightarrow> nat \<Rightarrow> bidi_recv_half \<Rightarrow>
     'v option connect_result poll list" where
  "recv_run ce spawn 0 half = []"
| "recv_run ce spawn (Suc n) half = (let (r, half') = recv_message ce spawn half in r # recv_run ce spawn n half')"

definition outcome_messages :: "('o, 'v) client_env \<Rightarrow> nat \<Rightarrow> server_stream connect_result \<Rightarrow> 'v option connect_result list" where
  "outcome_messages ce n outcome = (case outcome of Ok ss \<Rightarrow> read_messages ce n ss | Err e \<Rightarrow> replicate n (Err e))"

lemma recv_run_failed: "rh_recv half = RecvFailed e \<Longrightarrow> recv_run ce spawn n half = replicate n (Ready (Err e))"
  by (induction n) (simp_all add: recv_message_def)

lemma recv_run_ready: "rh_recv half = StreamReady ss \<Longrightarrow> recv_run ce spawn n half = map Ready (read_messages ce n ss)"
  by (induction n arbitrary: half ss) (auto simp: recv_message_def recv_ready_def split: prod.splits)

lemma constructing_run:
  assumes "recv_message ce spawn half = recv_constructing ce (replicate b Pending @ [Ready (Ok outcome)]) half"
  shows "recv_run ce spawn (b + n) half = replicate b Pending @ map Ready (outcome_messages ce n outcome)"
  using assms
proof (induction b arbitrary: half)
  case 0
  show ?case
  proof (cases n)
    case (Suc k)
    then show ?thesis
      using 0 by (cases outcome)
        (auto simp: recv_constructing_def recv_ready_def outcome_messages_def recv_run_failed recv_run_ready split: prod.splits)
  qed (simp add: outcome_messages_def split: result.splits)
next
  case (Suc b)
  have "recv_message ce spawn (half\<lparr>rh_recv := Constructing (replicate b Pending @ [Ready (Ok outcome)])\<rparr>) =
      recv_constructing ce (replicate b Pending @ [Ready (Ok outcome)]) (half\<lparr>rh_recv := Constructing (replicate b Pending @ [Ready (Ok outcome)])\<rparr>)"
    by (simp add: recv_message_def)
  from Suc.IH [OF this] show ?case using Suc.prems by (simp add: recv_constructing_def)
qed



section \<open>Requests that cannot be built\<close>

lemma builder_header_simps [simp]:
  "builder_header name v None = None" "builder_header name None b = None" "builder_header name (Some x) (Some h) = Some (hm_append name x h)"
  "builder_optional name None b = b" "builder_optional name (Some v) b = builder_header name v b"
  by (simp_all add: builder_header_def builder_optional_def split: option.splits)

lemma unary_headers_refused:
  "add_unary_request_headers t config timeout applied (Some h) = None \<longleftrightarrow>
    (\<exists>enc. (if cfg_protocol config = Connect then applied else request_compression config) = Some enc \<and> value_from_str t enc = None)"
  by (cases "cfg_protocol config"; cases "request_compression config"; cases "accept_encoding (cfg_compression config)";
      cases timeout; cases applied; cases "value_from_str t (the (request_compression config))"; cases "value_from_str t (the applied)")
    (simp_all add: add_unary_request_headers_def Let_def)

lemma streaming_headers_refused:
  "add_streaming_request_headers t config timeout (Some h) = None \<longleftrightarrow>
    (\<exists>enc. request_compression config = Some enc \<and> value_from_str t enc = None)"
  by (cases "cfg_protocol config"; cases "request_compression config"; cases "accept_encoding (cfg_compression config)";
      cases timeout; cases "value_from_str t (the (request_compression config))")
    (simp_all add: add_streaming_request_headers_def Let_def)


end
