(* ===== verification/Reflection.thy ===== *)
theory Reflection
  imports Health Payload "HOL-Library.Monad_Syntax"
begin

unbundle bit_operations_syntax

text \<open>
  Server reflection (\<^verbatim>\<open>connectrpc-reflection\<close>): the descriptor index behind the service
  (\<^verbatim>\<open>reflector.rs\<close>) and the bridge to \<^verbatim>\<open>grpc.reflection.v1\<close> and \<^verbatim>\<open>v1alpha\<close>
  (\<^verbatim>\<open>service.rs\<close>). The descriptor pool, the decoder of a \<^verbatim>\<open>FileDescriptorSet\<close> and the
  \<^verbatim>\<open>Debug\<close> form of a string are library code: a record \<open>pool_ops\<close> of those operations, whose
  documented laws are \<open>pool_laws\<close>. An \<^verbatim>\<open>i32\<close> is a \<open>32 word\<close> read by \<open>sint\<close>. A value that a
  panic or an endless loop would prevent is the \<open>None\<close> of an \<open>option\<close>.
\<close>

section \<open>Slicing a descriptor set\<close>

type_synonym u64 = "64 word"
type_synonym i32 = "32 word"

text \<open>
  The decode error of the protobuf library is split the way the conversion needs it: the
  element-memory variant and every other one.
\<close>

datatype 'o decode_error = ElementMemoryLimitExceeded | OtherDecodeError 'o

datatype ('o, 'pe) reflection_error =
    ReDecode "'o decode_error"
  | ReElementBudget
  | RePool 'pe
  | ReMalformedFraming usize
  | ReUnnamedFile usize
  | ReCountMismatch usize usize
  | ReSharedPool

fun from_decode_error :: "'o decode_error \<Rightarrow> ('o, 'pe) reflection_error" where
  "from_decode_error ElementMemoryLimitExceeded = ReElementBudget"
| "from_decode_error (OtherDecodeError e) = ReDecode (OtherDecodeError e)"

text \<open>One base-128 varint: the loop over the shifts, from the given position.\<close>

fun read_varint_loop :: "nat list \<Rightarrow> bytes \<Rightarrow> usize \<Rightarrow> u64 \<Rightarrow> (u64 \<times> usize) option" where
  "read_varint_loop [] bytes pos value = None"
| "read_varint_loop (shift # shifts) bytes pos value =
     (if pos < length bytes then
        (let byte = bytes ! pos;
             value = value OR push_bit shift (ucast (byte AND 0x7F))
         in if byte AND 0x80 = 0 then Some (value, pos + 1)
            else read_varint_loop shifts bytes (pos + 1) value)
      else None)"

definition VARINT_SHIFTS :: "nat list" where
  "VARINT_SHIFTS = map (\<lambda>i. 7 * i) [0..<10]"

definition read_varint :: "bytes \<Rightarrow> usize \<Rightarrow> (u64 \<times> usize) option" where
  "read_varint bytes pos = read_varint_loop VARINT_SHIFTS bytes pos 0"

text \<open>
  The body of the framing loop: the tag, its field by wire type, and the final position check.
  The file is present when the field is a length-delimited field 1.
\<close>

definition split_step :: "bytes \<Rightarrow> usize \<Rightarrow> (bytes option \<times> usize, ('o, 'pe) reflection_error) result" where
  "split_step bytes tag_offset =
     (let malformed = Err (ReMalformedFraming tag_offset);
          check = (\<lambda>file pos. if pos > length bytes then malformed else Ok (file, pos))
      in case read_varint bytes tag_offset of
           None \<Rightarrow> malformed
         | Some (tag, pos) \<Rightarrow>
             (let field = drop_bit 3 tag; wire_type = tag AND 0x7 in
              if wire_type = 0 then
                (case read_varint bytes pos of None \<Rightarrow> malformed | Some (_, pos) \<Rightarrow> check None pos)
              else if wire_type = 1 then check None (pos + 8)
              else if wire_type = 2 then
                (case read_varint bytes pos of
                   None \<Rightarrow> malformed
                 | Some (len, pos) \<Rightarrow>
                     (let end_pos = pos + unat len in
                      if end_pos \<le> usize_MAX \<and> end_pos \<le> length bytes then
                        check (if field = 1 then Some (take (end_pos - pos) (drop pos bytes)) else None) end_pos
                      else malformed))
              else if wire_type = 5 then check None (pos + 4)
              else malformed))"

lemma read_varint_loop_advances:
  "read_varint_loop shifts bytes pos value = Some (v, p) \<Longrightarrow> pos < p"
proof (induction shifts arbitrary: pos "value")
  case (Cons shift shifts)
  then show ?case by (auto simp: Let_def split: if_splits dest!: Cons.IH)
qed simp

lemma read_varint_advances: "read_varint bytes pos = Some (v, p) \<Longrightarrow> pos < p"
  by (auto simp: read_varint_def dest: read_varint_loop_advances)

lemma split_step_advances:
  "split_step bytes pos = Ok (file, p) \<Longrightarrow> pos < p \<and> p \<le> length bytes"
  by (auto simp: split_step_def Let_def split: option.splits if_splits prod.splits dest!: read_varint_advances)

function split_loop ::
    "bytes \<Rightarrow> usize \<Rightarrow> bytes list \<Rightarrow> (bytes list, ('o, 'pe) reflection_error) result" where
  "split_loop bytes pos files =
     (if pos < length bytes then
        (case split_step bytes pos of
           Err e \<Rightarrow> Err e
         | Ok (file, pos') \<Rightarrow>
             split_loop bytes pos' (case file of Some f \<Rightarrow> files @ [f] | None \<Rightarrow> files))
      else Ok files)"
  by auto
termination
  by (relation "measure (\<lambda>(bytes, pos, files). length bytes - pos)") (auto dest!: split_step_advances)

declare split_loop.simps [simp del]

definition split_descriptor_set :: "bytes \<Rightarrow> (bytes list, ('o, 'pe) reflection_error) result" where
  "split_descriptor_set bytes = split_loop bytes 0 []"

section \<open>The reflector\<close>

text \<open>A \<^verbatim>\<open>FileDescriptorProto\<close>: the two fields the index reads, and the rest of the message.\<close>

record 'x file_descriptor =
  fd_name :: "string option"
  fd_dependency :: "string list"
  fd_rest :: 'x

record ('p, 'x, 'o, 'pe, 'mi) pool_ops =
  po_decode :: "bytes \<Rightarrow> ('x file_descriptor list, 'o decode_error) result"
  po_encode :: "'x file_descriptor \<Rightarrow> bytes"
  po_default :: 'p
  po_new :: "'x file_descriptor list \<Rightarrow> ('p, 'pe) result"
  po_add_file_descriptor_set :: "'p \<Rightarrow> 'x file_descriptor list \<Rightarrow> (unit, 'pe) result \<times> 'p"
  po_files :: "'p \<Rightarrow> 'x file_descriptor list"
  po_services :: "'p \<Rightarrow> string list"
  po_file_by_name :: "'p \<Rightarrow> string \<Rightarrow> 'x file_descriptor option"
  po_file_containing_symbol :: "'p \<Rightarrow> string \<Rightarrow> 'x file_descriptor option"
  po_message_index :: "'p \<Rightarrow> string \<Rightarrow> 'mi option"
  po_extension_for :: "'p \<Rightarrow> 'mi \<Rightarrow> u32 \<Rightarrow> string option"
  po_extensions_of :: "'p \<Rightarrow> 'mi \<Rightarrow> u32 list"
  po_debug :: "string \<Rightarrow> string"

text \<open>
  \<open>rf_unique\<close> says that the reflector's \<^verbatim>\<open>Arc\<close> is the only reference to the pool, which is
  what \<^verbatim>\<open>Arc::get_mut\<close> asks.
\<close>

record 'p reflector =
  rf_pool :: 'p
  rf_unique :: bool
  rf_response_bytes :: "(string \<times> bytes) list"
  rf_services_override :: "string list option"

text \<open>\<^verbatim>\<open>HashMap::entry(k).or_insert_with(v)\<close>.\<close>

definition entry_or_insert :: "string \<Rightarrow> bytes \<Rightarrow> (string \<times> bytes) list \<Rightarrow> (string \<times> bytes) list" where
  "entry_or_insert k v m = (case map_of m k of None \<Rightarrow> AList.update k v m | Some _ \<Rightarrow> m)"

text \<open>The loop that collects the names, with the index of the first nameless file as its error.\<close>

fun collect_names :: "usize \<Rightarrow> 'x file_descriptor list \<Rightarrow> (string list, ('o, 'pe) reflection_error) result" where
  "collect_names index [] = Ok []"
| "collect_names index (fd # fds) =
     (case fd_name fd of
        None \<Rightarrow> Err (ReUnnamedFile index)
      | Some name \<Rightarrow> result_map (\<lambda>names. name # names) (collect_names (index + 1) fds))"

text \<open>The reflector is returned beside the result, since a failed merge leaves what it changed.\<close>

definition add_descriptor_set_bytes ::
    "('p, 'x, 'o, 'pe, 'mi) pool_ops \<Rightarrow> bytes \<Rightarrow> 'p reflector \<Rightarrow>
     (unit, ('o, 'pe) reflection_error) result \<times> 'p reflector" where
  "add_descriptor_set_bytes ops bytes r =
     (case split_descriptor_set bytes of
        Err e \<Rightarrow> (Err e, r)
      | Ok raw_files \<Rightarrow>
     (case po_decode ops bytes of
        Err e \<Rightarrow> (Err (from_decode_error e), r)
      | Ok file_set \<Rightarrow>
          if length raw_files \<noteq> length file_set
          then (Err (ReCountMismatch (length raw_files) (length file_set)), r)
          else
     (case collect_names 0 file_set of
        Err e \<Rightarrow> (Err e, r)
      | Ok names \<Rightarrow>
          if \<not> rf_unique r then (Err ReSharedPool, r)
          else
     (case po_add_file_descriptor_set ops (rf_pool r) file_set of
        (Err e, pool) \<Rightarrow> (Err (RePool e), r\<lparr>rf_pool := pool\<rparr>)
      | (Ok _, pool) \<Rightarrow>
          (Ok (), r\<lparr>rf_pool := pool,
                    rf_response_bytes :=
                      fold (\<lambda>(name, raw). entry_or_insert name raw) (zip names raw_files)
                        (rf_response_bytes r)\<rparr>)))))"

definition from_descriptor_set_bytes ::
    "('p, 'x, 'o, 'pe, 'mi) pool_ops \<Rightarrow> bytes \<Rightarrow> ('p reflector, ('o, 'pe) reflection_error) result" where
  "from_descriptor_set_bytes ops bytes =
     (case add_descriptor_set_bytes ops bytes
             \<lparr>rf_pool = po_default ops, rf_unique = True, rf_response_bytes = [], rf_services_override = None\<rparr> of
        (Ok _, r) \<Rightarrow> Ok r
      | (Err e, _) \<Rightarrow> Err e)"

fun encode_files ::
    "('x file_descriptor \<Rightarrow> bytes) \<Rightarrow> usize \<Rightarrow> 'x file_descriptor list \<Rightarrow> (string \<times> bytes) list \<Rightarrow>
     ((string \<times> bytes) list, ('o, 'pe) reflection_error) result" where
  "encode_files encode index [] m = Ok m"
| "encode_files encode index (fd # fds) m =
     (case fd_name fd of
        None \<Rightarrow> Err (ReUnnamedFile index)
      | Some name \<Rightarrow> encode_files encode (index + 1) fds (entry_or_insert name (encode fd) m))"

definition from_descriptor_pool ::
    "('p, 'x, 'o, 'pe, 'mi) pool_ops \<Rightarrow> 'p \<Rightarrow> bool \<Rightarrow> ('p reflector, ('o, 'pe) reflection_error) result" where
  "from_descriptor_pool ops pool unique =
     result_map (\<lambda>m. \<lparr>rf_pool = pool, rf_unique = unique, rf_response_bytes = m, rf_services_override = None\<rparr>)
       (encode_files (po_encode ops) 0 (po_files ops pool) [])"

definition reflector_with_services :: "string list \<Rightarrow> 'p reflector \<Rightarrow> 'p reflector" where
  "reflector_with_services names r = r\<lparr>rf_services_override := Some names\<rparr>"

section \<open>Queries\<close>

record 'p descriptor_source =
  ds_pool :: 'p
  ds_response_bytes :: "(string \<times> bytes) list"

text \<open>
  The crate's own descriptors, from the embedded set. Each \<^verbatim>\<open>expect\<close> is a panic; collecting
  into the map keeps the last entry of a name.
\<close>

definition self_descriptors ::
    "('p, 'x, 'o, 'pe, 'mi) pool_ops \<Rightarrow> bytes \<Rightarrow> 'p descriptor_source option" where
  "self_descriptors ops embedded =
     (case (split_descriptor_set embedded :: (bytes list, ('o, 'pe) reflection_error) result) of
        Err _ \<Rightarrow> None
      | Ok raw_files \<Rightarrow>
     (case po_decode ops embedded of
        Err _ \<Rightarrow> None
      | Ok file_set \<Rightarrow>
          (let response_bytes =
                 fold (\<lambda>(fd, raw) m. case fd_name fd of Some name \<Rightarrow> AList.update name raw m | None \<Rightarrow> m)
                   (zip file_set raw_files) []
           in case po_new ops file_set of
                Err _ \<Rightarrow> None
              | Ok pool \<Rightarrow> Some \<lparr>ds_pool = pool, ds_response_bytes = response_bytes\<rparr>)))"

definition service_names ::
    "('p, 'x, 'o, 'pe, 'mi) pool_ops \<Rightarrow> bytes \<Rightarrow> 'p reflector \<Rightarrow> string list option" where
  "service_names ops embedded r =
     (case rf_services_override r of
        Some names \<Rightarrow> Some names
      | None \<Rightarrow>
          map_option
            (\<lambda>own. fold (\<lambda>own_name names. if own_name \<in> set names then names else names @ [own_name])
                     (po_services ops (ds_pool own)) (po_services ops (rf_pool r)))
            (self_descriptors ops embedded))"

definition sources ::
    "('p, 'x, 'o, 'pe, 'mi) pool_ops \<Rightarrow> bytes \<Rightarrow> 'p reflector \<Rightarrow> 'p descriptor_source list option" where
  "sources ops embedded r =
     map_option
       (\<lambda>own. [\<lparr>ds_pool = rf_pool r, ds_response_bytes = rf_response_bytes r\<rparr>, own])
       (self_descriptors ops embedded)"

text \<open>
  The closure's work list is the \<^verbatim>\<open>Vec\<close> with its top at the end; \<open>seen\<close> is the set of names.
\<close>

partial_function (option) closure_loop ::
    "(string \<Rightarrow> 'x file_descriptor option) \<Rightarrow> (string \<times> bytes) list \<Rightarrow> string list \<Rightarrow> bytes list \<Rightarrow>
     'x file_descriptor list \<Rightarrow> bytes list option" where
  "closure_loop file_by_name response_bytes seen out stack =
     (if stack = [] then Some out
      else
        (let fd = last stack; stack = butlast stack in
         case fd_name fd of
           None \<Rightarrow> closure_loop file_by_name response_bytes seen out stack
         | Some name \<Rightarrow>
             if name \<in> set seen then closure_loop file_by_name response_bytes seen out stack
             else closure_loop file_by_name response_bytes (name # seen)
                    (case map_of response_bytes name of Some bytes \<Rightarrow> out @ [bytes] | None \<Rightarrow> out)
                    (stack @ List.map_filter file_by_name (fd_dependency fd))))"

definition closure ::
    "('p, 'x, 'o, 'pe, 'mi) pool_ops \<Rightarrow> 'p descriptor_source \<Rightarrow> 'x file_descriptor \<Rightarrow> bytes list option" where
  "closure ops source fd =
     closure_loop (po_file_by_name ops (ds_pool source)) (ds_response_bytes source) [] [] [fd]"

definition reflection_echoed :: "(string \<Rightarrow> string) \<Rightarrow> string \<Rightarrow> string" where
  "reflection_echoed debug name =
     (if length name \<le> MAX_ECHOED_NAME_BYTES then debug name
      else debug (take (floor_boundary name MAX_ECHOED_NAME_BYTES) name) @ ''... [name truncated, '' @
        show_nat (length name) @ '' bytes]'')"

datatype answer =
    Files "bytes list"
  | ExtensionNumbers string "i32 list"
  | Services "string list"
  | NotFoundAnswer string

fun files_of_sources ::
    "('p, 'x, 'o, 'pe, 'mi) pool_ops \<Rightarrow> ('p \<Rightarrow> 'x file_descriptor option) \<Rightarrow> 'p descriptor_source list \<Rightarrow>
     string \<Rightarrow> answer option" where
  "files_of_sources ops look [] missing = Some (NotFoundAnswer missing)"
| "files_of_sources ops look (source # rest) missing =
     (case look (ds_pool source) of
        Some fd \<Rightarrow> map_option Files (closure ops source fd)
      | None \<Rightarrow> files_of_sources ops look rest missing)"

definition file_by_filename ::
    "('p, 'x, 'o, 'pe, 'mi) pool_ops \<Rightarrow> bytes \<Rightarrow> 'p reflector \<Rightarrow> string \<Rightarrow> answer option" where
  "file_by_filename ops embedded r name =
     do {
       srcs \<leftarrow> sources ops embedded r;
       files_of_sources ops (\<lambda>pool. po_file_by_name ops pool name) srcs
         (''file '' @ reflection_echoed (po_debug ops) name @ '' not found'')
     }"

definition file_containing_symbol ::
    "('p, 'x, 'o, 'pe, 'mi) pool_ops \<Rightarrow> bytes \<Rightarrow> 'p reflector \<Rightarrow> string \<Rightarrow> answer option" where
  "file_containing_symbol ops embedded r symbol =
     do {
       srcs \<leftarrow> sources ops embedded r;
       files_of_sources ops (\<lambda>pool. po_file_containing_symbol ops pool symbol) srcs
         (''symbol '' @ reflection_echoed (po_debug ops) symbol @ '' not found'')
     }"

text \<open>Decimal text of an \<^verbatim>\<open>i32\<close>, and the checked conversions between \<^verbatim>\<open>i32\<close> and \<^verbatim>\<open>u32\<close>.\<close>

definition show_i32 :: "i32 \<Rightarrow> string" where
  "show_i32 w = (if sint w < 0 then CHR ''-'' # show_nat (nat (- sint w)) else show_nat (nat (sint w)))"

definition u32_try_from_i32 :: "i32 \<Rightarrow> u32 option" where
  "u32_try_from_i32 w = (if sint w < 0 then None else Some w)"

definition i32_try_from_u32 :: "u32 \<Rightarrow> i32 option" where
  "i32_try_from_u32 w = (if unat w \<le> 2147483647 then Some w else None)"

fun extension_in_sources ::
    "('p, 'x, 'o, 'pe, 'mi) pool_ops \<Rightarrow> string \<Rightarrow> u32 \<Rightarrow> 'p descriptor_source list \<Rightarrow> answer \<Rightarrow> answer option" where
  "extension_in_sources ops containing_type number [] missing = Some missing"
| "extension_in_sources ops containing_type number (source # rest) missing =
     (case po_message_index ops (ds_pool source) containing_type of
        None \<Rightarrow> extension_in_sources ops containing_type number rest missing
      | Some extendee \<Rightarrow>
     (case po_extension_for ops (ds_pool source) extendee number of
        None \<Rightarrow> Some missing
      | Some full_name \<Rightarrow>
     (case po_file_containing_symbol ops (ds_pool source) full_name of
        Some fd \<Rightarrow> map_option Files (closure ops source fd)
      | None \<Rightarrow> Some missing)))"

definition file_containing_extension ::
    "('p, 'x, 'o, 'pe, 'mi) pool_ops \<Rightarrow> bytes \<Rightarrow> 'p reflector \<Rightarrow> string \<Rightarrow> i32 \<Rightarrow> answer option" where
  "file_containing_extension ops embedded r containing_type number =
     (let missing = NotFoundAnswer (''extension '' @ show_i32 number @ '' of type '' @
            reflection_echoed (po_debug ops) containing_type @ '' not found'')
      in case u32_try_from_i32 number of
           None \<Rightarrow> Some missing
         | Some number \<Rightarrow>
             do {
               srcs \<leftarrow> sources ops embedded r;
               extension_in_sources ops containing_type number srcs missing
             })"

fun extension_numbers_in_sources ::
    "('p, 'x, 'o, 'pe, 'mi) pool_ops \<Rightarrow> string \<Rightarrow> 'p descriptor_source list \<Rightarrow> answer \<Rightarrow> answer" where
  "extension_numbers_in_sources ops normalized [] missing = missing"
| "extension_numbers_in_sources ops normalized (source # rest) missing =
     (case po_message_index ops (ds_pool source) normalized of
        None \<Rightarrow> extension_numbers_in_sources ops normalized rest missing
      | Some extendee \<Rightarrow>
          ExtensionNumbers normalized
            (List.map_filter i32_try_from_u32 (po_extensions_of ops (ds_pool source) extendee)))"

definition all_extension_numbers_of_type ::
    "('p, 'x, 'o, 'pe, 'mi) pool_ops \<Rightarrow> bytes \<Rightarrow> 'p reflector \<Rightarrow> string \<Rightarrow> answer option" where
  "all_extension_numbers_of_type ops embedded r name =
     (let normalized = (case strip_prefix ''.'' name of Some n \<Rightarrow> n | None \<Rightarrow> name) in
      do {
        srcs \<leftarrow> sources ops embedded r;
        Some (extension_numbers_in_sources ops normalized srcs
          (NotFoundAnswer (''message '' @ reflection_echoed (po_debug ops) name @ '' not found'')))
      })"

definition list_services ::
    "('p, 'x, 'o, 'pe, 'mi) pool_ops \<Rightarrow> bytes \<Rightarrow> 'p reflector \<Rightarrow> answer option" where
  "list_services ops embedded r = map_option Services (service_names ops embedded r)"

section \<open>The service\<close>

datatype message_request =
    FileByFilename string
  | FileContainingSymbol string
  | FileContainingExtension string i32
  | AllExtensionNumbersOfType string
  | ListServices string

record reflection_request =
  rq_host :: string
  rq_message_request :: "message_request option"

datatype message_response =
    FileDescriptorResponse "bytes list"
  | ExtensionNumberResponse string "i32 list"
  | ListServiceResponse "string list"
  | ErrorResponse i32 string

record reflection_response =
  rs_valid_host :: string
  rs_original_request :: "reflection_request option"
  rs_message_response :: "message_response option"

definition answer_query ::
    "('p, 'x, 'o, 'pe, 'mi) pool_ops \<Rightarrow> bytes \<Rightarrow> 'p reflector \<Rightarrow> message_request \<Rightarrow> answer option" where
  "answer_query ops embedded r q =
     (case q of
        FileByFilename name \<Rightarrow> file_by_filename ops embedded r name
      | FileContainingSymbol symbol \<Rightarrow> file_containing_symbol ops embedded r symbol
      | FileContainingExtension containing_type number \<Rightarrow>
          file_containing_extension ops embedded r containing_type number
      | AllExtensionNumbersOfType name \<Rightarrow> all_extension_numbers_of_type ops embedded r name
      | ListServices _ \<Rightarrow> list_services ops embedded r)"

fun response_of_answer :: "answer \<Rightarrow> message_response" where
  "response_of_answer (Files fs) = FileDescriptorResponse fs"
| "response_of_answer (ExtensionNumbers base_type numbers) = ExtensionNumberResponse base_type numbers"
| "response_of_answer (Services names) = ListServiceResponse names"
| "response_of_answer (NotFoundAnswer m) = ErrorResponse 5 m"

definition respond ::
    "('p, 'x, 'o, 'pe, 'mi) pool_ops \<Rightarrow> bytes \<Rightarrow> 'p reflector \<Rightarrow> reflection_request \<Rightarrow>
     reflection_response connect_result option" where
  "respond ops embedded r request =
     (case rq_message_request request of
        None \<Rightarrow> Some (Err (invalid_argument ''ServerReflectionRequest.message_request is not set''))
      | Some q \<Rightarrow>
          map_option
            (\<lambda>a. Ok \<lparr>rs_valid_host = rq_host request, rs_original_request = Some request,
                      rs_message_response = Some (response_of_answer a)\<rparr>)
            (answer_query ops embedded r q))"

text \<open>The response stream maps the request stream; an item that fails to decode is passed on.\<close>

definition server_reflection_info ::
    "('p, 'x, 'o, 'pe, 'mi) pool_ops \<Rightarrow> bytes \<Rightarrow> 'p reflector \<Rightarrow> reflection_request connect_result list \<Rightarrow>
     reflection_response connect_result option list response connect_result" where
  "server_reflection_info ops embedded r requests =
     response_ok
       (map (\<lambda>request. case request of Err e \<Rightarrow> Some (Err e) | Ok rq \<Rightarrow> respond ops embedded r rq) requests)"

definition REFLECTION_MAX_REQUEST_BYTES :: usize where
  "REFLECTION_MAX_REQUEST_BYTES = 16 * 1024"

definition reflection_request_limits :: "usize \<Rightarrow> limits" where
  "reflection_request_limits buffa_DEFAULT_ELEMENT_MEMORY_LIMIT =
     with_element_memory_limit (4 * REFLECTION_MAX_REQUEST_BYTES)
       (with_max_message_size REFLECTION_MAX_REQUEST_BYTES
         (with_max_request_body_size (REFLECTION_MAX_REQUEST_BYTES + HEADER_SIZE)
           (limits_default buffa_DEFAULT_ELEMENT_MEMORY_LIMIT)))"

definition REFLECTION_V1_SPEC :: spec where
  "REFLECTION_V1_SPEC = \<lparr>procedure = ''/grpc.reflection.v1.ServerReflection/ServerReflectionInfo'',
     spec_stream_type = StBidiStream, spec_origin_of = OriginServer, spec_idempotency_level = LevelUnknown\<rparr>"

definition REFLECTION_V1ALPHA_SPEC :: spec where
  "REFLECTION_V1ALPHA_SPEC = \<lparr>procedure = ''/grpc.reflection.v1alpha.ServerReflection/ServerReflectionInfo'',
     spec_stream_type = StBidiStream, spec_origin_of = OriginServer, spec_idempotency_level = LevelUnknown\<rparr>"

fun apply_limits_loop ::
    "limits \<Rightarrow> spec list \<Rightarrow> bool \<Rightarrow> ('ctx, 'pay, 'reqs, 'ures, 'sres) router \<Rightarrow>
     ('ctx, 'pay, 'reqs, 'ures, 'sres) router option" where
  "apply_limits_loop l [] applied r = (if applied then Some r else None)"
| "apply_limits_loop l (s # specs) applied r =
     (if has_method r (procedure s)
      then Option.bind (with_route_limits (procedure s) l r) (apply_limits_loop l specs True)
      else apply_limits_loop l specs applied r)"

definition reflection_apply_request_limits ::
    "limits \<Rightarrow> ('ctx, 'pay, 'reqs, 'ures, 'sres) router \<Rightarrow> ('ctx, 'pay, 'reqs, 'ures, 'sres) router option" where
  "reflection_apply_request_limits l r =
     apply_limits_loop l [REFLECTION_V1_SPEC, REFLECTION_V1ALPHA_SPEC] False r"

text \<open>The two generated \<^verbatim>\<open>ServerReflectionExt::register\<close> functions.\<close>

definition reflection_register_v1 ::
    "bool \<Rightarrow> ('h \<Rightarrow> ('ctx, 'reqs, 'sres) erased_handler) \<Rightarrow> 'h \<Rightarrow>
     ('ctx, 'pay, 'reqs, 'ures, 'sres) router \<Rightarrow> ('ctx, 'pay, 'reqs, 'ures, 'sres) router option" where
  "reflection_register_v1 debug wrap svc r =
     Option.bind (route_view_bidi_stream wrap ''grpc.reflection.v1.ServerReflection'' ''ServerReflectionInfo'' svc r)
       (with_spec debug REFLECTION_V1_SPEC)"

definition reflection_register_v1alpha ::
    "bool \<Rightarrow> ('h \<Rightarrow> ('ctx, 'reqs, 'sres) erased_handler) \<Rightarrow> 'h \<Rightarrow>
     ('ctx, 'pay, 'reqs, 'ures, 'sres) router \<Rightarrow> ('ctx, 'pay, 'reqs, 'ures, 'sres) router option" where
  "reflection_register_v1alpha debug wrap svc r =
     Option.bind (route_view_bidi_stream wrap ''grpc.reflection.v1alpha.ServerReflection'' ''ServerReflectionInfo'' svc r)
       (with_spec debug REFLECTION_V1ALPHA_SPEC)"

definition reflection_install ::
    "bool \<Rightarrow> usize \<Rightarrow> ('p reflector \<Rightarrow> ('ctx, 'reqs, 'sres) erased_handler) \<Rightarrow>
     ('p reflector \<Rightarrow> ('ctx, 'reqs, 'sres) erased_handler) \<Rightarrow>
     ('ctx, 'pay, 'reqs, 'ures, 'sres) router \<Rightarrow> 'p reflector \<Rightarrow>
     ('ctx, 'pay, 'reqs, 'ures, 'sres) router option" where
  "reflection_install debug element_limit wrap_v1 wrap_v1alpha r reflector =
     do {
       r \<leftarrow> reflection_register_v1 debug wrap_v1 reflector r;
       r \<leftarrow> reflection_register_v1alpha debug wrap_v1alpha reflector r;
       reflection_apply_request_limits (reflection_request_limits element_limit) r
     }"

section \<open>The framing walk inverts the protobuf framing\<close>

text \<open>The base-128 encoding of a number, seven bits to a byte.\<close>

fun leb128 :: "nat \<Rightarrow> bytes" where
  "leb128 n = (if n < 128 then [word_of_nat n] else word_of_nat (128 + n mod 128) # leb128 (n div 128))"

declare leb128.simps [simp del]

text \<open>A top-level field of the set by wire type, and its encoding.\<close>

datatype wire_field =
    WfVarint nat nat
  | WfFixed64 nat bytes
  | WfLen nat bytes
  | WfFixed32 nat bytes

fun field_wf :: "wire_field \<Rightarrow> bool" where
  "field_wf (WfVarint k v) = (k < 2 ^ 29 \<and> v < 2 ^ 64)"
| "field_wf (WfFixed64 k b) = (k < 2 ^ 29 \<and> length b = 8)"
| "field_wf (WfLen k b) = (k < 2 ^ 29 \<and> length b < 2 ^ 64)"
| "field_wf (WfFixed32 k b) = (k < 2 ^ 29 \<and> length b = 4)"

fun encode_field :: "wire_field \<Rightarrow> bytes" where
  "encode_field (WfVarint k v) = leb128 (8 * k) @ leb128 v"
| "encode_field (WfFixed64 k b) = leb128 (8 * k + 1) @ b"
| "encode_field (WfLen k b) = leb128 (8 * k + 2) @ leb128 (length b) @ b"
| "encode_field (WfFixed32 k b) = leb128 (8 * k + 5) @ b"

fun file_field :: "wire_field \<Rightarrow> bytes option" where
  "file_field (WfLen k b) = (if k = 1 then Some b else None)"
| "file_field _ = None"

lemma push_bit_split:
  "push_bit s (word_of_nat (n mod 128)) OR push_bit (s + 7) (word_of_nat (n div 128)) =
   (push_bit s (word_of_nat n) :: u64)"
proof -
  have a: "n mod 128 = take_bit 7 n" "n div 128 = drop_bit 7 n"
    by (simp_all add: take_bit_eq_mod drop_bit_eq_div)
  show ?thesis unfolding a
  proof (rule bit_eqI)
    fix i :: nat assume "possible_bit TYPE(u64) i"
    then show "bit (push_bit s (word_of_nat (take_bit 7 n)) OR push_bit (s + 7) (word_of_nat (drop_bit 7 n)) :: u64) i =
        bit (push_bit s (word_of_nat n) :: u64) i"
    proof (cases "s + 7 \<le> i")
      case True
      then obtain j where "i = s + 7 + j" using le_Suc_ex by blast
      then show ?thesis
        by (auto simp: bit_or_iff bit_push_bit_iff bit_of_nat_iff bit_take_bit_iff bit_drop_bit_eq)
    qed (auto simp: bit_or_iff bit_push_bit_iff bit_of_nat_iff bit_take_bit_iff)
  qed
qed

lemma varint_low_bits: "ucast ((word_of_nat n :: byte) AND 0x7F) = (word_of_nat (n mod 128) :: u64)"
proof -
  have m: "(0x7F :: byte) = mask 7" by (simp add: mask_eq_exp_minus_1)
  have a: "n mod 128 = take_bit 7 n" by (simp add: take_bit_eq_mod)
  show ?thesis unfolding m a
    by (rule bit_eqI) (auto simp: bit_ucast_iff bit_and_iff bit_mask_iff bit_of_nat_iff bit_take_bit_iff)
qed

lemma varint_more_bit: "(word_of_nat n :: byte) AND 0x80 = 0 \<longleftrightarrow> even (n div 128)"
proof -
  have m: "(0x80 :: byte) = 2 ^ 7" by simp
  show ?thesis unfolding m and_exp_eq_0_iff_not_bit bit_of_nat_iff by (simp add: bit_iff_odd)
qed

lemma read_varint_loop_leb128:
  assumes "k < 10" "n < 2 ^ (7 * (10 - k))"
  shows "read_varint_loop (map (\<lambda>i. 7 * i) [k..<10]) (pre @ leb128 n @ post) (length pre) v =
    Some (v OR push_bit (7 * k) (word_of_nat n), length pre + length (leb128 n))"
  using assms
proof (induction n arbitrary: k pre v rule: leb128.induct)
  case (1 n)
  have upt: "[k..<10] = k # [Suc k..<10]" using 1(2) by (simp add: upt_conv_Cons)
  show ?case
  proof (cases "n < 128")
    case True
    then have "leb128 n = [word_of_nat n]" by (simp add: leb128.simps)
    then show ?thesis using True by (simp add: upt nth_append varint_more_bit varint_low_bits del: upt_Suc)
  next
    case False
    have lb: "leb128 n = word_of_nat (128 + n mod 128) # leb128 (n div 128)" using False by (subst leb128.simps) simp
    have k: "Suc k < 10" 
    proof (rule ccontr)
      assume "\<not> Suc k < 10"
      then have "k = 9" using 1(2) by simp
      then show False using 1(3) False by simp
    qed
    have e: "7 * (10 - k) = 7 + 7 * (10 - Suc k)" using k by simp
    have n: "n div 128 < 2 ^ (7 * (10 - Suc k))"
      using 1(3) unfolding e power_add by (simp add: less_mult_imp_div_less mult.commute)
    let ?b = "word_of_nat (128 + n mod 128) :: byte"
    have "(128 + n mod 128) div 128 = 1" by (rule div_nat_eqI) simp_all
    then have more: "?b AND 0x80 \<noteq> 0" and low: "ucast (?b AND 0x7F) = (word_of_nat (n mod 128) :: u64)"
      by (simp_all only: varint_more_bit varint_low_bits) simp_all
    have bits: "push_bit (7 * k) (word_of_nat (n mod 128)) OR push_bit (7 * Suc k) (word_of_nat (n div 128)) =
        (push_bit (7 * k) (word_of_nat n) :: u64)"
      using push_bit_split [of "7 * k" n] by (simp add: add.commute)
    have "read_varint_loop (map (\<lambda>i. 7 * i) [k..<10]) (pre @ leb128 n @ post) (length pre) v =
        read_varint_loop (map (\<lambda>i. 7 * i) [Suc k..<10]) ((pre @ [?b]) @ leb128 (n div 128) @ post)
          (length (pre @ [?b])) (v OR push_bit (7 * k) (word_of_nat (n mod 128)))"
      using more by (simp only: upt lb list.map read_varint_loop.simps Let_def append_Cons append_assoc nth_append_length
          low length_append) simp
    also have "\<dots> = Some (v OR push_bit (7 * k) (word_of_nat n), length pre + length (leb128 n))"
      by (subst 1(1) [OF False k n]) (simp only: or.assoc bits, simp add: lb)
    finally show ?thesis .
  qed
qed

lemma read_varint_leb128:
  assumes "n < 2 ^ 64"
  shows "read_varint (pre @ leb128 n @ post) (length pre) = Some (word_of_nat n, length pre + length (leb128 n))"
proof -
  have "n < 2 ^ (7 * (10 - 0))" using assms by simp
  from read_varint_loop_leb128 [OF _ this, of pre post 0] show ?thesis
    by (simp add: read_varint_def VARINT_SHIFTS_def)
qed

lemma tag_parts:
  assumes "k < 2 ^ 29" "w < 8"
  shows "drop_bit 3 (word_of_nat (8 * k + w) :: u64) = word_of_nat k"
    and "(word_of_nat (8 * k + w) :: u64) AND 0x7 = word_of_nat w"
proof -
  have u: "unat (word_of_nat (8 * k + w) :: u64) = 8 * k + w"
    using assms by (simp add: unat_word_ariths unat_of_nat)
  have s: "unat (word_of_nat k :: u64) = k" "unat (word_of_nat w :: u64) = w"
    using assms by (simp_all add: unat_of_nat)
  show "drop_bit 3 (word_of_nat (8 * k + w) :: u64) = word_of_nat k"
    using assms unfolding word_unat_eq_iff unat_drop_bit_eq u s by (simp add: drop_bit_eq_div)
  have m: "(0x7 :: u64) = mask 3" by (simp add: mask_eq_exp_minus_1)
  show "(word_of_nat (8 * k + w) :: u64) AND 0x7 = word_of_nat w"
    using assms unfolding m take_bit_eq_mask [symmetric] word_unat_eq_iff unsigned_take_bit_eq u s
    by (simp add: take_bit_eq_mod)
qed

lemma word_of_nat_one_iff: "k < 2 ^ 29 \<Longrightarrow> (word_of_nat k :: u64) = 1 \<longleftrightarrow> k = 1"
  by (auto simp: unat_of_nat dest: arg_cong [where f = unat])

lemma split_step_field:
  assumes "field_wf f" "length (pre @ encode_field f @ post) \<le> usize_MAX"
  shows "split_step (pre @ encode_field f @ post) (length pre) =
    Ok (file_field f, length pre + length (encode_field f))"
proof (cases f)
  case (WfVarint k v)
  have "8 * k < 2 ^ 64" using assms(1) WfVarint by simp
  note tag = read_varint_leb128 [OF this, of pre "leb128 v @ post"]
  from assms(1) WfVarint have "v < 2 ^ 64" by simp
  note val = read_varint_leb128 [OF this, of "pre @ leb128 (8 * k)" post]
  show ?thesis using tag val assms WfVarint tag_parts [of k 0] by (simp add: split_step_def Let_def)
next
  case (WfLen k b)
  have "8 * k + 2 < 2 ^ 64" using assms(1) WfLen by simp
  note tag = read_varint_leb128 [OF this, of pre "leb128 (length b) @ b @ post"]
  from assms(1) WfLen have l: "length b < 2 ^ 64" by simp
  note val = read_varint_leb128 [OF this, of "pre @ leb128 (8 * k + 2)" "b @ post"]
  have "unat (word_of_nat (length b) :: u64) = length b" using l by (simp add: unat_of_nat)
  then show ?thesis using tag val assms WfLen tag_parts [of k 2] word_of_nat_one_iff [of k]
    by (simp add: split_step_def Let_def)
next
  case (WfFixed64 k b)
  have "8 * k + 1 < 2 ^ 64" using assms(1) WfFixed64 by simp
  note tag = read_varint_leb128 [OF this, of pre "b @ post"]
  show ?thesis using tag assms WfFixed64 tag_parts [of k 1] by (simp add: split_step_def Let_def)
next
  case (WfFixed32 k b)
  have "8 * k + 5 < 2 ^ 64" using assms(1) WfFixed32 by simp
  note tag = read_varint_leb128 [OF this, of pre "b @ post"]
  show ?thesis using tag assms WfFixed32 tag_parts [of k 5] by (simp add: split_step_def Let_def)
qed

lemma leb128_nonempty [simp]: "leb128 n \<noteq> []"
  by (subst leb128.simps) simp

lemma encode_field_nonempty: "0 < length (encode_field f)"
  by (cases f) simp_all

lemma read_varint_loop_cut:
  "j < length (leb128 n) \<Longrightarrow> read_varint_loop shifts (pre @ take j (leb128 n)) (length pre) v = None"
proof (induction n arbitrary: shifts pre v j rule: leb128.induct)
  case (1 n)
  show ?case
  proof (cases "j = 0 \<or> shifts = []")
    case True
    then show ?thesis by (cases shifts) auto
  next
    case False
    then obtain i s ss where j: "j = Suc i" and shifts: "shifts = s # ss"
      by (metis list.exhaust not0_implies_Suc)
    with 1(2) have n: "\<not> n < 128" by (subst (asm) leb128.simps) (auto split: if_splits)
    let ?b = "word_of_nat (128 + n mod 128) :: byte"
    have lb: "leb128 n = ?b # leb128 (n div 128)" using n by (subst leb128.simps) simp
    have "(128 + n mod 128) div 128 = 1" by (rule div_nat_eqI) simp_all
    then have more: "?b AND 0x80 \<noteq> 0" by (simp only: varint_more_bit) simp
    from 1(2) j lb have "i < length (leb128 (n div 128))" by simp
    from 1(1) [OF n this, of ss "pre @ [?b]"] show ?thesis
      using more by (simp add: shifts j lb Let_def del: of_nat_add)
  qed
qed

lemma read_varint_cut: "j < length (leb128 n) \<Longrightarrow> read_varint (pre @ take j (leb128 n)) (length pre) = None"
  by (simp add: read_varint_def read_varint_loop_cut)

lemma split_step_cut:
  assumes wf: "field_wf f" and j: "j < length (encode_field f)"
  shows "split_step (pre @ take j (encode_field f)) (length pre) = Err (ReMalformedFraming (length pre))"
proof -
  have short: ?thesis if "encode_field f = leb128 t @ rest" "j < length (leb128 t)" for t rest
    using that read_varint_cut [of j t pre] by (simp add: split_step_def)
  show ?thesis
  proof (cases f)
    case (WfVarint k v)
    note short = short [of "8 * k" "leb128 v"]
    have "8 * k < 2 ^ 64" using wf WfVarint by simp
    note tag = read_varint_leb128 [OF this, of pre]
    show ?thesis
    proof (cases "j < length (leb128 (8 * k))")
      case False
      then have "j - length (leb128 (8 * k)) < length (leb128 v)" using j WfVarint by simp
      from read_varint_cut [OF this, of "pre @ leb128 (8 * k)"] show ?thesis
        using False tag wf WfVarint tag_parts [of k 0] by (simp add: split_step_def Let_def)
    qed (use short WfVarint in simp)
  next
    case (WfLen k b)
    note short = short [of "8 * k + 2" "leb128 (length b) @ b"]
    have "8 * k + 2 < 2 ^ 64" using wf WfLen by simp
    note tag = read_varint_leb128 [OF this, of pre]
    have l: "length b < 2 ^ 64" using wf WfLen by simp
    note len = read_varint_leb128 [OF l, of "pre @ leb128 (8 * k + 2)"]
    have u: "unat (word_of_nat (length b) :: u64) = length b" using l by (simp add: unat_of_nat)
    show ?thesis
    proof (cases "j < length (leb128 (8 * k + 2))")
      case False
      show ?thesis
      proof (cases "j - length (leb128 (8 * k + 2)) < length (leb128 (length b))")
        case True
        from read_varint_cut [OF True, of "pre @ leb128 (8 * k + 2)"] show ?thesis
          using False True tag wf WfLen tag_parts [of k 2] by (simp add: split_step_def Let_def)
      next
        case cut: False
        then show ?thesis
          using False tag len u wf j WfLen tag_parts [of k 2] by (simp add: split_step_def Let_def)
      qed
    qed (use short WfLen in simp)
  next
    case (WfFixed64 k b)
    have "8 * k + 1 < 2 ^ 64" using wf WfFixed64 by simp
    note tag = read_varint_leb128 [OF this, of pre]
    show ?thesis using short [of "8 * k + 1" b] tag wf j WfFixed64 tag_parts [of k 1]
      by (cases "j < length (leb128 (8 * k + 1))") (simp_all add: split_step_def Let_def)
  next
    case (WfFixed32 k b)
    have "8 * k + 5 < 2 ^ 64" using wf WfFixed32 by simp
    note tag = read_varint_leb128 [OF this, of pre]
    show ?thesis using short [of "8 * k + 5" b] tag wf j WfFixed32 tag_parts [of k 5]
      by (cases "j < length (leb128 (8 * k + 5))") (simp_all add: split_step_def Let_def)
  qed
qed

lemma split_loop_prefix:
  assumes "\<forall>f\<in>set fs. field_wf f" "length (pre @ concat (map encode_field fs) @ post) \<le> usize_MAX"
  shows "(split_loop (pre @ concat (map encode_field fs) @ post) (length pre) files
      :: (bytes list, ('o, 'pe) reflection_error) result) =
    split_loop (pre @ concat (map encode_field fs) @ post) (length (pre @ concat (map encode_field fs)))
      (files @ List.map_filter file_field fs)"
  using assms
proof (induction fs arbitrary: pre files)
  case (Cons f fs)
  let ?rest = "concat (map encode_field fs) @ post"
  have step: "split_step (pre @ encode_field f @ ?rest) (length pre) =
      (Ok (file_field f, length (pre @ encode_field f)) :: (_, ('o, 'pe) reflection_error) result)"
    using split_step_field [of f pre ?rest] Cons.prems by simp
  have "split_loop (pre @ encode_field f @ ?rest) (length pre) files =
      (split_loop ((pre @ encode_field f) @ ?rest) (length (pre @ encode_field f))
         (case file_field f of Some x \<Rightarrow> files @ [x] | None \<Rightarrow> files) :: (_, ('o, 'pe) reflection_error) result)"
    using step encode_field_nonempty [of f] by (subst split_loop.simps) auto
  also have "\<dots> = split_loop ((pre @ encode_field f) @ ?rest) (length ((pre @ encode_field f) @ concat (map encode_field fs)))
      ((case file_field f of Some x \<Rightarrow> files @ [x] | None \<Rightarrow> files) @ List.map_filter file_field fs)"
    by (rule Cons.IH) (use Cons.prems in simp_all)
  finally show ?case by (simp add: map_filter_simps split: option.split)
qed (simp add: map_filter_simps)

lemma split_loop_cut:
  assumes "\<forall>f\<in>set gs. field_wf f" "field_wf g" "0 < j" "j < length (encode_field g)"
    "length (concat (map encode_field gs) @ encode_field g) \<le> usize_MAX"
  shows "(split_descriptor_set (concat (map encode_field gs) @ take j (encode_field g))
      :: (bytes list, ('o, 'pe) reflection_error) result) =
    Err (ReMalformedFraming (length (concat (map encode_field gs))))"
proof -
  let ?pre = "concat (map encode_field gs)" and ?cut = "take j (encode_field g)"
  have "split_step (?pre @ ?cut) (length ?pre) =
      (Err (ReMalformedFraming (length ?pre)) :: (_, ('o, 'pe) reflection_error) result)"
    by (rule split_step_cut) (use assms in simp_all)
  then have "split_loop (?pre @ ?cut) (length ?pre) files =
      (Err (ReMalformedFraming (length ?pre)) :: (bytes list, ('o, 'pe) reflection_error) result)" for files
    using assms(3,4) by (subst split_loop.simps) auto
  then show ?thesis
    using split_loop_prefix [of gs "[]" ?cut "[]", where 'o = 'o and 'pe = 'pe] assms
    by (simp add: split_descriptor_set_def)
qed

text \<open>
  C9. Slicing a descriptor set inverts its framing: for any sequence of well-formed top-level
  fields of the four wire types, encoded back to back, \<^verbatim>\<open>split_descriptor_set\<close> returns exactly
  the payloads of the length-delimited fields numbered 1, byte for byte and in order, skipping
  every other field; and a set cut anywhere inside its last field is rejected with the offset of
  that field's tag rather than sliced short.
\<close>

theorem split_inverts_framing:
  assumes "\<forall>f\<in>set fs. field_wf f" "length (concat (map encode_field fs)) \<le> usize_MAX"
  shows "(split_descriptor_set (concat (map encode_field fs)) :: (bytes list, ('o, 'pe) reflection_error) result) =
      Ok (List.map_filter file_field fs) \<and>
    (\<forall>gs g j. fs = gs @ [g] \<and> 0 < j \<and> j < length (encode_field g) \<longrightarrow>
       (split_descriptor_set (concat (map encode_field gs) @ take j (encode_field g))
          :: (bytes list, ('o, 'pe) reflection_error) result) =
         Err (ReMalformedFraming (length (concat (map encode_field gs)))))"
proof
  show "split_descriptor_set (concat (map encode_field fs)) =
      (Ok (List.map_filter file_field fs) :: (_, ('o, 'pe) reflection_error) result)"
    using split_loop_prefix [of fs "[]" "[]" "[]"] assms by (simp add: split_descriptor_set_def split_loop.simps)
qed (use assms in \<open>auto intro!: split_loop_cut\<close>)

theorem split_inverts_framing_witness:
  "split_descriptor_set (concat (map encode_field [WfLen 1 [1, 2], WfVarint 3 300, WfLen 1 [7]])) =
     (Ok [[1, 2], [7]] :: (bytes list, (unit, unit) reflection_error) result) \<and>
   split_descriptor_set (concat (map encode_field [WfLen 1 [1, 2], WfVarint 3 300]) @ take 2 (encode_field (WfLen 1 [7]))) =
     (Err (ReMalformedFraming 7) :: (bytes list, (unit, unit) reflection_error) result)"
proof -
  let ?gs = "[WfLen 1 [1, 2], WfVarint 3 300]" and ?g = "WfLen 1 [7]"
  have ok: "\<forall>f\<in>set (?gs @ [?g]). field_wf f" "length (concat (map encode_field (?gs @ [?g]))) \<le> usize_MAX"
    by (simp_all add: leb128.simps usize_MAX_def)
  note all = split_inverts_framing [OF ok, where 'o = unit and 'pe = unit]
  from conjunct2 [OF all, rule_format, of ?gs ?g 2] conjunct1 [OF all] show ?thesis
    by (simp add: leb128.simps map_filter_simps)
qed
end
