(* ===== verification/ReflectionProps.thy ===== *)
theory ReflectionProps
  imports Reflection
begin

text \<open>
  Properties of server reflection: the import closure, the bytes a merged index serves, the
  answers of the service and its installation.
\<close>

section \<open>The import closure\<close>

definition import_rel :: "(string \<Rightarrow> 'x file_descriptor option) \<Rightarrow> (string \<times> string) set" where
  "import_rel file_by_name =
     {(n, d). \<exists>fd. file_by_name n = Some fd \<and> d \<in> set (fd_dependency fd) \<and> file_by_name d \<noteq> None}"

text \<open>What is left to emit when the loop has seen some names and holds a work list.\<close>

definition explores ::
    "(string \<Rightarrow> 'x file_descriptor option) \<Rightarrow> string set \<Rightarrow> string set \<Rightarrow> string list \<Rightarrow> bool" where
  "explores file_by_name seen todo ns \<longleftrightarrow>
     distinct ns \<and> set ns \<inter> seen = {} \<and> todo \<subseteq> seen \<union> set ns \<and>
     import_rel file_by_name `` set ns \<subseteq> seen \<union> set ns \<and>
     set ns \<subseteq> (import_rel file_by_name)\<^sup>* `` todo"

lemma explores_skip: "explores f seen todo ns \<Longrightarrow> n \<in> seen \<Longrightarrow> explores f seen (insert n todo) ns"
  by (auto simp: explores_def)

lemma explores_visit:
  assumes "explores f (insert n seen) (todo \<union> import_rel f `` {n}) ns" "n \<notin> seen"
  shows "explores f seen (insert n todo) (n # ns)"
proof -
  have "(import_rel f)\<^sup>* `` (todo \<union> import_rel f `` {n}) \<subseteq> (import_rel f)\<^sup>* `` (insert n todo)"
    by (auto intro: converse_rtrancl_into_rtrancl)
  then show ?thesis using assms by (auto simp: explores_def)
qed

lemma names_of_dependencies:
  assumes "\<And>n fd. f n = Some fd \<Longrightarrow> fd_name fd = Some n" "f n = Some fd"
  shows "{m. \<exists>d\<in>set (List.map_filter f (fd_dependency fd)). fd_name d = Some m} = import_rel f `` {n}"
  using assms by (fastforce simp: import_rel_def map_filter_def)

definition work_names :: "'x file_descriptor list \<Rightarrow> string set" where
  "work_names stack = {n. \<exists>fd\<in>set stack. fd_name fd = Some n}"

lemma closure_loop_explores:
  fixes f :: "string \<Rightarrow> 'x file_descriptor option"
  assumes named: "\<And>n fd. f n = Some fd \<Longrightarrow> fd_name fd = Some n" and fin: "finite (dom f)"
  shows "set stack \<subseteq> ran f \<Longrightarrow>
    \<exists>ns. closure_loop f rb seen out stack = Some (out @ List.map_filter (map_of rb) ns) \<and>
      explores f (set seen) (work_names stack) ns"
proof (induction "card (dom f - set seen)" arbitrary: seen out stack rule: less_induct)
  case less
  note outer = less.hyps
  from less.prems show ?case
  proof (induction stack rule: rev_induct)
    case Nil
    show ?case by (subst closure_loop.simps) (auto simp: explores_def work_names_def map_filter_simps intro!: exI [of _ "[]"])
  next
    case (snoc fd stack)
    then obtain n where n: "f n = Some fd" by (auto simp: ran_def)
    have name: "fd_name fd = Some n" by (rule named [OF n])
    have names: "work_names (stack @ [fd]) = insert n (work_names stack)"
      using name by (auto simp: work_names_def)
    show ?case
    proof (cases "n \<in> set seen")
      case True
      from snoc.IH snoc.prems obtain ns where
        "closure_loop f rb seen out stack = Some (out @ List.map_filter (map_of rb) ns)"
        "explores f (set seen) (work_names stack) ns" by auto
      with True show ?thesis
        by (subst closure_loop.simps) (auto simp: name names intro: explores_skip)
    next
      case False
      let ?out = "case map_of rb n of Some b \<Rightarrow> out @ [b] | None \<Rightarrow> out"
      let ?stack = "stack @ List.map_filter f (fd_dependency fd)"
      have "card (dom f - set (n # seen)) < card (dom f - set seen)"
        using False n fin by (intro psubset_card_mono) auto
      moreover have "set ?stack \<subseteq> ran f" using snoc.prems by (auto simp: map_filter_def ran_def)
      ultimately obtain ns where ns:
        "closure_loop f rb (n # seen) ?out ?stack = Some (?out @ List.map_filter (map_of rb) ns)"
        "explores f (set (n # seen)) (work_names ?stack) ns" using outer by blast
      have "work_names ?stack = work_names stack \<union> import_rel f `` {n}"
        using names_of_dependencies [where f = f, OF named n] by (auto simp: work_names_def)
      with ns(2) False have "explores f (set seen) (insert n (work_names stack)) (n # ns)"
        by (intro explores_visit) simp_all
      moreover have "closure_loop f rb seen out (stack @ [fd]) = Some (out @ List.map_filter (map_of rb) (n # ns))"
        using ns(1) False by (subst closure_loop.simps) (auto simp: name map_filter_simps split: option.splits)
      ultimately show ?thesis unfolding names by blast
    qed
  qed
qed

lemma explores_reachable:
  assumes "explores f {} todo ns"
  shows "set ns = (import_rel f)\<^sup>* `` todo"
proof
  show "set ns \<subseteq> (import_rel f)\<^sup>* `` todo" using assms by (auto simp: explores_def)
  have "import_rel f `` set ns \<subseteq> set ns" "todo \<subseteq> set ns" using assms by (auto simp: explores_def)
  then show "(import_rel f)\<^sup>* `` todo \<subseteq> set ns"
    by (metis Image_closed_trancl Image_mono equalityD1 order_trans rtrancl_mono subset_refl)
qed

lemma closure_loop_reachable:
  fixes f :: "string \<Rightarrow> 'x file_descriptor option"
  assumes named: "\<And>n fd. f n = Some fd \<Longrightarrow> fd_name fd = Some n" and fin: "finite (dom f)" and n: "f n = Some fd"
  shows "\<exists>ns. closure_loop f rb [] [] [fd] = Some (List.map_filter (map_of rb) (n # ns)) \<and>
    distinct (n # ns) \<and> set (n # ns) = (import_rel f)\<^sup>* `` {n}"
proof -
  have name: "fd_name fd = Some n" by (rule named [OF n])
  let ?out = "case map_of rb n of Some b \<Rightarrow> [b] | None \<Rightarrow> []"
  let ?stack = "List.map_filter f (fd_dependency fd)"
  have "set ?stack \<subseteq> ran f" by (auto simp: map_filter_def ran_def)
  from closure_loop_explores [where f = f, OF named fin this, of rb "[n]" ?out] obtain ns where ns:
    "closure_loop f rb [n] ?out ?stack = Some (?out @ List.map_filter (map_of rb) ns)"
    "explores f {n} (work_names ?stack) ns" by auto
  have "work_names ?stack = import_rel f `` {n}"
    using names_of_dependencies [where f = f, OF named n] by (auto simp: work_names_def)
  with ns(2) have e: "explores f {} (insert n {}) (n # ns)" by (intro explores_visit) simp_all
  have "closure_loop f rb [] [] [fd] = Some (List.map_filter (map_of rb) (n # ns))"
    using ns(1) by (subst closure_loop.simps) (auto simp: name map_filter_simps split: option.splits)
  with explores_reachable [OF e] e show ?thesis by (auto simp: explores_def)
qed

text \<open>
  What the reflector relies on of a pool: a file found by name or symbol is a file of the pool,
  the name index is the files' own names (a second file of a name is skipped), the default pool
  is empty, and a successful merge adds files of the merged set only.
\<close>

definition pool_laws :: "('p, 'x, 'o, 'pe, 'mi) pool_ops \<Rightarrow> bool" where
  "pool_laws ops \<longleftrightarrow>
     (\<forall>p n fd. po_file_by_name ops p n = Some fd \<longleftrightarrow> fd \<in> set (po_files ops p) \<and> fd_name fd = Some n) \<and>
     (\<forall>p s fd. po_file_containing_symbol ops p s = Some fd \<longrightarrow> fd \<in> set (po_files ops p)) \<and>
     po_files ops (po_default ops) = [] \<and>
     (\<forall>p fds p'. po_add_file_descriptor_set ops p fds = (Ok (), p') \<longrightarrow>
        set (po_files ops p') \<subseteq> set (po_files ops p) \<union> set fds)"

lemma pool_lawsD:
  assumes "pool_laws ops"
  shows "po_file_by_name ops p n = Some fd \<longleftrightarrow> fd \<in> set (po_files ops p) \<and> fd_name fd = Some n"
    and "po_file_containing_symbol ops p s = Some fd \<Longrightarrow> fd \<in> set (po_files ops p)"
    and "po_files ops (po_default ops) = []"
    and "po_add_file_descriptor_set ops p fds = (Ok (), p') \<Longrightarrow>
      set (po_files ops p') \<subseteq> set (po_files ops p) \<union> set fds"
  using assms unfolding pool_laws_def by blast+

text \<open>
  A pool that keeps the first file of each name; the sample decoder reads one character of name
  and then one character for each import.
\<close>

definition sample_by_name :: "unit file_descriptor list \<Rightarrow> string \<Rightarrow> unit file_descriptor option" where
  "sample_by_name p n = List.find (\<lambda>fd. fd_name fd = Some n) p"

definition sample_files :: "unit file_descriptor list \<Rightarrow> unit file_descriptor list" where
  "sample_files p =
     filter (\<lambda>fd. case fd_name fd of None \<Rightarrow> False | Some n \<Rightarrow> sample_by_name p n = Some fd) p"

definition sample_file :: "bytes \<Rightarrow> unit file_descriptor" where
  "sample_file raw = \<lparr>fd_name = Some (take 1 (from_bytes raw)),
     fd_dependency = map (\<lambda>c. [c]) (drop 1 (from_bytes raw)), fd_rest = ()\<rparr>"

definition sample_pool :: "(unit file_descriptor list, unit, unit, unit, unit) pool_ops" where
  "sample_pool =
     \<lparr>po_decode = (\<lambda>b. case (split_descriptor_set b :: (_, (unit, unit) reflection_error) result) of
          Ok raws \<Rightarrow> Ok (map sample_file raws) | Err _ \<Rightarrow> Err (OtherDecodeError ())),
      po_encode = (\<lambda>_. []), po_default = [], po_new = (\<lambda>fds. Ok fds),
      po_add_file_descriptor_set = (\<lambda>p fds. (Ok (), p @ fds)), po_files = sample_files, po_services = (\<lambda>_. []),
      po_file_by_name = sample_by_name, po_file_containing_symbol = sample_by_name,
      po_message_index = (\<lambda>_ _. None), po_extension_for = (\<lambda>_ _ _. None), po_extensions_of = (\<lambda>_ _. []),
      po_debug = (\<lambda>s. CHR 0x22 # s @ [CHR 0x22])\<rparr>"

lemma sample_by_name_files: "sample_by_name p n = Some fd \<longleftrightarrow> fd \<in> set (sample_files p) \<and> fd_name fd = Some n"
  by (auto simp: sample_files_def sample_by_name_def find_Some_iff in_set_conv_nth split: option.splits)

lemma find_append_cases:
  "List.find P (xs @ ys) = (case List.find P xs of None \<Rightarrow> List.find P ys | Some x \<Rightarrow> Some x)"
  by (induction xs) auto

lemma sample_pool_laws: "pool_laws sample_pool"
  unfolding pool_laws_def
proof (intro conjI allI impI)
  fix p :: "unit file_descriptor list" and n fd fds p'
  show "(po_file_by_name sample_pool p n = Some fd) = (fd \<in> set (po_files sample_pool p) \<and> fd_name fd = Some n)"
    by (simp add: sample_pool_def sample_by_name_files)
  show "po_file_containing_symbol sample_pool p n = Some fd \<Longrightarrow> fd \<in> set (po_files sample_pool p)"
    by (simp add: sample_pool_def sample_by_name_files)
  show "po_files sample_pool (po_default sample_pool) = []"
    by (simp add: sample_pool_def sample_files_def)
  show "po_add_file_descriptor_set sample_pool p fds = (Ok (), p') \<Longrightarrow>
      set (po_files sample_pool p') \<subseteq> set (po_files sample_pool p) \<union> set fds"
    by (auto simp: sample_pool_def sample_files_def sample_by_name_def find_append_cases find_None_iff
        split: option.splits)
qed

lemma sample_self: "self_descriptors sample_pool [] = Some \<lparr>ds_pool = [], ds_response_bytes = []\<rparr>"
  by (simp add: self_descriptors_def sample_pool_def split_descriptor_set_def split_loop.simps)

lemma pool_names_finite:
  assumes "pool_laws ops"
  shows "finite (dom (po_file_by_name ops p))"
proof (rule finite_subset)
  show "dom (po_file_by_name ops p) \<subseteq> (the \<circ> fd_name) ` set (po_files ops p)"
    by (force simp: pool_lawsD(1) [OF assms])
qed simp

lemma closure_reachable:
  assumes "pool_laws ops" "fd \<in> set (po_files ops (ds_pool source))" "fd_name fd = Some n"
  shows "\<exists>ns. closure ops source fd = Some (List.map_filter (map_of (ds_response_bytes source)) (n # ns)) \<and>
    distinct (n # ns) \<and> set (n # ns) = (import_rel (po_file_by_name ops (ds_pool source)))\<^sup>* `` {n}"
  unfolding closure_def
  by (rule closure_loop_reachable) (use assms pool_names_finite in \<open>auto simp: pool_lawsD(1) [OF assms(1)]\<close>)

text \<open>
  C8. The import closure terminates on every pool, cyclic imports included, and is exactly the
  transitive closure of the import relation: the requested file's payload comes first, every
  file reachable over imports present in the pool contributes its payload exactly once, no
  other file does, and imports missing from the pool are skipped.
\<close>

theorem closure_is_transitive_imports:
  assumes "pool_laws ops" "fd \<in> set (po_files ops (ds_pool source))" "fd_name fd = Some n"
  shows "\<exists>ns. closure ops source fd = Some (List.map_filter (map_of (ds_response_bytes source)) (n # ns)) \<and>
    distinct (n # ns) \<and> set (n # ns) = (import_rel (po_file_by_name ops (ds_pool source)))\<^sup>* `` {n}"
  by (rule closure_reachable [OF assms])

theorem closure_is_transitive_imports_witness:
  "\<exists>ns. closure sample_pool \<lparr>ds_pool = [sample_file (as_bytes ''abc''), sample_file (as_bytes ''ba'')],
        ds_response_bytes = [(''a'', [1]), (''b'', [2])]\<rparr> (sample_file (as_bytes ''abc'')) =
      Some (List.map_filter (map_of [(''a'', [1]), (''b'', [2])]) (''a'' # ns)) \<and> distinct (''a'' # ns)"
proof -
  let ?source = "\<lparr>ds_pool = [sample_file (as_bytes ''abc''), sample_file (as_bytes ''ba'')],
        ds_response_bytes = [(''a'', [1 :: byte]), (''b'', [2])]\<rparr>"
  have name: "fd_name (sample_file (as_bytes ''abc'')) = Some ''a''"
    by (simp add: sample_file_def)
  have "po_file_by_name sample_pool (ds_pool ?source) ''a'' = Some (sample_file (as_bytes ''abc''))"
    by (simp add: sample_pool_def sample_by_name_def name)
  then have "sample_file (as_bytes ''abc'') \<in> set (po_files sample_pool (ds_pool ?source))"
    by (simp add: pool_lawsD(1) [OF sample_pool_laws])
  from closure_is_transitive_imports [OF sample_pool_laws this name] show ?thesis by auto
qed

section \<open>The index over merged sets\<close>

text \<open>
  Every file of the pool has a name and a payload. A failed merge may break this (the pool may
  have absorbed part of the set), which is why the reflector is then to be discarded.
\<close>

definition reflector_wf :: "('p, 'x, 'o, 'pe, 'mi) pool_ops \<Rightarrow> 'p reflector \<Rightarrow> bool" where
  "reflector_wf ops r \<longleftrightarrow>
     (\<forall>fd\<in>set (po_files ops (rf_pool r)). \<exists>n. fd_name fd = Some n \<and> map_of (rf_response_bytes r) n \<noteq> None)"

text \<open>The name and payload pairs a set registers, and merging several sets in order.\<close>

definition registered :: "('p, 'x, 'o, 'pe, 'mi) pool_ops \<Rightarrow> bytes \<Rightarrow> (string \<times> bytes) list" where
  "registered ops bytes =
     (case (split_descriptor_set bytes :: (bytes list, ('o, 'pe) reflection_error) result, po_decode ops bytes) of
        (Ok raw_files, Ok fds) \<Rightarrow> zip (map (the \<circ> fd_name) fds) raw_files
      | _ \<Rightarrow> [])"

fun merge_sets ::
    "('p, 'x, 'o, 'pe, 'mi) pool_ops \<Rightarrow> bytes list \<Rightarrow> 'p reflector \<Rightarrow>
     ('p reflector, ('o, 'pe) reflection_error) result" where
  "merge_sets ops [] r = Ok r"
| "merge_sets ops (bytes # sets) r =
     (case add_descriptor_set_bytes ops bytes r of
        (Ok _, r') \<Rightarrow> merge_sets ops sets r'
      | (Err e, _) \<Rightarrow> Err e)"

lemma map_of_entry_or_insert:
  "map_of (entry_or_insert k v m) n = (if map_of m n = None \<and> n = k then Some v else map_of m n)"
  by (auto simp: entry_or_insert_def update_conv' split: option.splits)

lemma map_of_fold_entry:
  "map_of (fold (\<lambda>(name, raw). entry_or_insert name raw) ps m) n =
     (case map_of m n of Some v \<Rightarrow> Some v | None \<Rightarrow> map_of ps n)"
  by (induction ps arbitrary: m) (auto simp: map_of_entry_or_insert split: option.splits)

lemma collect_names_Ok:
  "collect_names i fds = Ok names \<Longrightarrow> list_all2 (\<lambda>fd n. fd_name fd = Some n) fds names"
proof (induction fds arbitrary: i names)
  case (Cons fd fds)
  then show ?case by (auto simp: result_map_Ok_iff split: option.splits)
qed simp

lemma collect_names_names: "collect_names i fds = Ok names \<Longrightarrow> names = map (the \<circ> fd_name) fds"
  by (drule collect_names_Ok) (induction fds names rule: list_all2_induct, auto)

lemma add_descriptor_set_bytes_Ok:
  fixes ops :: "('p, 'x, 'o, 'pe, 'mi) pool_ops"
  assumes laws: "pool_laws ops" and add: "add_descriptor_set_bytes ops bytes r = (Ok (), r')"
  shows "map_of (rf_response_bytes r') = map_of (rf_response_bytes r @ registered ops bytes)"
    and "reflector_wf ops r \<Longrightarrow> reflector_wf ops r'"
    and "rf_unique r' = rf_unique r"
proof -
  from add obtain raws fds names where steps:
      "split_descriptor_set bytes = (Ok raws :: (_, ('o, 'pe) reflection_error) result)" "po_decode ops bytes = Ok fds"
      "length raws = length fds" "collect_names 0 fds = (Ok names :: (_, ('o, 'pe) reflection_error) result)"
    and pool: "po_add_file_descriptor_set ops (rf_pool r) fds = (Ok (), rf_pool r')"
    and bytes: "rf_response_bytes r' = fold (\<lambda>(name, raw). entry_or_insert name raw) (zip names raws) (rf_response_bytes r)"
    and "rf_unique r' = rf_unique r"
    by (auto simp: add_descriptor_set_bytes_def split: result.splits if_splits prod.splits)
  show "rf_unique r' = rf_unique r" by fact
  have names: "names = map (the \<circ> fd_name) fds" by (rule collect_names_names [OF steps(4)])
  show m: "map_of (rf_response_bytes r') = map_of (rf_response_bytes r @ registered ops bytes)"
    by (rule ext) (simp add: bytes map_of_fold_entry registered_def steps(1,2) names map_add_def split: option.splits)
  assume wf: "reflector_wf ops r"
  show "reflector_wf ops r'"
    unfolding reflector_wf_def
  proof
    fix fd assume "fd \<in> set (po_files ops (rf_pool r'))"
    then consider "fd \<in> set (po_files ops (rf_pool r))" | "fd \<in> set fds"
      using pool_lawsD(4) [OF laws pool] by auto
    then show "\<exists>n. fd_name fd = Some n \<and> map_of (rf_response_bytes r') n \<noteq> None"
    proof cases
      case 1
      with wf obtain n v where "fd_name fd = Some n" "map_of (rf_response_bytes r) n = Some v"
        by (auto simp: reflector_wf_def)
      then show ?thesis by (simp add: m map_add_def)
    next
      case 2
      then obtain i where i: "i < length fds" "fd = fds ! i" by (metis in_set_conv_nth)
      with collect_names_Ok [OF steps(4)] have n: "fd_name fd = Some (names ! i)" by (simp add: list_all2_conv_all_nth)
      have "names ! i \<in> fst ` set (zip names raws)"
        using i steps(3) names by (force simp: set_zip)
      then have "map_of (zip names raws) (names ! i) \<noteq> None" by (simp add: map_of_eq_None_iff)
      then show ?thesis using n by (auto simp: bytes map_of_fold_entry split: option.splits)
    qed
  qed
qed

lemma merge_sets_Ok:
  assumes "pool_laws ops" "merge_sets ops sets r = Ok r'" "reflector_wf ops r"
  shows "map_of (rf_response_bytes r') = map_of (rf_response_bytes r @ concat (map (registered ops) sets)) \<and>
    reflector_wf ops r'"
  using assms(2,3)
proof (induction sets arbitrary: r)
  case (Cons bytes sets)
  then obtain r1 where r1: "add_descriptor_set_bytes ops bytes r = (Ok (), r1)" "merge_sets ops sets r1 = Ok r'"
    by (auto split: result.splits prod.splits)
  note step = add_descriptor_set_bytes_Ok [OF assms(1) r1(1)]
  with Cons.IH [OF r1(2)] Cons.prems show ?case by simp
qed simp

definition reflector_empty :: "('p, 'x, 'o, 'pe, 'mi) pool_ops \<Rightarrow> 'p reflector" where
  "reflector_empty ops =
     \<lparr>rf_pool = po_default ops, rf_unique = True, rf_response_bytes = [], rf_services_override = None\<rparr>"

lemma from_descriptor_set_bytes_merge: "from_descriptor_set_bytes ops bytes = merge_sets ops [bytes] (reflector_empty ops)"
  by (simp add: from_descriptor_set_bytes_def reflector_empty_def split: prod.split result.split)

lemma reflector_empty_wf: "pool_laws ops \<Longrightarrow> reflector_wf ops (reflector_empty ops)"
  by (simp add: reflector_wf_def reflector_empty_def pool_lawsD)

text \<open>Over a well-formed reflector a closure of the user's pool skips no payload.\<close>

lemma map_filter_total: "\<forall>n\<in>set ns. f n \<noteq> None \<Longrightarrow> List.map_filter f ns = map (\<lambda>n. the (f n)) ns"
  by (induction ns) (auto simp: map_filter_simps)

lemma import_rel_dom: "(n, m) \<in> (import_rel f)\<^sup>* \<Longrightarrow> f n \<noteq> None \<Longrightarrow> f m \<noteq> None"
  by (induction rule: rtrancl_induct) (auto simp: import_rel_def)

definition user_source :: "'p reflector \<Rightarrow> 'p descriptor_source" where
  "user_source r = \<lparr>ds_pool = rf_pool r, ds_response_bytes = rf_response_bytes r\<rparr>"

lemma user_closure:
  assumes laws: "pool_laws ops" and wf: "reflector_wf ops r"
    and fd: "fd \<in> set (po_files ops (rf_pool r))" "fd_name fd = Some n"
  shows "\<exists>ns. closure ops (user_source r) fd = Some (map (\<lambda>m. the (map_of (rf_response_bytes r) m)) (n # ns)) \<and>
    distinct (n # ns) \<and> set (n # ns) = (import_rel (po_file_by_name ops (rf_pool r)))\<^sup>* `` {n} \<and>
    (\<forall>m\<in>set (n # ns). map_of (rf_response_bytes r) m \<noteq> None)"
proof -
  let ?R = "import_rel (po_file_by_name ops (rf_pool r))"
  from closure_reachable [OF laws, of fd "user_source r" n] fd obtain ns where
    ns: "closure ops (user_source r) fd = Some (List.map_filter (map_of (rf_response_bytes r)) (n # ns))"
      "distinct (n # ns)" "set (n # ns) = ?R\<^sup>* `` {n}" by (auto simp: user_source_def)
  have some: "map_of (rf_response_bytes r) m \<noteq> None" if "m \<in> set (n # ns)" for m
  proof -
    have "(n, m) \<in> ?R\<^sup>*" using that ns(3) by auto
    moreover have "po_file_by_name ops (rf_pool r) n \<noteq> None" using fd pool_lawsD(1) [OF laws] by auto
    ultimately obtain fd' where "po_file_by_name ops (rf_pool r) m = Some fd'" using import_rel_dom by fastforce
    then have "fd' \<in> set (po_files ops (rf_pool r)) \<and> fd_name fd' = Some m" by (simp add: pool_lawsD(1) [OF laws])
    with wf show ?thesis by (auto simp: reflector_wf_def)
  qed
  then have "List.map_filter (map_of (rf_response_bytes r)) (n # ns) = map (\<lambda>m. the (map_of (rf_response_bytes r) m)) (n # ns)"
    by (intro map_filter_total) simp
  with ns some show ?thesis by metis
qed

lemma sources_eq: "self_descriptors ops embedded = Some own \<Longrightarrow> sources ops embedded r = Some [user_source r, own]"
  by (simp add: sources_def user_source_def)

lemma user_file_by_filename:
  assumes "pool_laws ops" "reflector_wf ops r" "self_descriptors ops embedded = Some own"
    and "po_file_by_name ops (rf_pool r) name = Some fd"
  shows "\<exists>ns. file_by_filename ops embedded r name =
      Some (Files (map (\<lambda>m. the (map_of (rf_response_bytes r) m)) (name # ns))) \<and>
    distinct (name # ns) \<and> set (name # ns) = (import_rel (po_file_by_name ops (rf_pool r)))\<^sup>* `` {name} \<and>
    (\<forall>m\<in>set (name # ns). map_of (rf_response_bytes r) m \<noteq> None)"
proof -
  have "file_by_filename ops embedded r name = map_option Files (closure ops (user_source r) fd)"
    using assms(4) by (simp add: file_by_filename_def sources_eq [OF assms(3)]) (simp add: user_source_def)
  moreover have "fd \<in> set (po_files ops (rf_pool r))" "fd_name fd = Some name"
    using assms(4) by (simp_all add: pool_lawsD(1) [OF assms(1)])
  ultimately show ?thesis using user_closure [OF assms(1,2)] by fastforce
qed

text \<open>
  C7. A reflector built from any number of merged descriptor sets answers a file query with the
  original bytes: the requested file's payload first, then one payload for each file reachable
  over its imports, none missing and none repeated, and each payload is the byte range that the
  first set registering that file name carried, whatever later sets carried under that name.
\<close>

theorem merged_sets_serve_original_bytes:
  fixes ops :: "('p, 'x, 'o, 'pe, 'mi) pool_ops"
  assumes "pool_laws ops" "merge_sets ops sets (reflector_empty ops) = Ok r"
    and "self_descriptors ops embedded = Some own" "po_file_by_name ops (rf_pool r) name = Some fd"
  defines "first \<equiv> map_of (concat (map (registered ops) sets))"
  shows "\<exists>ns. file_by_filename ops embedded r name = Some (Files (map (\<lambda>m. the (first m)) (name # ns))) \<and>
    distinct (name # ns) \<and> set (name # ns) = (import_rel (po_file_by_name ops (rf_pool r)))\<^sup>* `` {name} \<and>
    (\<forall>m\<in>set (name # ns). first m \<noteq> None)"
proof -
  have "map_of (rf_response_bytes r) = first" "reflector_wf ops r"
    using merge_sets_Ok [OF assms(1,2) reflector_empty_wf [OF assms(1)]] by (auto simp: reflector_empty_def first_def)
  with user_file_by_filename [OF assms(1) _ assms(3,4)] show ?thesis by simp
qed

theorem merged_sets_serve_original_bytes_witness:
  "\<exists>r ns. merge_sets sample_pool [encode_field (WfLen 1 (as_bytes ''ab'')), encode_field (WfLen 1 (as_bytes ''b''))]
      (reflector_empty sample_pool) = Ok r \<and>
    file_by_filename sample_pool [] r ''a'' = Some (Files (as_bytes ''ab'' # ns))"
proof -
  let ?s1 = "encode_field (WfLen 1 (as_bytes ''ab''))" and ?s2 = "encode_field (WfLen 1 (as_bytes ''b''))"
  have split: "split_descriptor_set ?s1 = (Ok [as_bytes ''ab''] :: (_, (unit, unit) reflection_error) result)"
    "split_descriptor_set ?s2 = (Ok [as_bytes ''b''] :: (_, (unit, unit) reflection_error) result)"
    using split_loop_prefix [of "[WfLen 1 (as_bytes ''ab'')]" "[]" "[]" "[]", where 'o = unit and 'pe = unit]
      split_loop_prefix [of "[WfLen 1 (as_bytes ''b'')]" "[]" "[]" "[]", where 'o = unit and 'pe = unit]
    by (simp_all add: split_descriptor_set_def split_loop.simps leb128.simps as_bytes_def usize_MAX_def map_filter_simps)
  let ?pool = "[sample_file (as_bytes ''ab''), sample_file (as_bytes ''b'')]"
  obtain r where r: "merge_sets sample_pool [?s1, ?s2] (reflector_empty sample_pool) = Ok r" "rf_pool r = ?pool"
    using split by (simp add: add_descriptor_set_bytes_def reflector_empty_def sample_pool_def sample_file_def
        del: encode_field.simps)
  have "registered sample_pool ?s1 = [(''a'', as_bytes ''ab'')]" "registered sample_pool ?s2 = [(''b'', as_bytes ''b'')]"
    using split by (simp_all add: registered_def sample_pool_def sample_file_def
        del: encode_field.simps)
  moreover have "po_file_by_name sample_pool (rf_pool r) ''a'' = Some (sample_file (as_bytes ''ab''))"
    by (simp add: r(2) sample_pool_def sample_by_name_def sample_file_def)
  ultimately show ?thesis
    using merged_sets_serve_original_bytes [OF sample_pool_laws r(1) sample_self, of "''a''"] r(1)
    by (auto simp del: encode_field.simps merge_sets.simps)
qed

section \<open>Answers\<close>

lemma closure_returns:
  assumes "pool_laws ops" "fd \<in> set (po_files ops (ds_pool source))"
  shows "\<exists>files. closure ops source fd = Some files"
proof (cases "fd_name fd")
  case None
  then show ?thesis by (simp add: closure_def closure_loop.simps)
qed (use closure_reachable [OF assms] in blast)

text \<open>The text a query looks up, and whether any of the pools consulted in order has an answer.\<close>

definition normalized_name :: "string \<Rightarrow> string" where
  "normalized_name name = (case strip_prefix ''.'' name of Some n \<Rightarrow> n | None \<Rightarrow> name)"

fun query_text :: "message_request \<Rightarrow> string" where
  "query_text (FileByFilename name) = name"
| "query_text (FileContainingSymbol symbol) = symbol"
| "query_text (FileContainingExtension containing_type _) = containing_type"
| "query_text (AllExtensionNumbersOfType name) = name"
| "query_text (ListServices _) = []"

fun resolvable :: "('p, 'x, 'o, 'pe, 'mi) pool_ops \<Rightarrow> 'p list \<Rightarrow> message_request \<Rightarrow> bool" where
  "resolvable ops pools (FileByFilename name) = (\<exists>p\<in>set pools. po_file_by_name ops p name \<noteq> None)"
| "resolvable ops pools (FileContainingSymbol symbol) = (\<exists>p\<in>set pools. po_file_containing_symbol ops p symbol \<noteq> None)"
| "resolvable ops pools (FileContainingExtension containing_type number) =
     (0 \<le> sint number \<and>
      (case List.find (\<lambda>p. po_message_index ops p containing_type \<noteq> None) pools of
         None \<Rightarrow> False
       | Some p \<Rightarrow>
           (case po_extension_for ops p (the (po_message_index ops p containing_type)) number of
              None \<Rightarrow> False
            | Some full_name \<Rightarrow> po_file_containing_symbol ops p full_name \<noteq> None)))"
| "resolvable ops pools (AllExtensionNumbersOfType name) =
     (\<exists>p\<in>set pools. po_message_index ops p (normalized_name name) \<noteq> None)"
| "resolvable ops pools (ListServices _) = True"

definition is_found :: "answer \<Rightarrow> bool" where
  "is_found a \<longleftrightarrow> (case a of NotFoundAnswer _ \<Rightarrow> False | _ \<Rightarrow> True)"

text \<open>An answer is either found, exactly when the query resolves, or a bounded miss.\<close>

definition answers :: "bool \<Rightarrow> string \<Rightarrow> answer \<Rightarrow> bool" where
  "answers found missing a \<longleftrightarrow> (if found then is_found a else a = NotFoundAnswer missing)"

lemma files_of_sources_answers:
  assumes laws: "pool_laws ops" and look: "\<And>p fd. look p = Some fd \<Longrightarrow> fd \<in> set (po_files ops p)"
  shows "\<exists>a. files_of_sources ops look srcs missing = Some a \<and>
    answers (\<exists>p\<in>set (map ds_pool srcs). look p \<noteq> None) missing a"
proof (induction srcs)
  case (Cons source srcs)
  show ?case
  proof (cases "look (ds_pool source)")
    case None
    with Cons show ?thesis by auto
  next
    case (Some fd)
    with closure_returns [OF laws look [OF Some]] show ?thesis by (auto simp: answers_def is_found_def)
  qed
qed (simp add: answers_def)

lemma extension_in_sources_answers:
  assumes laws: "pool_laws ops" and number: "0 \<le> sint number"
  shows "\<exists>a. extension_in_sources ops containing_type number srcs (NotFoundAnswer missing) = Some a \<and>
    answers (resolvable ops (map ds_pool srcs) (FileContainingExtension containing_type number)) missing a"
proof (induction srcs)
  case (Cons source srcs)
  show ?case
  proof (cases "po_message_index ops (ds_pool source) containing_type")
    case None
    with Cons show ?thesis by simp
  next
    case idx: (Some idx)
    show ?thesis
    proof (cases "po_extension_for ops (ds_pool source) idx number")
      case None
      with idx show ?thesis by (simp add: answers_def)
    next
      case ext: (Some full_name)
      show ?thesis
      proof (cases "po_file_containing_symbol ops (ds_pool source) full_name")
        case None
        with idx ext show ?thesis by (simp add: answers_def)
      next
        case (Some fd)
        from closure_returns [OF laws pool_lawsD(2) [OF laws Some]] show ?thesis
          using idx ext Some number by (auto simp: answers_def is_found_def)
      qed
    qed
  qed
qed (simp add: answers_def)

lemma extension_numbers_answers:
  "answers (\<exists>p\<in>set (map ds_pool srcs). po_message_index ops p name \<noteq> None) missing
     (extension_numbers_in_sources ops name srcs (NotFoundAnswer missing))"
proof (induction srcs)
  case (Cons source srcs)
  then show ?case
    by (cases "po_message_index ops (ds_pool source) name") (simp_all add: answers_def is_found_def)
qed (simp add: answers_def)

fun missing_text :: "(string \<Rightarrow> string) \<Rightarrow> message_request \<Rightarrow> string" where
  "missing_text debug (FileByFilename name) = ''file '' @ reflection_echoed debug name @ '' not found''"
| "missing_text debug (FileContainingSymbol symbol) = ''symbol '' @ reflection_echoed debug symbol @ '' not found''"
| "missing_text debug (FileContainingExtension containing_type number) =
     ''extension '' @ show_i32 number @ '' of type '' @ reflection_echoed debug containing_type @ '' not found''"
| "missing_text debug (AllExtensionNumbersOfType name) = ''message '' @ reflection_echoed debug name @ '' not found''"
| "missing_text debug (ListServices _) = []"

lemma answer_query_answers:
  assumes laws: "pool_laws ops" and own: "self_descriptors ops embedded = Some own"
  shows "\<exists>a. answer_query ops embedded r q = Some a \<and>
    answers (resolvable ops [rf_pool r, ds_pool own] q) (missing_text (po_debug ops) q) a"
proof -
  have pools: "map ds_pool [user_source r, own] = [rf_pool r, ds_pool own]" by (simp add: user_source_def)
  note srcs = sources_eq [OF own]
  show ?thesis
  proof (cases q)
    case (FileByFilename name)
    have "po_file_by_name ops p name = Some fd \<Longrightarrow> fd \<in> set (po_files ops p)" for p fd
      by (simp add: pool_lawsD(1) [OF laws])
    note found = files_of_sources_answers [where look = "\<lambda>p. po_file_by_name ops p name", OF laws this,
        of "[user_source r, own]" "missing_text (po_debug ops) q", unfolded pools]
    show ?thesis
      using found FileByFilename
      by (simp add: answer_query_def file_by_filename_def srcs pools del: files_of_sources.simps)
  next
    case (FileContainingSymbol symbol)
    have "po_file_containing_symbol ops p symbol = Some fd \<Longrightarrow> fd \<in> set (po_files ops p)" for p fd
      by (rule pool_lawsD(2) [OF laws])
    note found = files_of_sources_answers [where look = "\<lambda>p. po_file_containing_symbol ops p symbol", OF laws this,
        of "[user_source r, own]" "missing_text (po_debug ops) q", unfolded pools]
    show ?thesis
      using found FileContainingSymbol
      by (simp add: answer_query_def file_containing_symbol_def srcs pools del: files_of_sources.simps)
  next
    case (FileContainingExtension containing_type number)
    show ?thesis
    proof (cases "sint number < 0")
      case True
      then show ?thesis
        by (simp add: FileContainingExtension answer_query_def file_containing_extension_def u32_try_from_i32_def answers_def)
    next
      case False
      then have "0 \<le> sint number" by simp
      note found = extension_in_sources_answers [OF laws this, of containing_type "[user_source r, own]"
          "missing_text (po_debug ops) q", unfolded pools]
      show ?thesis
        using found False
        by (simp add: FileContainingExtension answer_query_def file_containing_extension_def u32_try_from_i32_def
            srcs Let_def del: extension_in_sources.simps resolvable.simps)
    qed
  next
    case (AllExtensionNumbersOfType name)
    note found = extension_numbers_answers [of "[user_source r, own]" ops "normalized_name name"
        "missing_text (po_debug ops) q", unfolded pools]
    show ?thesis
      using found AllExtensionNumbersOfType
      by (simp add: answer_query_def all_extension_numbers_of_type_def srcs normalized_name_def Let_def
          del: extension_numbers_in_sources.simps)
  next
    case (ListServices t)
    have "\<exists>names. service_names ops embedded r = Some names"
      by (auto simp: service_names_def own split: option.split)
    then show ?thesis
      by (auto simp: ListServices answer_query_def list_services_def answers_def is_found_def)
  qed
qed

lemma reflection_echoed_length:
  assumes "\<And>s. length (debug s) \<le> 6 * length s + 2" "length name \<le> usize_MAX"
  shows "length (reflection_echoed debug name) \<le> 819"
proof (cases "length name \<le> 128")
  case True
  then show ?thesis using assms(1) [of name] by (simp add: reflection_echoed_def MAX_ECHOED_NAME_BYTES_def)
next
  case False
  have "length (show_nat (length name)) \<le> 20"
    using assms(2) by (intro length_show_nat) (simp_all add: usize_MAX_def)
  moreover have "length (debug (take (floor_boundary name 128) name)) \<le> 770"
    using assms(1) [of "take (floor_boundary name 128) name"] floor_boundary_le [of name 128] by simp
  ultimately show ?thesis using False by (simp add: reflection_echoed_def MAX_ECHOED_NAME_BYTES_def)
qed

lemma show_i32_length: "length (show_i32 w) \<le> 11"
proof -
  have "- 2147483648 \<le> sint w" "sint w < 2147483648"
    using sint_greater_eq [of w] sint_less [of w] by simp_all
  then have "length (show_nat (nat (- sint w))) \<le> 10" "length (show_nat (nat (sint w))) \<le> 10"
    by (auto intro!: length_show_nat)
  then show ?thesis by (simp add: show_i32_def)
qed

lemma missing_text_length:
  assumes "\<And>s. length (debug s) \<le> 6 * length s + 2" "length (query_text q) \<le> usize_MAX"
  shows "length (missing_text debug q) \<le> 860"
proof (cases q)
  case (FileContainingExtension containing_type number)
  then show ?thesis
    using reflection_echoed_length [OF assms(1), of containing_type] assms(2) show_i32_length [of number] by simp
qed (use reflection_echoed_length [OF assms(1), of "query_text q"] assms(2) in auto)

text \<open>
  C39. The service answers every request: one without a query is \<^verbatim>\<open>invalid_argument\<close>; any other
  gets a response that echoes the host and the whole request and whose payload is a
  \<^verbatim>\<open>NOT_FOUND\<close> error response exactly when neither the user's descriptors nor the crate's own
  resolve the query. The error's text is at most 860 bytes however long the name asked for.
\<close>

theorem respond_answers_every_request:
  fixes ops :: "('p, 'x, 'o, 'pe, 'mi) pool_ops"
  assumes "pool_laws ops" "self_descriptors ops embedded = Some own"
    and "\<And>s. length (po_debug ops s) \<le> 6 * length s + 2"
    and "\<And>q. rq_message_request request = Some q \<Longrightarrow> length (query_text q) \<le> usize_MAX"
  shows "case rq_message_request request of
      None \<Rightarrow> respond ops embedded r request =
        Some (Err (invalid_argument ''ServerReflectionRequest.message_request is not set''))
    | Some q \<Rightarrow> \<exists>m. respond ops embedded r request =
          Some (Ok \<lparr>rs_valid_host = rq_host request, rs_original_request = Some request, rs_message_response = Some m\<rparr>) \<and>
        (if resolvable ops [rf_pool r, ds_pool own] q then \<forall>c t. m \<noteq> ErrorResponse c t
         else \<exists>t. m = ErrorResponse 5 t \<and> length t \<le> 860)"
proof (cases "rq_message_request request")
  case None
  then show ?thesis by (simp add: respond_def)
next
  case (Some q)
  from answer_query_answers [OF assms(1,2)] obtain a where
    a: "answer_query ops embedded r q = Some a"
      "answers (resolvable ops [rf_pool r, ds_pool own] q) (missing_text (po_debug ops) q) a" by blast
  have "length (missing_text (po_debug ops) q) \<le> 860"
    by (rule missing_text_length) (use assms(3,4) Some in auto)
  with a Some show ?thesis
    by (cases a) (auto simp: respond_def answers_def is_found_def split: if_splits)
qed

theorem respond_answers_every_request_witness:
  "\<exists>t. respond sample_pool [] (reflector_empty sample_pool)
      \<lparr>rq_host = ''h'', rq_message_request = Some (FileByFilename ''x.proto'')\<rparr> =
    Some (Ok \<lparr>rs_valid_host = ''h'', rs_original_request =
        Some \<lparr>rq_host = ''h'', rq_message_request = Some (FileByFilename ''x.proto'')\<rparr>,
      rs_message_response = Some (ErrorResponse 5 t)\<rparr>)"
proof -
  have "length (po_debug sample_pool s) \<le> 6 * length s + 2" for s by (simp add: sample_pool_def)
  from respond_answers_every_request [OF sample_pool_laws sample_self this,
      of "\<lparr>rq_host = ''h'', rq_message_request = Some (FileByFilename ''x.proto'')\<rparr>" "reflector_empty sample_pool"]
  show ?thesis by (auto simp: usize_MAX_def reflector_empty_def sample_pool_def sample_by_name_def)
qed

section \<open>Installation\<close>

definition REFLECTION_V1_PATH :: string where
  "REFLECTION_V1_PATH = ''grpc.reflection.v1.ServerReflection/ServerReflectionInfo''"
definition REFLECTION_V1ALPHA_PATH :: string where
  "REFLECTION_V1ALPHA_PATH = ''grpc.reflection.v1alpha.ServerReflection/ServerReflectionInfo''"

lemma reflection_paths:
  "method_path ''grpc.reflection.v1.ServerReflection'' ''ServerReflectionInfo'' = REFLECTION_V1_PATH"
  "method_path ''grpc.reflection.v1alpha.ServerReflection'' ''ServerReflectionInfo'' = REFLECTION_V1ALPHA_PATH"
  "strip_slash (procedure REFLECTION_V1_SPEC) = REFLECTION_V1_PATH"
  "strip_slash (procedure REFLECTION_V1ALPHA_SPEC) = REFLECTION_V1ALPHA_PATH"
  "REFLECTION_V1_PATH \<noteq> REFLECTION_V1ALPHA_PATH" "REFLECTION_V1ALPHA_PATH \<noteq> REFLECTION_V1_PATH"
  by (simp_all add: method_path_def REFLECTION_V1_PATH_def REFLECTION_V1ALPHA_PATH_def
      REFLECTION_V1_SPEC_def REFLECTION_V1ALPHA_SPEC_def strip_slash_def)

definition reflection_route ::
    "spec \<Rightarrow> limits option \<Rightarrow> ('ctx, 'reqs, 'sres) erased_handler \<Rightarrow>
     ('ctx, 'pay, 'reqs, 'ures, 'sres) registered_method" where
  "reflection_route s l h = \<lparr>rm_method = MBidiStreaming h, rm_spec = Some s, rm_limits = l\<rparr>"

lemma reflection_install_routes:
  assumes "r_allow_overrides r \<or>
    map_of (r_methods r) REFLECTION_V1_PATH = None \<and> map_of (r_methods r) REFLECTION_V1ALPHA_PATH = None"
  shows "\<exists>r'. reflection_install debug element_limit wrap_v1 wrap_v1alpha r reflector = Some r' \<and>
    map_of (r_methods r') = (map_of (r_methods r))
      (REFLECTION_V1_PATH \<mapsto> reflection_route REFLECTION_V1_SPEC
          (Some (reflection_request_limits element_limit)) (wrap_v1 reflector),
       REFLECTION_V1ALPHA_PATH \<mapsto> reflection_route REFLECTION_V1ALPHA_SPEC
          (Some (reflection_request_limits element_limit)) (wrap_v1alpha reflector))"
  using assms
  by (auto simp: reflection_install_def reflection_register_v1_def reflection_register_v1alpha_def
      route_view_bidi_stream_def insert_method_def with_spec_def reflection_apply_request_limits_def has_method_def
      with_route_limits_def reflection_paths reflection_route_def from_method_def contains_key_def update_conv'
      fun_eq_iff Let_def)

text \<open>
  Installing reflection on a router where both paths are free (or overrides are allowed)
  succeeds and adds exactly the two bidirectional routes, each with its own specification and a
  message limit of 16 KiB; every other route keeps its handler, specification and limits.
\<close>

theorem reflection_install_bounds_routes:
  fixes r :: "('ctx, 'pay, 'reqs, 'ures, 'sres) router"
  assumes "r_allow_overrides r \<or>
    map_of (r_methods r) REFLECTION_V1_PATH = None \<and> map_of (r_methods r) REFLECTION_V1ALPHA_PATH = None"
  shows "\<exists>r' l. reflection_install debug element_limit wrap_v1 wrap_v1alpha r reflector = Some r' \<and>
    max_message_size l = 16384 \<and>
    map_of (r_methods r') REFLECTION_V1_PATH =
      Some (reflection_route REFLECTION_V1_SPEC (Some l) (wrap_v1 reflector)) \<and>
    map_of (r_methods r') REFLECTION_V1ALPHA_PATH =
      Some (reflection_route REFLECTION_V1ALPHA_SPEC (Some l) (wrap_v1alpha reflector)) \<and>
    (\<forall>path. path \<noteq> REFLECTION_V1_PATH \<and> path \<noteq> REFLECTION_V1ALPHA_PATH \<longrightarrow>
       map_of (r_methods r') path = map_of (r_methods r) path)"
proof -
  have "max_message_size (reflection_request_limits element_limit) = 16384"
    by (simp add: reflection_request_limits_def with_element_memory_limit_def with_max_message_size_def
        REFLECTION_MAX_REQUEST_BYTES_def)
  with reflection_install_routes [OF assms, of debug element_limit wrap_v1 wrap_v1alpha reflector] reflection_paths(5,6)
  show ?thesis by auto
qed

definition sample_bidi :: "unit list reflector \<Rightarrow> (unit, bytes list, bytes list) erased_handler" where
  "sample_bidi r ctx requests format = Ok requests"

end
