(* ===== verification/Comments.thy ===== *)
theory Comments
  imports Prelude "HOL-Library.Sublist"
begin

text \<open>
  The comment sanitizer of the code generator (\<^verbatim>\<open>connectrpc-codegen/src/comments.rs\<close>) and the
  functions of \<^verbatim>\<open>codegen.rs\<close> that feed it. Proto comments are untrusted input that ends in
  rustdoc, so every code fence is made inert, indented blocks are fenced as \<^verbatim>\<open>text\<close> and prose is
  escaped. An index into a line is the suffix of the line at that index.
\<close>

section \<open>Text of the standard library\<close>

abbreviation (input) backtick :: char where "backtick \<equiv> CHR 0x60"
abbreviation (input) tilde :: char where "tilde \<equiv> CHR 0x7E"
abbreviation (input) backslash :: char where "backslash \<equiv> CHR 0x5C"
abbreviation (input) newline :: char where "newline \<equiv> CHR 0x0A"
abbreviation (input) tab :: char where "tab \<equiv> CHR 0x09"

text \<open>\<^verbatim>\<open>str::lines\<close>: split after each newline, which goes with one carriage return before it.\<close>

definition strip_cr :: "string \<Rightarrow> string" where
  "strip_cr l = (if l \<noteq> [] \<and> last l = CHR 0x0D then butlast l else l)"

definition str_lines :: "string \<Rightarrow> string list" where
  "str_lines s =
     (let ps = split_on newline s in
      map strip_cr (butlast ps) @ (if last ps = [] then [] else [last ps]))"

text \<open>The UTF-8 encodings of the characters \<^verbatim>\<open>char::is_whitespace\<close> accepts.\<close>

definition whitespace_encodings :: "string list" where
  "whitespace_encodings =
     [[CHR 0x09], [CHR 0x0A], [CHR 0x0B], [CHR 0x0C], [CHR 0x0D], [CHR 0x20],
      [CHR 0xC2, CHR 0x85], [CHR 0xC2, CHR 0xA0], [CHR 0xE1, CHR 0x9A, CHR 0x80]] @
     map (\<lambda>c. [CHR 0xE2, CHR 0x80, c])
       [CHR 0x80, CHR 0x81, CHR 0x82, CHR 0x83, CHR 0x84, CHR 0x85, CHR 0x86, CHR 0x87, CHR 0x88, CHR 0x89,
        CHR 0x8A, CHR 0xA8, CHR 0xA9, CHR 0xAF] @
     [[CHR 0xE2, CHR 0x81, CHR 0x9F], [CHR 0xE3, CHR 0x80, CHR 0x80]]"

fun strip_one_of :: "string list \<Rightarrow> string \<Rightarrow> string option" where
  "strip_one_of [] s = None"
| "strip_one_of (e # es) s = (case strip_prefix e s of Some r \<Rightarrow> Some r | None \<Rightarrow> strip_one_of es s)"

lemma strip_one_of_Some: "strip_one_of es s = Some r \<Longrightarrow> \<exists>e\<in>set es. s = e @ r"
  by (induction es) (auto simp: strip_prefix_Some_iff split: option.splits)

lemma whitespace_encodings_nonempty: "[] \<notin> set whitespace_encodings"
  by (auto simp: whitespace_encodings_def)

function trim_start :: "string \<Rightarrow> string" where
  "trim_start s = (case strip_one_of whitespace_encodings s of Some r \<Rightarrow> trim_start r | None \<Rightarrow> s)"
  by auto
termination
  by (relation "measure length")
    (use whitespace_encodings_nonempty in \<open>fastforce dest!: strip_one_of_Some\<close>)+

function trim_end_rev :: "string \<Rightarrow> string" where
  "trim_end_rev s = (case strip_one_of (map rev whitespace_encodings) s of Some r \<Rightarrow> trim_end_rev r | None \<Rightarrow> s)"
  by auto
termination
  by (relation "measure length")
    (use whitespace_encodings_nonempty in \<open>fastforce dest!: strip_one_of_Some\<close>)+

declare trim_start.simps [simp del] trim_end_rev.simps [simp del]

definition trim_end :: "string \<Rightarrow> string" where
  "trim_end s = rev (trim_end_rev (rev s))"

definition trim_newlines :: "string \<Rightarrow> string" where
  "trim_newlines s = rev (dropWhile (\<lambda>c. c = newline) (rev (dropWhile (\<lambda>c. c = newline) s)))"

text \<open>The length of the first character of valid UTF-8 text.\<close>

fun first_char_len :: "string \<Rightarrow> nat" where
  "first_char_len [] = 0"
| "first_char_len (c # cs) =
     (let b = (of_char c :: nat) in if b < 128 then 1 else if b < 224 then 2 else if b < 240 then 3 else 4)"

text \<open>\<^verbatim>\<open>u8::is_ascii_whitespace\<close>, which has no vertical tab.\<close>

definition is_ascii_whitespace :: "char \<Rightarrow> bool" where
  "is_ascii_whitespace c \<longleftrightarrow> c \<in> {CHR 0x20, CHR 0x09, CHR 0x0A, CHR 0x0C, CHR 0x0D}"

section \<open>Prose lines\<close>

function find_backtick_closer :: "string \<Rightarrow> nat \<Rightarrow> nat option" where
  "find_backtick_closer [] run_len = None"
| "find_backtick_closer (c # cs) run_len =
     (if c = backtick then
        (let k = Suc (length (takeWhile (\<lambda>d. d = backtick) cs)) in
         if k = run_len then Some k
         else map_option (\<lambda>e. k + e) (find_backtick_closer (dropWhile (\<lambda>d. d = backtick) cs) run_len))
      else map_option Suc (find_backtick_closer cs run_len))"
  by pat_completeness auto
termination
  by (relation "measure (length \<circ> fst)") (auto simp: le_imp_less_Suc length_dropWhile_le)

text \<open>The URL part of a link: the index of the parenthesis that closes depth \<open>depth\<close>.\<close>

fun link_url_end :: "nat \<Rightarrow> string \<Rightarrow> nat option" where
  "link_url_end depth [] = None"
| "link_url_end depth (c # cs) =
     (if c = CHR ''('' then map_option Suc (link_url_end (depth + 1) cs)
      else if c = CHR '')'' then
        (if depth - 1 = 0 then Some 0 else map_option Suc (link_url_end (depth - 1) cs))
      else map_option Suc (link_url_end depth cs))"

definition find_inline_link_end :: "string \<Rightarrow> nat option" where
  "find_inline_link_end s =
     (let t = takeWhile (\<lambda>c. c \<noteq> CHR '']'' \<and> c \<noteq> CHR ''['') (tl s);
          rest = drop (length t) (tl s)
      in case rest of
           c # d # u \<Rightarrow>
             if c = CHR '']'' \<and> d = CHR ''('' then map_option (\<lambda>k. length t + 3 + k) (link_url_end 1 u) else None
         | _ \<Rightarrow> None)"

definition has_url_scheme :: "string \<Rightarrow> bool" where
  "has_url_scheme rest \<longleftrightarrow> starts_with rest ''http://'' \<or> starts_with rest ''https://''"

definition find_autolink_end :: "string \<Rightarrow> nat option" where
  "find_autolink_end s =
     (let rest = tl s; p = length (takeWhile (\<lambda>c. c \<noteq> CHR ''>'') rest) in
      if \<not> has_url_scheme rest then None else if p < length rest then Some (1 + p) else None)"

fun strip_punctuation :: "string \<Rightarrow> nat \<Rightarrow> nat" where
  "strip_punctuation s 0 = 0"
| "strip_punctuation s (Suc j) =
     (if s ! j \<in> {CHR ''.'', CHR '','', CHR '';'', CHR '':'', CHR ''!'', CHR ''?''} then strip_punctuation s j
      else Suc j)"

definition find_bare_url_end :: "string \<Rightarrow> nat option" where
  "find_bare_url_end s =
     (if \<not> has_url_scheme s then None
      else Some (strip_punctuation s (length (takeWhile (\<lambda>c. \<not> is_ascii_whitespace c \<and>
             c \<notin> {CHR '')'', CHR ''<'', CHR ''>''}) s))))"

lemma has_url_schemeD: "has_url_scheme s \<Longrightarrow> \<exists>t. s = CHR ''h'' # t"
  by (auto simp: has_url_scheme_def starts_with_def strip_prefix_Some_iff)

lemma strip_punctuation_positive:
  "s = CHR ''h'' # t \<Longrightarrow> 0 < j \<Longrightarrow> 0 < strip_punctuation s j"
proof (induction j)
  case (Suc j)
  then show ?case by (cases j) auto
qed simp

lemma find_bare_url_end_positive:
  assumes "find_bare_url_end s = Some j"
  shows "0 < j"
proof -
  from assms have "has_url_scheme s" by (simp add: find_bare_url_end_def split: if_splits)
  then obtain t where s: "s = CHR ''h'' # t" using has_url_schemeD by blast
  have "0 < length (takeWhile (\<lambda>c. \<not> is_ascii_whitespace c \<and> c \<notin> {CHR '')'', CHR ''<'', CHR ''>''}) s)"
    by (simp add: s is_ascii_whitespace_def)
  from strip_punctuation_positive [OF s this] assms show ?thesis
    by (simp add: find_bare_url_end_def split: if_splits)
qed

text \<open>Copy the character at the head of the text.\<close>

definition push_char :: "string \<Rightarrow> string" where
  "push_char s = take (first_char_len s) s"

function sanitize_line :: "string \<Rightarrow> string" where
  "sanitize_line [] = []"
| "sanitize_line (b # bs) =
     (if b = backtick then
        (let run = takeWhile (\<lambda>c. c = backtick) (b # bs); rest = dropWhile (\<lambda>c. c = backtick) bs in
         case find_backtick_closer rest (length run) of
           Some close_end \<Rightarrow> run @ take close_end rest @ sanitize_line (drop close_end rest)
         | None \<Rightarrow> run @ sanitize_line rest)
      else if b = backslash then backslash # push_char bs @ sanitize_line (drop (first_char_len bs) bs)
      else if b = CHR ''['' then
        (case find_inline_link_end (b # bs) of
           Some e \<Rightarrow> take (Suc e) (b # bs) @ sanitize_line (drop (Suc e) (b # bs))
         | None \<Rightarrow> backslash # CHR ''['' # sanitize_line bs)
      else if b = CHR '']'' then backslash # CHR '']'' # sanitize_line bs
      else if b = CHR ''<'' then
        (case find_autolink_end (b # bs) of
           Some e \<Rightarrow> take (Suc e) (b # bs) @ sanitize_line (drop (Suc e) (b # bs))
         | None \<Rightarrow> backslash # CHR ''<'' # sanitize_line bs)
      else if b = CHR ''>'' then backslash # CHR ''>'' # sanitize_line bs
      else if b = CHR ''h'' then
        (case find_bare_url_end (b # bs) of
           Some e \<Rightarrow> CHR ''<'' # take e (b # bs) @ CHR ''>'' # sanitize_line (drop e (b # bs))
         | None \<Rightarrow> CHR ''h'' # sanitize_line bs)
      else push_char (b # bs) @ sanitize_line (drop (first_char_len (b # bs)) (b # bs)))"
  by pat_completeness auto
termination
  by (relation "measure length")
    (auto simp: Let_def le_imp_less_Suc length_dropWhile_le less_Suc_eq_le
      intro: order_trans [OF diff_le_self length_dropWhile_le] dest: find_bare_url_end_positive)

declare sanitize_line.simps(2) [simp del]

section \<open>Fences and indentation\<close>

definition is_indented :: "string \<Rightarrow> bool" where
  "is_indented line \<longleftrightarrow> starts_with line ''    '' \<or> starts_with line [tab]"

definition strip_indent :: "string \<Rightarrow> string" where
  "strip_indent line =
     (let stripped =
            (case strip_prefix ''    '' line of
               Some r \<Rightarrow> r
             | None \<Rightarrow> (case strip_prefix [tab] line of Some r \<Rightarrow> r | None \<Rightarrow> line))
      in if starts_with (trim_start stripped) [backtick, backtick, backtick] then line else stripped)"

record fence =
  fence_indent :: string
  fence_ch :: char
  fence_len :: nat
  fence_rest :: string

definition fence_closes :: "fence \<Rightarrow> char \<times> nat \<Rightarrow> bool" where
  "fence_closes f open_f \<longleftrightarrow>
     fence_ch f = fst open_f \<and> snd open_f \<le> fence_len f \<and> list_all (\<lambda>c. c = CHR '' '' \<or> c = tab) (fence_rest f)"

definition fence_marker :: "string \<Rightarrow> fence option" where
  "fence_marker line =
     (if is_indented line then None
      else
        (let indent = takeWhile (\<lambda>c. c = CHR '' '') line; rest = dropWhile (\<lambda>c. c = CHR '' '') line in
         case rest of
           [] \<Rightarrow> None
         | ch # _ \<Rightarrow>
             if ch \<noteq> backtick \<and> ch \<noteq> tilde then None
             else
               (let info = dropWhile (\<lambda>c. c = ch) rest; len = length rest - length info in
                if len < 3 \<or> (ch = backtick \<and> backtick \<in> set info) then None
                else Some \<lparr>fence_indent = indent, fence_ch = ch, fence_len = len, fence_rest = info\<rparr>)))"

text \<open>\<^verbatim>\<open>str::split\<close> on any of several separators.\<close>

fun split_any :: "char set \<Rightarrow> string \<Rightarrow> string list" where
  "split_any seps [] = [[]]"
| "split_any seps (c # cs) =
     (if c \<in> seps then [] # split_any seps cs
      else (case split_any seps cs of [] \<Rightarrow> [[c]] | p # ps \<Rightarrow> (c # p) # ps))"

definition info_tokens :: "string \<Rightarrow> string list" where
  "info_tokens info = filter (\<lambda>t. t \<noteq> []) (split_any {CHR '','', CHR '' '', tab} info)"

definition fence_info :: "string \<Rightarrow> string" where
  "fence_info info =
     (let all = info_tokens info;
          dropped_target_ignore = list_ex (\<lambda>t. starts_with t ''ignore-'') all;
          tokens = filter (\<lambda>t. \<not> starts_with t ''ignore-'') all
      in if tokens = [] then (if dropped_target_ignore then ''rust,ignore'' else ''text'')
         else join_with '','' (if ''ignore'' \<in> set tokens then tokens else tokens @ [''ignore'']))"

section \<open>The sanitizer\<close>

text \<open>The \<^verbatim>\<open>for\<close> loop with its two variables; the lines still to come are the list's rest.\<close>

fun sanitize_lines :: "bool \<Rightarrow> (char \<times> nat) option \<Rightarrow> string list \<Rightarrow> string list" where
  "sanitize_lines in_code_block open_fence [] =
     (if in_code_block then [[backtick, backtick, backtick]] else []) @
     (case open_fence of Some (ch, len) \<Rightarrow> [replicate len ch] | None \<Rightarrow> [])"
| "sanitize_lines in_code_block open_fence (line # rest) =
     (case open_fence of
        Some open_f \<Rightarrow>
          line # sanitize_lines in_code_block
            (case fence_marker line of
               Some f \<Rightarrow> if fence_closes f open_f then None else Some open_f
             | None \<Rightarrow> Some open_f) rest
      | None \<Rightarrow>
          if in_code_block \<and> is_indented line then strip_indent line # sanitize_lines True None rest
          else if in_code_block \<and> line = [] \<and>
                  (case List.find (\<lambda>l. l \<noteq> []) rest of Some l \<Rightarrow> is_indented l | None \<Rightarrow> False)
          then [] # sanitize_lines True None rest
          else
            (if in_code_block then [[backtick, backtick, backtick]] else []) @
            (case fence_marker line of
               Some f \<Rightarrow>
                 (fence_indent f @ replicate (fence_len f) (fence_ch f) @ fence_info (fence_rest f)) #
                 sanitize_lines False (Some (fence_ch f, fence_len f)) rest
             | None \<Rightarrow>
                 if is_indented line
                 then ([backtick, backtick, backtick] @ ''text'') # strip_indent line # sanitize_lines True None rest
                 else sanitize_line line # sanitize_lines False None rest))"

definition sanitize_comment :: "string \<Rightarrow> string" where
  "sanitize_comment s = join_with [newline] (sanitize_lines False None (str_lines s))"

section \<open>Comments of descriptors\<close>

record location =
  loc_path :: "int list"
  loc_leading_comments :: "string option"
  loc_trailing_comments :: "string option"

text \<open>The first \<^verbatim>\<open>?\<close> leaves the function when a matching location has no comment at all.\<close>

fun find_comment :: "location list \<Rightarrow> int list \<Rightarrow> string option" where
  "find_comment [] target_path = None"
| "find_comment (l # ls) target_path =
     (if loc_path l = target_path then
        (case (case loc_leading_comments l of Some c \<Rightarrow> Some c | None \<Rightarrow> loc_trailing_comments l) of
           None \<Rightarrow> None
         | Some comment \<Rightarrow>
             (let normalized = join_with [newline]
                    (map (\<lambda>line. trim_end (case strip_prefix '' '' line of Some r \<Rightarrow> r | None \<Rightarrow> line)) (str_lines comment));
                  cleaned = sanitize_comment (trim_newlines normalized)
              in if cleaned \<noteq> [] then Some cleaned else find_comment ls target_path))
      else find_comment ls target_path)"

definition doc_attrs :: "string \<Rightarrow> string list" where
  "doc_attrs s = map (\<lambda>l. if l = [] then [] else CHR '' '' # l) (str_lines s)"

definition generate_doc_comment :: "string \<Rightarrow> string \<Rightarrow> string list" where
  "generate_doc_comment doc standin = doc_attrs (if doc = [] then standin else doc)"

end
