(* ===== verification/CommentSafety.thy ===== *)
theory CommentSafety
  imports Comments
begin

text \<open>
  What rustdoc's markdown reader makes of sanitized comments: a line scanner written from
  CommonMark's rules for fences and indented code, and the theorem that it finds no code block a
  doctest could be compiled from.
\<close>

section \<open>The reader\<close>

text \<open>
  Columns of leading white space, a tab advancing to the next multiple of four; four columns or
  more make a line indented code. A fence is indented less than that.
\<close>

fun indent_columns :: "nat \<Rightarrow> string \<Rightarrow> nat" where
  "indent_columns c [] = c"
| "indent_columns c (x # xs) =
     (if x = CHR '' '' then indent_columns (c + 1) xs
      else if x = tab then indent_columns (c + (4 - c mod 4)) xs
      else c)"

definition md_indented :: "string \<Rightarrow> bool" where
  "md_indented line \<longleftrightarrow> 4 \<le> indent_columns 0 line"

definition md_fence :: "string \<Rightarrow> (char \<times> nat \<times> string) option" where
  "md_fence line =
     (if md_indented line then None
      else
        (case dropWhile (\<lambda>c. c = CHR '' '' \<or> c = tab) line of
           [] \<Rightarrow> None
         | ch # cs \<Rightarrow>
             (let n = length (takeWhile (\<lambda>c. c = ch) (ch # cs)); info = dropWhile (\<lambda>c. c = ch) (ch # cs) in
              if ch \<in> {backtick, tilde} \<and> 3 \<le> n \<and> \<not> (ch = backtick \<and> backtick \<in> set info)
              then Some (ch, n, info) else None)))"

definition md_closes :: "char \<times> nat \<Rightarrow> string \<Rightarrow> bool" where
  "md_closes open_f line \<longleftrightarrow>
     (case md_fence line of
        Some (ch, n, info) \<Rightarrow> ch = fst open_f \<and> snd open_f \<le> n \<and> set info \<subseteq> {CHR '' '', tab}
      | None \<Rightarrow> False)"

text \<open>
  An info string rustdoc never compiles: it carries a bare \<^verbatim>\<open>ignore\<close> or is just \<^verbatim>\<open>text\<close>, and no
  \<^verbatim>\<open>ignore-<target>\<close> undoes the \<^verbatim>\<open>ignore\<close>.
\<close>

definition inert_info :: "string \<Rightarrow> bool" where
  "inert_info info \<longleftrightarrow>
     (''ignore'' \<in> set (info_tokens info) \<or> info_tokens info = [''text'']) \<and>
     (\<forall>t\<in>set (info_tokens info). \<not> starts_with t ''ignore-'')"

fun md_safe :: "(char \<times> nat) option \<Rightarrow> string list \<Rightarrow> bool" where
  "md_safe open_f [] = (open_f = None)"
| "md_safe None (line # rest) =
     (case md_fence line of
        Some (ch, n, info) \<Rightarrow> inert_info info \<and> md_safe (Some (ch, n)) rest
      | None \<Rightarrow> \<not> md_indented line \<and> md_safe None rest)"
| "md_safe (Some open_f) (line # rest) = md_safe (if md_closes open_f line then None else Some open_f) rest"

section \<open>The code's reading of a line agrees with the reader's\<close>

text \<open>
  The one difference in indentation: one to three spaces before a tab make four columns, and the
  sanitizer takes such a line for prose.
\<close>

definition spaces_then_tab :: "string \<Rightarrow> bool" where
  "spaces_then_tab line \<longleftrightarrow>
     (let k = length (takeWhile (\<lambda>c. c = CHR '' '') line) in
      0 < k \<and> k < 4 \<and> (\<exists>r. dropWhile (\<lambda>c. c = CHR '' '') line = tab # r))"

lemma indent_columns_spaces: "indent_columns c (replicate k (CHR '' '') @ r) = indent_columns (c + k) r"
  by (induction k arbitrary: c) auto

lemma indent_columns_mono: "c \<le> indent_columns c s"
proof (induction s arbitrary: c)
  case (Cons x xs)
  have "c \<le> indent_columns (c + 1) xs" "c \<le> indent_columns (c + (4 - c mod 4)) xs"
    using Cons [of "c + 1"] Cons [of "c + (4 - c mod 4)"] by simp_all
  then show ?case by simp
qed simp

lemma spaces_split: obtains k r where "line = replicate k (CHR '' '') @ r" "r = [] \<or> hd r \<noteq> CHR '' ''"
    "takeWhile (\<lambda>c. c = CHR '' '') line = replicate k (CHR '' '')" "dropWhile (\<lambda>c. c = CHR '' '') line = r"
proof -
  let ?k = "length (takeWhile (\<lambda>c. c = CHR '' '') line)"
  have t: "takeWhile (\<lambda>c. c = CHR '' '') line = replicate ?k (CHR '' '')"
    by (rule replicate_length_same [symmetric]) (auto dest: set_takeWhileD)
  have "line = replicate ?k (CHR '' '') @ dropWhile (\<lambda>c. c = CHR '' '') line"
    by (subst t [symmetric]) simp
  moreover have "dropWhile (\<lambda>c. c = CHR '' '') line = [] \<or> hd (dropWhile (\<lambda>c. c = CHR '' '') line) \<noteq> CHR '' ''"
    using hd_dropWhile [of "\<lambda>c. c = CHR '' ''" line] by blast
  ultimately show ?thesis using t by (rule that) (rule refl)
qed

lemma starts_with_spaces:
  "r = [] \<or> hd r \<noteq> CHR '' '' \<Longrightarrow> starts_with (replicate k (CHR '' '') @ r) ''    '' \<longleftrightarrow> 4 \<le> k"
proof -
  assume r: "r = [] \<or> hd r \<noteq> CHR '' ''"
  have "starts_with (replicate k (CHR '' '') @ r) (replicate n (CHR '' '')) \<longleftrightarrow> n \<le> k" for n
  proof (induction n arbitrary: k)
    case (Suc n)
    show ?case
    proof (cases k)
      case 0
      with r show ?thesis by (cases r) (auto simp: starts_with_def)
    next
      case (Suc k')
      then show ?thesis using Suc.IH [of k'] by (simp add: starts_with_def)
    qed
  qed (simp add: starts_with_def)
  from this [of 4] show ?thesis by (simp add: numeral_eq_Suc)
qed

lemma md_indented_iff: "md_indented line \<longleftrightarrow> is_indented line \<or> spaces_then_tab line"
proof -
  obtain k r where line: "line = replicate k (CHR '' '') @ r" and r: "r = [] \<or> hd r \<noteq> CHR '' ''"
    and t: "takeWhile (\<lambda>c. c = CHR '' '') line = replicate k (CHR '' '')" and d: "dropWhile (\<lambda>c. c = CHR '' '') line = r"
    by (rule spaces_split)
  have cols: "md_indented line \<longleftrightarrow> 4 \<le> indent_columns k r" by (simp add: md_indented_def line indent_columns_spaces)
  have tab: "starts_with line [tab] \<longleftrightarrow> k = 0 \<and> (\<exists>u. r = tab # u)"
    unfolding line by (cases k; cases r) (auto simp: starts_with_def)
  have sp: "starts_with line ''    '' \<longleftrightarrow> 4 \<le> k" unfolding line by (rule starts_with_spaces [OF r])
  show ?thesis
  proof (cases "\<exists>u. r = tab # u")
    case True
    then obtain u where u: "r = tab # u" by blast
    have "4 \<le> k + (4 - k mod 4)" by presburger
    then have "4 \<le> indent_columns k r" using indent_columns_mono [of "k + (4 - k mod 4)" u] by (simp add: u)
    moreover have "4 \<le> k \<or> k = 0 \<or> (0 < k \<and> k < 4)" by arith
    ultimately show ?thesis unfolding cols is_indented_def sp tab spaces_then_tab_def t d using u by auto
  next
    case False
    then have "indent_columns k r = k" using r by (cases r) auto
    then show ?thesis unfolding cols is_indented_def sp tab spaces_then_tab_def t d using False by auto
  qed
qed

lemma fence_marker_md:
  "md_fence line = map_option (\<lambda>f. (fence_ch f, fence_len f, fence_rest f)) (fence_marker line)"
proof -
  obtain k r where line: "line = replicate k (CHR '' '') @ r" and r: "r = [] \<or> hd r \<noteq> CHR '' ''"
    and t: "takeWhile (\<lambda>c. c = CHR '' '') line = replicate k (CHR '' '')" and d: "dropWhile (\<lambda>c. c = CHR '' '') line = r"
    by (rule spaces_split)
  have len: "length r - length (dropWhile P r) = length (takeWhile P r)" for P :: "char \<Rightarrow> bool"
    by (metis add_diff_cancel_right' length_append takeWhile_dropWhile_id)
  show ?thesis
  proof (cases "md_indented line")
    case True
    then consider "is_indented line" | u where "r = tab # u"
      unfolding md_indented_iff spaces_then_tab_def t d by auto
    then show ?thesis using True by cases (auto simp: md_fence_def fence_marker_def d Let_def)
  next
    case False
    have notab: "r = [] \<or> hd r \<noteq> tab"
    proof (rule ccontr)
      assume "\<not> (r = [] \<or> hd r \<noteq> tab)"
      then obtain u where "r = tab # u" by (cases r) auto
      moreover have "k < 4" using False r by (simp add: md_indented_iff is_indented_def line starts_with_spaces)
      moreover have "spaces_then_tab line \<longleftrightarrow> 0 < k \<and> k < 4 \<and> (\<exists>u. r = tab # u)"
        by (simp add: spaces_then_tab_def t d)
      moreover have "is_indented line" if c: "k = 0" "r = tab # u" for u
        using c by (simp add: is_indented_def starts_with_def line)
      ultimately have "is_indented line \<or> spaces_then_tab line" by auto
      with False show False by (simp add: md_indented_iff)
    qed
    have "dropWhile (\<lambda>c. c = CHR '' '' \<or> c = tab) line = r"
      using r notab unfolding line by (induction k) (cases r; auto)+
    then have drop: "dropWhile (\<lambda>c. c = CHR '' '' \<or> c = tab) line = r" .
    show ?thesis
    proof (cases r)
      case Nil
      then show ?thesis using False by (simp add: md_fence_def fence_marker_def d drop Let_def)
    next
      case (Cons ch cs)
      note l = len [of "\<lambda>c. c = ch", unfolded Cons]
      have "\<not> is_indented line" using False by (simp add: md_indented_iff)
      then show ?thesis
        unfolding md_fence_def fence_marker_def Let_def d drop Cons list.case l using False by auto
    qed
  qed
qed

lemma fence_closes_md: "fence_marker line = Some f \<Longrightarrow> fence_closes f open_f = md_closes open_f line"
  by (auto simp: fence_closes_def md_closes_def fence_marker_md list_all_iff)

lemma md_closes_marker: "md_closes open_f line \<longleftrightarrow> (\<exists>f. fence_marker line = Some f \<and> fence_closes f open_f)"
  by (auto simp: fence_closes_def md_closes_def fence_marker_md list_all_iff split: option.splits)

section \<open>Openers are inert\<close>

lemma split_any_pieces: "t \<in> set (split_any seps s) \<Longrightarrow> set t \<inter> seps = {} \<and> set t \<subseteq> set s"
proof (induction s arbitrary: t)
  case (Cons c s)
  show ?case
  proof (cases "split_any seps s")
    case Nil
    then show ?thesis using Cons.prems by (auto split: if_splits)
  next
    case ps: (Cons p ps)
    then show ?thesis using Cons.prems Cons.IH [of p] Cons.IH [of t] by (auto split: if_splits)
  qed
qed simp

lemma split_any_nonempty: "split_any seps s \<noteq> []"
  by (induction s) (auto split: list.splits)

lemma split_any_append_sep:
  "set t \<inter> seps = {} \<Longrightarrow> c \<in> seps \<Longrightarrow> split_any seps (t @ c # s) = t # split_any seps s"
  by (induction t) auto

lemma split_any_free: "set t \<inter> seps = {} \<Longrightarrow> split_any seps t = [t]"
  by (induction t) auto

lemma split_any_join:
  assumes "\<forall>t\<in>set ts. set t \<inter> seps = {}" "ts \<noteq> []" "c \<in> seps"
  shows "split_any seps (join_with [c] ts) = ts"
  using assms(1,2)
proof (induction "[c]" ts rule: join_with.induct)
  case (3 x y ys)
  then show ?case using assms(3) by (simp add: split_any_append_sep)
qed (simp_all add: split_any_free)

definition token_wf :: "string \<Rightarrow> bool" where
  "token_wf t \<longleftrightarrow> t \<noteq> [] \<and> set t \<inter> {CHR '','', CHR '' '', tab} = {}"

lemma info_tokens_wf: "t \<in> set (info_tokens info) \<Longrightarrow> token_wf t \<and> set t \<subseteq> set info"
  using split_any_pieces [of t "{CHR '','', CHR '' '', tab}" info] by (auto simp: info_tokens_def token_wf_def)

lemma info_tokens_join:
  assumes "\<forall>t\<in>set ts. token_wf t" "ts \<noteq> []"
  shows "info_tokens (join_with '','' ts) = ts"
  using split_any_join [of ts "{CHR '','', CHR '' '', tab}" "CHR '',''"] assms
  by (auto simp: info_tokens_def token_wf_def filter_id_conv)

lemma set_join_with: "set (join_with sep ts) \<subseteq> set sep \<union> (\<Union>t\<in>set ts. set t)"
  by (induction sep ts rule: join_with.induct) auto

lemma ignore_token: "token_wf ''ignore''" "\<not> starts_with ''ignore'' ''ignore-''"
  by (simp_all add: token_wf_def starts_with_def)

lemma fence_info_cases:
  obtains "fence_info info = ''rust,ignore''" | "fence_info info = ''text''"
  | ts where "fence_info info = join_with '','' ts" "ts \<noteq> []" "''ignore'' \<in> set ts" "\<forall>t\<in>set ts. token_wf t"
      "\<forall>t\<in>set ts. \<not> starts_with t ''ignore-''" "\<forall>t\<in>set ts. set t \<subseteq> set info \<or> t = ''ignore''"
proof -
  let ?ts = "filter (\<lambda>t. \<not> starts_with t ''ignore-'') (info_tokens info)"
  let ?all = "if ''ignore'' \<in> set ?ts then ?ts else ?ts @ [''ignore'']"
  show ?thesis
  proof (cases "?ts = []")
    case True
    then show ?thesis using that(1,2)
      by (cases "list_ex (\<lambda>t. starts_with t ''ignore-'') (info_tokens info)") (simp_all add: fence_info_def Let_def)
  next
    case False
    then have "fence_info info = join_with '','' ?all" by (simp only: fence_info_def Let_def if_False)
    moreover have "\<forall>t\<in>set ?all. token_wf t" "\<forall>t\<in>set ?all. \<not> starts_with t ''ignore-''"
      "\<forall>t\<in>set ?all. set t \<subseteq> set info \<or> t = ''ignore''" "?all \<noteq> []" "''ignore'' \<in> set ?all"
      using info_tokens_wf ignore_token False by auto
    ultimately show ?thesis by (intro that(3))
  qed
qed

lemma fence_info_inert: "inert_info (fence_info info)"
proof (cases rule: fence_info_cases [of info])
  case 1
  then show ?thesis by (simp add: inert_info_def info_tokens_def starts_with_def)
next
  case 2
  then show ?thesis by (simp add: inert_info_def info_tokens_def starts_with_def)
next
  case (3 ts)
  then show ?thesis by (simp add: inert_info_def info_tokens_join)
qed

lemma fence_info_backtick: "backtick \<notin> set info \<Longrightarrow> backtick \<notin> set (fence_info info)"
proof (cases rule: fence_info_cases [of info])
  case (3 ts)
  assume "backtick \<notin> set info"
  then show ?thesis using set_join_with [of "'',''" ts] 3(6) unfolding 3(1) by fastforce
qed simp_all

text \<open>A tilde fence whose first annotation starts with a tilde: copied right after the run, it lengthens it.\<close>

definition fence_run_grows :: "string \<Rightarrow> bool" where
  "fence_run_grows line \<longleftrightarrow>
     (\<exists>f. fence_marker line = Some f \<and> fence_ch f = tilde \<and> starts_with (fence_info (fence_rest f)) [tilde])"

lemma fence_marker_Some:
  assumes "fence_marker line = Some f"
  obtains k where "k < 4" "fence_indent f = replicate k (CHR '' '')" "fence_ch f \<in> {backtick, tilde}" "3 \<le> fence_len f"
    "fence_ch f = backtick \<longrightarrow> backtick \<notin> set (fence_rest f)"
proof -
  obtain k r where line: "line = replicate k (CHR '' '') @ r" and r: "r = [] \<or> hd r \<noteq> CHR '' ''"
    and t: "takeWhile (\<lambda>c. c = CHR '' '') line = replicate k (CHR '' '')" and d: "dropWhile (\<lambda>c. c = CHR '' '') line = r"
    by (rule spaces_split)
  have "\<not> is_indented line" using assms by (auto simp: fence_marker_def split: if_splits)
  then have "k < 4" using r by (simp add: line is_indented_def starts_with_spaces)
  then show ?thesis
    using assms by (intro that [of k]) (auto simp: fence_marker_def t d Let_def split: if_splits list.splits)
qed

lemma md_fence_line:
  assumes "k < 4" "ch \<in> {backtick, tilde}" "3 \<le> n" "ch = backtick \<longrightarrow> backtick \<notin> set info" "info = [] \<or> hd info \<noteq> ch"
  shows "md_fence (replicate k (CHR '' '') @ replicate n ch @ info) = Some (ch, n, info)"
proof -
  obtain m where n: "n = Suc m" using assms(3) by (cases n) auto
  have ch: "ch \<noteq> CHR '' ''" "ch \<noteq> tab" using assms(2) by auto
  have "indent_columns 0 (replicate k (CHR '' '') @ replicate n ch @ info) = k"
    using ch by (simp add: indent_columns_spaces n)
  moreover have "dropWhile (\<lambda>c. c = CHR '' '' \<or> c = tab) (replicate k (CHR '' '') @ replicate n ch @ info) = replicate n ch @ info"
    using ch by (induction k) (simp_all add: n)
  moreover have "takeWhile (\<lambda>c. c = ch) (replicate m ch @ info) = replicate m ch" "dropWhile (\<lambda>c. c = ch) (replicate m ch @ info) = info"
    using assms(5) by (induction m; cases info; auto)+
  ultimately show ?thesis using assms by (simp add: md_fence_def md_indented_def n Let_def) (auto simp: n)
qed

lemma md_fence_opener:
  assumes "fence_marker line = Some f" "\<not> fence_run_grows line"
  shows "md_fence (fence_indent f @ replicate (fence_len f) (fence_ch f) @ fence_info (fence_rest f)) =
    Some (fence_ch f, fence_len f, fence_info (fence_rest f))"
proof -
  obtain k where k: "k < 4" "fence_indent f = replicate k (CHR '' '')" "fence_ch f \<in> {backtick, tilde}" "3 \<le> fence_len f"
    "fence_ch f = backtick \<longrightarrow> backtick \<notin> set (fence_rest f)" by (rule fence_marker_Some [OF assms(1)])
  have b: "fence_ch f = backtick \<longrightarrow> backtick \<notin> set (fence_info (fence_rest f))"
    using k(5) fence_info_backtick by blast
  moreover have "fence_info (fence_rest f) = [] \<or> hd (fence_info (fence_rest f)) \<noteq> fence_ch f"
  proof (cases "fence_ch f = backtick")
    case True
    with b show ?thesis by (metis hd_in_set)
  next
    case False
    with k(3) assms show ?thesis
      by (cases "fence_info (fence_rest f)") (auto simp: fence_run_grows_def starts_with_def)
  qed
  ultimately show ?thesis unfolding k(2) by (intro md_fence_line) (use k in simp_all)
qed

lemma md_ticks:
  "md_fence [backtick, backtick, backtick] = Some (backtick, 3, [])"
  "md_fence ([backtick, backtick, backtick] @ ''text'') = Some (backtick, 3, ''text'')"
  "inert_info ''text''"
  using md_fence_line [of 0 backtick 3 "[]"] md_fence_line [of 0 backtick 3 "''text''"]
  by (simp_all add: numeral_3_eq_3 inert_info_def info_tokens_def starts_with_def)

section \<open>Indented blocks\<close>

lemma trim_start_space: "trim_start (CHR '' '' # s) = trim_start s"
  by (subst trim_start.simps) (simp add: whitespace_encodings_def)

lemma trim_start_tick: "trim_start (backtick # s) = backtick # s"
  by (subst trim_start.simps) (simp add: whitespace_encodings_def)

lemma trim_start_spaces_ticks:
  "0 < n \<Longrightarrow> trim_start (replicate k (CHR '' '') @ replicate n backtick @ s) = replicate n backtick @ s"
proof (induction k)
  case 0
  then show ?case by (cases n) (simp_all add: trim_start_tick)
qed (simp add: trim_start_space)

lemma md_fence_shape:
  assumes "md_fence line = Some (ch, n, info)"
  obtains k where "line = replicate k (CHR '' '') @ replicate n ch @ info" "3 \<le> n"
proof -
  from assms obtain f where f: "fence_marker line = Some f" "fence_ch f = ch" "fence_len f = n" "fence_rest f = info"
    by (auto simp: fence_marker_md)
  obtain k r where line: "line = replicate k (CHR '' '') @ r" and r: "r = [] \<or> hd r \<noteq> CHR '' ''"
    and t: "takeWhile (\<lambda>c. c = CHR '' '') line = replicate k (CHR '' '')" and d: "dropWhile (\<lambda>c. c = CHR '' '') line = r"
    by (rule spaces_split)
  have tw: "takeWhile (\<lambda>c. c = ch) r = replicate (length (takeWhile (\<lambda>c. c = ch) r)) ch"
    by (rule replicate_length_same [symmetric]) (auto dest: set_takeWhileD)
  have "length r - length (dropWhile (\<lambda>c. c = ch) r) = length (takeWhile (\<lambda>c. c = ch) r)"
    by (metis add_diff_cancel_right' length_append takeWhile_dropWhile_id)
  then have "info = dropWhile (\<lambda>c. c = ch) r" "n = length (takeWhile (\<lambda>c. c = ch) r)" "3 \<le> n"
    using f unfolding fence_marker_def d Let_def by (auto split: if_splits list.splits)
  with tw have "r = replicate n ch @ info" by (metis takeWhile_dropWhile_id)
  with line \<open>3 \<le> n\<close> show ?thesis using that by blast
qed

lemma strip_indent_not_closing:
  assumes "is_indented line"
  shows "\<not> md_closes (backtick, 3) (strip_indent line)"
proof
  assume closes: "md_closes (backtick, 3) (strip_indent line)"
  have "\<not> md_closes (backtick, 3) line" using assms by (simp add: md_closes_def md_fence_def md_indented_iff)
  with closes have ticks: "\<not> starts_with (trim_start (strip_indent line)) [backtick, backtick, backtick]"
    by (auto simp: strip_indent_def Let_def split: if_splits)
  from closes obtain n info where "md_fence (strip_indent line) = Some (backtick, n, info)"
    by (auto simp: md_closes_def split: option.splits)
  then obtain k where k: "strip_indent line = replicate k (CHR '' '') @ replicate n backtick @ info" "3 \<le> n"
    by (rule md_fence_shape)
  then have "trim_start (strip_indent line) = replicate n backtick @ info"
    using trim_start_spaces_ticks [of n k info] by simp
  moreover obtain m where "n = Suc (Suc (Suc m))" using k(2) by (metis Suc_le_D numeral_3_eq_3 Suc_le_mono)
  ultimately show False using ticks by (simp add: starts_with_def)
qed

section \<open>Prose\<close>

text \<open>Escaping only inserts characters: none of the line is lost or reordered.\<close>

lemma subseq_cut: "subseq (drop n s) t \<Longrightarrow> subseq s (take n s @ t)"
  by (metis append_take_drop_id subseq_append')

lemma sanitize_line_step:
  assumes "s \<noteq> []"
  obtains pre n post where "0 < n" "set pre \<subseteq> {backslash, CHR ''<''}" "set post \<subseteq> {CHR ''>''}"
    "sanitize_line s = pre @ take n s @ post @ sanitize_line (drop n s)"
proof -
  obtain b bs where s: "s = b # bs" using assms by (cases s) auto
  have "0 < first_char_len s" using s by (simp add: Let_def)
  note simps = s sanitize_line.simps(2) push_char_def
  consider (tick) "b = backtick" | (esc) "b = backslash" | (link) "b = CHR ''[''" | (angle) "b = CHR ''<''" | (url) "b = CHR ''h''"
    | (close) "b = CHR '']'' \<or> b = CHR ''>''"
    | (other) "b \<notin> {backtick, backslash, CHR ''['', CHR '']'', CHR ''<'', CHR ''>'', CHR ''h''}" by blast
  then show ?thesis
  proof cases
    case tick
    let ?run = "takeWhile (\<lambda>c. c = backtick) s" and ?rest = "dropWhile (\<lambda>c. c = backtick) s"
    have parts: "take (length ?run + e) s = ?run @ take e ?rest" "drop (length ?run + e) s = drop e ?rest" for e
      by (metis append_take_drop_id takeWhile_dropWhile_id take_add append_eq_conv_conj,
          metis add.commute drop_drop dropWhile_eq_drop)
    have eq: "sanitize_line s = (case find_backtick_closer ?rest (length ?run) of
        Some e \<Rightarrow> ?run @ take e ?rest @ sanitize_line (drop e ?rest) | None \<Rightarrow> ?run @ sanitize_line ?rest)"
      using tick unfolding s sanitize_line.simps(2) by (simp add: Let_def split: option.split)
    have "0 < length ?run" using tick s by simp
    then show ?thesis
      using that [of "length ?run" "[]" "[]"] that [of "length ?run + the (find_backtick_closer ?rest (length ?run))" "[]" "[]"]
        parts [of 0] parts [of "the (find_backtick_closer ?rest (length ?run))"] eq
      by (cases "find_backtick_closer ?rest (length ?run)") simp_all
  next
    case esc
    then show ?thesis using that [of "Suc (first_char_len bs)" "[]" "[]"] by (simp add: simps)
  next
    case link
    then show ?thesis
      using that [of 1 "[backslash]" "[]"] that [of "Suc (the (find_inline_link_end s))" "[]" "[]"]
      by (cases "find_inline_link_end s") (simp_all add: simps)
  next
    case angle
    then show ?thesis
      using that [of 1 "[backslash]" "[]"] that [of "Suc (the (find_autolink_end s))" "[]" "[]"]
      by (cases "find_autolink_end s") (simp_all add: simps)
  next
    case url
    then show ?thesis
      using that [of 1 "[]" "[]"] that [of "the (find_bare_url_end s)" "[CHR ''<'']" "[CHR ''>'']"]
        find_bare_url_end_positive [of s]
      by (cases "find_bare_url_end s") (simp_all add: simps)
  next
    case close
    then show ?thesis using that [of 1 "[backslash]" "[]"] by (auto simp: simps)
  next
    case other
    then show ?thesis using that [of "first_char_len s" "[]" "[]"] \<open>0 < first_char_len s\<close>
      by (simp add: simps del: first_char_len.simps)
  qed
qed

lemma sanitize_line_subseq: "subseq s (sanitize_line s)"
proof (induction "length s" arbitrary: s rule: less_induct)
  case less
  show ?case
  proof (cases "s = []")
    case False
    then obtain pre n post where n: "0 < n" and out: "sanitize_line s = pre @ take n s @ post @ sanitize_line (drop n s)"
      by (rule sanitize_line_step)
    have "subseq (drop n s) (sanitize_line (drop n s))" using less n False by simp
    then have "subseq (drop n s) (post @ sanitize_line (drop n s))" by (rule list_emb_append2)
    then have "subseq s (take n s @ post @ sanitize_line (drop n s))" by (rule subseq_cut)
    then have "subseq s (pre @ take n s @ post @ sanitize_line (drop n s))" by (rule list_emb_append2)
    then show ?thesis by (simp only: out)
  qed simp
qed

lemma set_sanitize_line: "set (sanitize_line s) \<subseteq> set s \<union> {backslash, CHR ''<'', CHR ''>''}"
proof (induction "length s" arbitrary: s rule: less_induct)
  case less
  show ?case
  proof (cases "s = []")
    case False
    then obtain pre n post where n: "0 < n" "set pre \<subseteq> {backslash, CHR ''<''}" "set post \<subseteq> {CHR ''>''}"
      and out: "sanitize_line s = pre @ take n s @ post @ sanitize_line (drop n s)"
      by (rule sanitize_line_step)
    have "set (sanitize_line (drop n s)) \<subseteq> set (drop n s) \<union> {backslash, CHR ''<'', CHR ''>''}" using less n False by simp
    then show ?thesis using n set_take_subset [of n s] set_drop_subset [of n s] unfolding out by auto
  qed simp
qed

lemma sanitize_line_hd: "sanitize_line (c # s) \<noteq> [] \<and> hd (sanitize_line (c # s)) \<in> {c, backslash, CHR ''<''}"
  by (auto simp: sanitize_line.simps(2) Let_def push_char_def split: option.splits)

lemma sanitize_line_hd_neq:
  "r = [] \<or> hd r \<noteq> ch \<Longrightarrow> ch \<noteq> backslash \<Longrightarrow> ch \<noteq> CHR ''<'' \<Longrightarrow>
    sanitize_line r = [] \<or> hd (sanitize_line r) \<noteq> ch"
  using sanitize_line_hd [of "hd r" "tl r"] by (cases r) auto

lemma sanitize_line_copy:
  "sanitize_line (CHR '' '' # s) = CHR '' '' # sanitize_line s"
  "sanitize_line (tilde # s) = tilde # sanitize_line s"
  by (simp_all add: sanitize_line.simps(2) push_char_def)


lemma take_dropWhile_run:
  "r = [] \<or> hd r \<noteq> c \<Longrightarrow> takeWhile (\<lambda>x. x = c) (replicate n c @ r) = replicate n c"
  "r = [] \<or> hd r \<noteq> c \<Longrightarrow> dropWhile (\<lambda>x. x = c) (replicate n c @ r) = r"
  by (induction n) (cases r; auto)+

lemma find_backtick_closer_positive: "find_backtick_closer s n = Some e \<Longrightarrow> 0 < e"
  by (cases s) (auto split: if_splits simp: Let_def)

lemma sanitize_line_run:
  assumes "0 < n" "r = [] \<or> hd r \<noteq> backtick"
  obtains v where "sanitize_line (replicate n backtick @ r) = replicate n backtick @ v"
    "v = [] \<or> hd v \<noteq> backtick" "backtick \<in> set r \<longrightarrow> backtick \<in> set v"
proof -
  obtain m where n: "n = Suc m" using assms(1) by (cases n) auto
  note run = take_dropWhile_run [OF assms(2), of m]
  show ?thesis
  proof (cases "find_backtick_closer r n")
    case None
    have "sanitize_line (replicate n backtick @ r) = replicate n backtick @ sanitize_line r"
      using None by (simp add: n sanitize_line.simps(2) run Let_def)
    moreover have "sanitize_line r = [] \<or> hd (sanitize_line r) \<noteq> backtick"
      by (rule sanitize_line_hd_neq [OF assms(2)]) simp_all
    moreover have "backtick \<in> set (sanitize_line r)" if "backtick \<in> set r"
      using that sanitize_line_subseq [of r] by (auto dest: list_emb_set)
    ultimately show ?thesis using that by blast
  next
    case (Some e)
    let ?v = "take e r @ sanitize_line (drop e r)"
    have "sanitize_line (replicate n backtick @ r) = replicate n backtick @ ?v"
      using Some by (simp add: n sanitize_line.simps(2) run Let_def)
    moreover have "r \<noteq> []" "0 < e" using Some find_backtick_closer_positive by (auto split: list.splits)
    then have "hd ?v \<noteq> backtick" using assms(2) by (cases r; cases e) auto
    moreover have "backtick \<in> set ?v" if "backtick \<in> set r"
    proof -
      have "subseq r ?v" by (rule subseq_cut [OF sanitize_line_subseq])
      from list_emb_set [OF this that] show ?thesis by auto
    qed
    ultimately show ?thesis using that by blast
  qed
qed

lemma md_fence_unindented:
  assumes "k < 4" "v = [] \<or> hd v \<notin> {CHR '' '', tab}"
  shows "\<not> md_indented (replicate k (CHR '' '') @ v)"
    and "dropWhile (\<lambda>c. c = CHR '' '' \<or> c = tab) (replicate k (CHR '' '') @ v) = v"
proof -
  have "indent_columns k v = k" using assms(2) by (cases v) auto
  then show "\<not> md_indented (replicate k (CHR '' '') @ v)" using assms(1) by (simp add: md_indented_def indent_columns_spaces)
  show "dropWhile (\<lambda>c. c = CHR '' '' \<or> c = tab) (replicate k (CHR '' '') @ v) = v"
    using assms(2) by (induction k) (cases v; auto)+
qed

definition md_prose :: "string \<Rightarrow> bool" where
  "md_prose line \<longleftrightarrow> md_fence line = None \<and> \<not> md_indented line"

lemma md_prose_run:
  assumes "k < 4" "0 < n" "ch \<noteq> CHR '' ''" "ch \<noteq> tab" "r = [] \<or> hd r \<noteq> ch"
  shows "md_prose (replicate k (CHR '' '') @ replicate n ch @ r) \<longleftrightarrow>
    \<not> (ch \<in> {backtick, tilde} \<and> 3 \<le> n \<and> \<not> (ch = backtick \<and> backtick \<in> set r))"
proof -
  obtain m where n: "n = Suc m" using assms(2) by (cases n) auto
  have v: "replicate n ch @ r = [] \<or> hd (replicate n ch @ r) \<notin> {CHR '' '', tab}" using assms(3,4) by (simp add: n)
  note u = md_fence_unindented [OF assms(1) v]
  show ?thesis
    unfolding md_prose_def md_fence_def u using u(1) take_dropWhile_run [OF assms(5), of m]
    by (cases "ch = backtick") (simp_all add: n Let_def)
qed

lemma md_prose_other:
  assumes "k < 4" "v = [] \<or> hd v \<notin> {CHR '' '', tab, backtick, tilde}"
  shows "md_prose (replicate k (CHR '' '') @ v)"
proof -
  have v: "v = [] \<or> hd v \<notin> {CHR '' '', tab}" using assms(2) by auto
  note u = md_fence_unindented [OF assms(1) v]
  show ?thesis unfolding md_prose_def md_fence_def u using u(1) assms(2) by (cases v) (auto simp: Let_def)
qed

lemma sanitize_line_copies:
  "sanitize_line (replicate k (CHR '' '') @ r) = replicate k (CHR '' '') @ sanitize_line r"
  "sanitize_line (replicate k tilde @ r) = replicate k tilde @ sanitize_line r"
  by (induction k) (simp_all add: sanitize_line_copy)

lemma sanitize_line_prose:
  assumes "md_prose line"
  shows "md_prose (sanitize_line line)"
proof -
  obtain k r where line: "line = replicate k (CHR '' '') @ r" and r: "r = [] \<or> hd r \<noteq> CHR '' ''"
    by (rule spaces_split [of line])
  from assms have "\<not> md_indented line" by (simp add: md_prose_def)
  then have k: "k < 4" and notab: "r = [] \<or> hd r \<noteq> tab"
  proof -
    have cols: "\<not> 4 \<le> indent_columns k r" using \<open>\<not> md_indented line\<close> by (simp add: md_indented_def line indent_columns_spaces)
    then show "k < 4" using indent_columns_mono [of k r] by simp
    have "4 \<le> k + (4 - k mod 4)" by presburger
    then show "r = [] \<or> hd r \<noteq> tab"
      using cols indent_columns_mono [of "k + (4 - k mod 4)" "tl r"] by (cases r) auto
  qed
  have out: "sanitize_line line = replicate k (CHR '' '') @ sanitize_line r" by (simp add: line sanitize_line_copies)
  consider "r = [] \<or> hd r \<notin> {backtick, tilde}" | ch where "ch \<in> {backtick, tilde}" "r \<noteq> []" "hd r = ch" by blast
  then show ?thesis
  proof cases
    case 1
    then have "sanitize_line r = [] \<or> hd (sanitize_line r) \<notin> {CHR '' '', tab, backtick, tilde}"
      using r notab sanitize_line_hd [of "hd r" "tl r"] by (cases r) auto
    then show ?thesis unfolding out by (rule md_prose_other [OF k])
  next
    case (2 ch)
    let ?n = "length (takeWhile (\<lambda>c. c = ch) r)" and ?r = "dropWhile (\<lambda>c. c = ch) r"
    have tw: "takeWhile (\<lambda>c. c = ch) r = replicate ?n ch"
      by (rule replicate_length_same [symmetric]) (auto dest: set_takeWhileD)
    then have rr: "r = replicate ?n ch @ ?r" by (metis takeWhile_dropWhile_id)
    have n: "0 < ?n" using 2 by (cases r) auto
    have rest: "?r = [] \<or> hd ?r \<noteq> ch" using hd_dropWhile [of "\<lambda>c. c = ch" r] by blast
    have ch: "ch \<noteq> CHR '' ''" "ch \<noteq> tab" using 2(1) by auto
    have prose: "\<not> (3 \<le> ?n \<and> \<not> (ch = backtick \<and> backtick \<in> set ?r))"
      using assms md_prose_run [OF k n ch rest] 2(1) unfolding line rr [symmetric] by blast
    show ?thesis
    proof (cases "ch = backtick")
      case True
      then have rest': "?r = [] \<or> hd ?r \<noteq> backtick" using rest by simp
      obtain v where v: "sanitize_line (replicate ?n backtick @ ?r) = replicate ?n backtick @ v"
          "v = [] \<or> hd v \<noteq> backtick" "backtick \<in> set ?r \<longrightarrow> backtick \<in> set v"
        by (rule sanitize_line_run [OF n rest'])
      have "sanitize_line r = replicate ?n ch @ v" by (subst rr) (simp only: v(1) [folded True])
      then show ?thesis unfolding out using md_prose_run [OF k n ch, of v] v prose True by auto
    next
      case False
      then have t: "ch = tilde" using 2(1) by simp
      have "sanitize_line r = sanitize_line (replicate ?n ch @ ?r)" using rr by (rule arg_cong)
      also have "\<dots> = replicate ?n ch @ sanitize_line ?r"
        unfolding t by (rule sanitize_line_copies(2))
      finally have "sanitize_line r = replicate ?n ch @ sanitize_line ?r" .
      moreover have "sanitize_line ?r = [] \<or> hd (sanitize_line ?r) \<noteq> ch"
        by (rule sanitize_line_hd_neq [OF rest]) (simp_all add: t)
      ultimately show ?thesis unfolding out using md_prose_run [OF k n ch, of "sanitize_line ?r"] prose False by auto
    qed
  qed
qed


section \<open>No doctest escapes\<close>

definition sanitizable :: "string \<Rightarrow> bool" where
  "sanitizable line \<longleftrightarrow> \<not> spaces_then_tab line \<and> \<not> fence_run_grows line"

text \<open>The reader's state while the sanitizer is in the given one.\<close>

fun reader_state :: "bool \<Rightarrow> (char \<times> nat) option \<Rightarrow> (char \<times> nat) option" where
  "reader_state in_code_block (Some open_f) = Some open_f"
| "reader_state True None = Some (backtick, 3)"
| "reader_state False None = None"

lemma md_closes_ticks: "md_closes (backtick, 3) [backtick, backtick, backtick]"
  by (simp add: md_closes_def md_ticks)

lemma md_closes_run: "ch \<in> {backtick, tilde} \<Longrightarrow> 3 \<le> n \<Longrightarrow> md_closes (ch, n) (replicate n ch)"
  using md_fence_line [of 0 ch n "[]"] by (simp add: md_closes_def)

lemma md_closes_blank: "\<not> md_closes open_f []"
  by (simp add: md_closes_def md_fence_def md_indented_def)

text \<open>The lines after a block is closed, the loop being outside any fence.\<close>

lemma md_safe_classified:
  assumes ok: "sanitizable line"
    and rest: "\<And>c open_f. \<lbrakk>\<not> (c \<and> open_f \<noteq> None); \<forall>ch n. open_f = Some (ch, n) \<longrightarrow> ch \<in> {backtick, tilde} \<and> 3 \<le> n\<rbrakk> \<Longrightarrow>
      md_safe (reader_state c open_f) (sanitize_lines c open_f lines)"
  shows "md_safe None (sanitize_lines False None (line # lines))"
proof (cases "fence_marker line")
  case (Some f)
  have "fence_ch f \<in> {backtick, tilde} \<and> 3 \<le> fence_len f" using Some by (auto elim: fence_marker_Some)
  then have "md_safe (Some (fence_ch f, fence_len f)) (sanitize_lines False (Some (fence_ch f, fence_len f)) lines)"
    using rest [of False "Some (fence_ch f, fence_len f)"] by simp
  moreover have "md_fence (fence_indent f @ replicate (fence_len f) (fence_ch f) @ fence_info (fence_rest f)) =
      Some (fence_ch f, fence_len f, fence_info (fence_rest f))"
    using md_fence_opener [OF Some] ok by (simp add: sanitizable_def)
  ultimately show ?thesis using Some by (simp add: fence_info_inert)
next
  case None
  show ?thesis
  proof (cases "is_indented line")
    case True
    with rest [of True None] None show ?thesis
      by (simp add: md_ticks [simplified] strip_indent_not_closing)
  next
    case False
    then have "md_prose line" using None ok by (simp add: md_prose_def fence_marker_md md_indented_iff sanitizable_def)
    from sanitize_line_prose [OF this] rest [of False None] None False show ?thesis by (simp add: md_prose_def)
  qed
qed

lemma sanitize_lines_in_block:
  assumes "\<not> is_indented line"
  shows "line = [] \<and> sanitize_lines True None (line # lines) = [] # sanitize_lines True None lines \<or>
    sanitize_lines True None (line # lines) = [backtick, backtick, backtick] # sanitize_lines False None (line # lines)"
proof (cases "line = [] \<and> (case List.find (\<lambda>l. l \<noteq> []) lines of Some l \<Rightarrow> is_indented l | None \<Rightarrow> False)")
  case True
  then show ?thesis using assms by simp
next
  case False
  then have "sanitize_lines True None (line # lines) =
      [backtick, backtick, backtick] # sanitize_lines False None (line # lines)"
    using assms by (simp only: sanitize_lines.simps if_False if_True simp_thms option.case append_Cons append_Nil)
  then show ?thesis ..
qed

lemma md_safe_sanitized:
  assumes "\<forall>l\<in>set lines. sanitizable l" "\<not> (in_code_block \<and> open_f \<noteq> None)"
    "\<forall>ch n. open_f = Some (ch, n) \<longrightarrow> ch \<in> {backtick, tilde} \<and> 3 \<le> n"
  shows "md_safe (reader_state in_code_block open_f) (sanitize_lines in_code_block open_f lines)"
  using assms
proof (induction lines arbitrary: in_code_block open_f)
  case Nil
  then show ?case
    by (cases open_f; cases in_code_block) (auto simp: md_closes_ticks md_closes_run)
next
  case (Cons line lines)
  have rest: "md_safe (reader_state c o_f) (sanitize_lines c o_f lines)"
    if "\<not> (c \<and> o_f \<noteq> None)" "\<forall>ch n. o_f = Some (ch, n) \<longrightarrow> ch \<in> {backtick, tilde} \<and> 3 \<le> n" for c o_f
    using Cons that by simp
  have classified: "md_safe None (sanitize_lines False None (line # lines))"
    by (rule md_safe_classified) (use Cons.prems rest in simp_all)
  show ?case
  proof (cases open_f)
    case (Some g)
    then have "\<not> in_code_block" using Cons.prems by simp
    then show ?thesis using Some rest [of False None] rest [of False "Some g"] Cons.prems(3)
      by (auto simp: md_closes_marker split: option.splits)
  next
    case None
    show ?thesis
    proof (cases in_code_block)
      case False
      with None classified show ?thesis by simp
    next
      case True
      consider "is_indented line"
        | "line = []" "sanitize_lines True None (line # lines) = [] # sanitize_lines True None lines"
        | "sanitize_lines True None (line # lines) =
             [backtick, backtick, backtick] # sanitize_lines False None (line # lines)"
        using sanitize_lines_in_block by blast
      then show ?thesis
      proof cases
        case 1
        then show ?thesis using None True rest [of True None] by (simp add: strip_indent_not_closing)
      next
        case 2
        then show ?thesis using None True rest [of True None] md_closes_blank by simp
      next
        case 3
        then show ?thesis using None True classified md_closes_ticks by simp
      qed
    qed
  qed
qed


text \<open>The output's lines are the ones the loop pushed, none holding a newline.\<close>

lemma set_strip_indent: "set (strip_indent line) \<subseteq> set line"
  by (auto simp: strip_indent_def Let_def strip_prefix_Some_iff split: option.splits)

lemma set_fence_info: "set (fence_info info) \<subseteq> set info \<union> set ''rust,ignoretext''"
proof (cases rule: fence_info_cases [of info])
  case (3 ts)
  show ?thesis using set_join_with [of "'',''" ts] 3(6) unfolding 3(1) by fastforce
qed auto

lemma fence_marker_set: "fence_marker line = Some f \<Longrightarrow> set (fence_rest f) \<subseteq> set line"
  by (auto simp: fence_marker_def Let_def split: if_splits list.splits dest!: set_dropWhileD)
    (metis dropWhile_eq_drop in_set_dropD list.set_intros(2))+

lemma sanitize_lines_no_newline:
  assumes "\<forall>l\<in>set lines. newline \<notin> set l" "\<forall>ch n. open_f = Some (ch, n) \<longrightarrow> ch \<in> {backtick, tilde}"
  shows "\<forall>l\<in>set (sanitize_lines in_code_block open_f lines). newline \<notin> set l"
  using assms
proof (induction lines arbitrary: in_code_block open_f)
  case Nil
  then show ?case by (auto split: option.splits)
next
  case (Cons line lines)
  have ch: "fence_ch f \<in> {backtick, tilde} \<and> newline \<notin> set (fence_indent f)" if "fence_marker line = Some f" for f
    using that by (auto elim!: fence_marker_Some)
  have IH: "\<forall>l\<in>set (sanitize_lines c o_f lines). newline \<notin> set l"
    if "\<forall>ch n. o_f = Some (ch, n) \<longrightarrow> ch \<in> {backtick, tilde}" for c o_f
    using Cons that by simp
  have "newline \<notin> set line" using Cons.prems by simp
  then have n: "newline \<notin> set (strip_indent line)" "newline \<notin> set (sanitize_line line)"
    "fence_marker line = Some f \<Longrightarrow> newline \<notin> set (fence_info (fence_rest f))" for f
    using set_strip_indent [of line] set_sanitize_line [of line] fence_marker_set [of line f] set_fence_info [of "fence_rest f"]
    by auto
  have classified: "\<forall>l\<in>set (sanitize_lines False None (line # lines)). newline \<notin> set l"
  proof (cases "fence_marker line")
    case None
    then show ?thesis using n IH [of None] by simp
  next
    case (Some f)
    from ch [OF Some] n(3) [OF Some] IH [of "Some (fence_ch f, fence_len f)" False] Some show ?thesis by auto
  qed
  show ?case
  proof (cases open_f)
    case (Some g)
    have "\<forall>l\<in>set (sanitize_lines in_code_block (if c then None else Some g) lines). newline \<notin> set l" for c
      by (rule IH) (use Cons.prems(2) Some in auto)
    from this [of True] this [of False] show ?thesis
      using Some Cons.prems(1) by (auto split: option.splits)
  next
    case None
    show ?thesis
    proof (cases "in_code_block")
      case True
      note block = IH [of None True, simplified]
      consider "is_indented line"
        | "sanitize_lines True None (line # lines) = [] # sanitize_lines True None lines"
        | "sanitize_lines True None (line # lines) =
             [backtick, backtick, backtick] # sanitize_lines False None (line # lines)"
        using sanitize_lines_in_block by blast
      then show ?thesis
      proof cases
        case 1
        then show ?thesis unfolding None using True n(1) block by simp
      next
        case 2
        then show ?thesis unfolding None using True block by simp
      next
        case 3
        have "in_code_block = True" using True by simp
        then show ?thesis unfolding None using classified by (simp only: 3 set_simps ball_simps) simp
      qed
    qed (use None classified in simp)
  qed
qed


lemma str_lines_no_newline: "l \<in> set (str_lines s) \<Longrightarrow> newline \<notin> set l"
  using split_on_pieces [of _ newline s]
  by (auto simp: str_lines_def Let_def strip_cr_def split: if_splits dest!: in_set_butlastD)

lemma split_on_join:
  assumes "\<forall>t\<in>set ts. c \<notin> set t" "ts \<noteq> []"
  shows "split_on c (join_with [c] ts) = ts"
  using assms
proof (induction "[c]" ts rule: join_with.induct)
  case (3 x y ys)
  then show ?case by (simp add: split_on_append_sep)
qed simp_all

lemma sanitized_lines:
  "split_on newline (sanitize_comment s) =
    (if sanitize_lines False None (str_lines s) = [] then [[]] else sanitize_lines False None (str_lines s))"
  using sanitize_lines_no_newline [of "str_lines s" None False] str_lines_no_newline [of _ s]
  by (simp add: sanitize_comment_def split_on_join)



text \<open>
  Outside these hypotheses the sanitizer can be escaped. In the first comment the tilde after the
  space joins the run, so the reader's fence has four tildes where the sanitizer counts three; the
  two disagree from there on, and the last line is indented code to the reader. In the second a
  space and a tab indent by four columns.
\<close>

definition tilde_escape :: string where
  "tilde_escape = join_with [newline]
     [''~~~ ~x'', ''~~~'', [backtick, backtick, backtick], ''~~~~'', [], ''    run();'']"

definition tab_escape :: string where
  "tab_escape = CHR '' '' # tab # ''run();''"

lemma sanitizer_escapes:
  "\<not> md_safe None (split_on newline (sanitize_comment tilde_escape))"
  "\<not> md_safe None (split_on newline (sanitize_comment tab_escape))"
  by code_simp+

end
