(* ===== verification/Codegen.thy ===== *)
theory Codegen
  imports Comments Router Trailers
begin

text \<open>
  The code generator's decisions (\<^verbatim>\<open>connectrpc-codegen/src/codegen.rs\<close>): which module-scope items
  it emits for a batch of proto files and under which names, which clashes it refuses or avoids,
  what the emitted \<^verbatim>\<open>Spec\<close> constants hold, how options are parsed and files are stitched together.
  A token stream is the list of the items it declares; the bodies of a service's items are a
  parameter. The case conversions of \<^verbatim>\<open>heck\<close>, the \<^verbatim>\<open>Debug\<close> form of strings, type resolution,
  file naming and formatting are library code: the records \<open>cg_libs\<close> and \<open>resolver\<close>.
\<close>

section \<open>Descriptors and libraries\<close>

datatype idempotency_option = IoUnknown | IoNoSideEffects | IoIdempotent

record method_proto =
  mp_name :: "string option"
  mp_input_type :: "string option"
  mp_output_type :: "string option"
  mp_client_streaming :: "bool option"
  mp_server_streaming :: "bool option"
  mp_idempotency :: "idempotency_option option"

record service_proto =
  sp_name :: "string option"
  sp_method :: "method_proto list"

datatype message_proto = MessageProto (msg_name: "string option") (msg_map_entry: "bool option")
    (msg_nested: "message_proto list")

record file_proto =
  fp_name :: "string option"
  fp_package :: "string option"
  fp_service :: "service_proto list"
  fp_message_type :: "message_proto list"
  fp_enum_type :: "string option list"
  fp_location :: "location list"

record cg_libs =
  cg_snake :: "string \<Rightarrow> string"
  cg_camel :: "string \<Rightarrow> string"
  cg_upper :: "string \<Rightarrow> string"
  cg_debug :: "string \<Rightarrow> string"
  cg_valid_feature :: "string \<Rightarrow> bool"
  cg_stem :: "string \<Rightarrow> string"
  cg_package_filename :: "string \<Rightarrow> string"
  cg_package_mod_filename :: "string \<Rightarrow> string"

text \<open>\<^verbatim>\<open>unwrap_or("")\<close>.\<close>

definition or_empty :: "string option \<Rightarrow> string" where
  "or_empty s = (case s of Some t \<Rightarrow> t | None \<Rightarrow> [])"

section \<open>Type paths\<close>

record resolver =
  rv_relative :: "string \<Rightarrow> string \<Rightarrow> string option"
  rv_split :: "string \<Rightarrow> string \<Rightarrow> (string \<times> string) option"
  rv_sentinel_mod :: string
  rv_require_extern :: bool
  rv_lazy_views :: bool
  rv_type_name_prefix :: string

definition GENERIC_PARAMS :: "string list" where
  "GENERIC_PARAMS = [''S'', ''T'']"

text \<open>The first piece of \<^verbatim>\<open>path.split("::")\<close>.\<close>

fun first_segment :: "string \<Rightarrow> string" where
  "first_segment [] = []"
| "first_segment [c] = [c]"
| "first_segment (c # d # cs) = (if c = CHR '':'' \<and> d = CHR '':'' then [] else c # first_segment (d # cs))"

definition module_qualified :: "string \<Rightarrow> string" where
  "module_qualified path = (if first_segment path \<in> set GENERIC_PARAMS then ''self::'' @ path else path)"

text \<open>The last piece of \<^verbatim>\<open>split('.')\<close>, without the leading dot.\<close>

definition bare_type_name :: "string \<Rightarrow> string" where
  "bare_type_name fqn =
     last (split_on (CHR ''.'') (case strip_prefix ''.'' fqn of Some r \<Rightarrow> r | None \<Rightarrow> fqn))"

definition check_extern_coverage :: "resolver \<Rightarrow> string \<Rightarrow> string \<Rightarrow> (unit, string) result" where
  "check_extern_coverage rv fqn path_prefix =
     (if rv_require_extern rv \<and> \<not> starts_with path_prefix ''::'' \<and> \<not> starts_with path_prefix ''crate::''
      then Err (''type '' @ fqn @ '' is not covered by any extern_path mapping. Add extern_path=.=<your_buffa_module> (e.g. extern_path=.=crate::proto) to the plugin opts.'')
      else Ok ())"

definition unresolved_type_error :: "resolver \<Rightarrow> string \<Rightarrow> string" where
  "unresolved_type_error rv fqn =
     (let hint = if rv_require_extern rv then []
                 else '' for a precompiled descriptor set, rebuild it with --include_imports''
      in ''type '' @ fqn @ '' not found in descriptor set (missing proto import?'' @ hint @ '')'')"

definition resolve_path :: "resolver \<Rightarrow> string \<Rightarrow> string \<Rightarrow> (string, string) result" where
  "resolve_path rv fqn current_package =
     (case rv_relative rv fqn current_package of
        Some path \<Rightarrow> result_bind (check_extern_coverage rv fqn path) (\<lambda>_. Ok (module_qualified path))
      | None \<Rightarrow> Err (unresolved_type_error rv fqn))"

definition rust_type :: "resolver \<Rightarrow> string \<Rightarrow> string \<Rightarrow> (string, string) result" where
  "rust_type rv fqn current_package = resolve_path rv fqn current_package"

definition rust_view_type :: "resolver \<Rightarrow> string \<Rightarrow> string \<Rightarrow> (string, string) result" where
  "rust_view_type rv fqn current_package =
     (case rv_split rv fqn current_package of
        Some (to_package, within) \<Rightarrow>
          result_bind (check_extern_coverage rv fqn to_package) (\<lambda>_.
            (let prefix = (if to_package = [] then rv_sentinel_mod rv @ ''::view''
                           else to_package @ ''::'' @ rv_sentinel_mod rv @ ''::view'')
             in Ok (module_qualified (prefix @ ''::'' @ within @ ''View''))))
      | None \<Rightarrow> Err (unresolved_type_error rv fqn))"

section \<open>The batch\<close>

type_synonym idents_by_package = "string \<Rightarrow> string \<Rightarrow> string option"

record batch_state =
  bs_encodable_seen :: "string set"
  bs_alias_seen :: "(string \<times> string) set"
  bs_colliding_aliases :: "(string \<times> string) set"
  bs_module_idents :: idents_by_package
  bs_root_types :: idents_by_package
  bs_all_message_encodable_impls :: bool

record service_idents =
  si_trait_name :: string
  si_ext_trait_name :: string
  si_register_marker_name :: string
  si_client_name :: string
  si_server_name :: string
  si_service_name_const :: string

definition service_idents_new :: "cg_libs \<Rightarrow> string \<Rightarrow> service_idents" where
  "service_idents_new l service_name =
     (let service_upper = cg_camel l service_name in
      \<lparr>si_trait_name = (if service_upper = ''Self'' then ''Self_'' else service_upper),
       si_ext_trait_name = service_upper @ ''Ext'',
       si_register_marker_name = service_upper @ ''RegisterMarker'',
       si_client_name = service_upper @ ''Client'',
       si_server_name = service_upper @ ''Server'',
       si_service_name_const = cg_upper l (cg_snake l service_name) @ ''_SERVICE_NAME''\<rparr>)"

definition si_types :: "service_idents \<Rightarrow> string list" where
  "si_types i = [si_trait_name i, si_ext_trait_name i, si_register_marker_name i, si_client_name i, si_server_name i]"

definition si_iter :: "service_idents \<Rightarrow> string list" where
  "si_iter i = si_types i @ [si_service_name_const i]"

definition method_spec_const_ident :: "cg_libs \<Rightarrow> service_proto \<Rightarrow> string \<Rightarrow> string" where
  "method_spec_const_ident l service method_name =
     cg_upper l (cg_snake l (or_empty (sp_name service))) @ ''_'' @ cg_upper l (cg_snake l method_name) @ ''_SPEC''"

definition owned_view_alias_ident :: "cg_libs \<Rightarrow> string \<Rightarrow> string" where
  "owned_view_alias_ident l fqn = ''Owned'' @ cg_camel l (bare_type_name fqn) @ ''View''"

definition alias_collides :: "cg_libs \<Rightarrow> batch_state \<Rightarrow> string \<Rightarrow> string \<Rightarrow> bool" where
  "alias_collides l batch current_package fqn =
     (let a = owned_view_alias_ident l fqn in
      bs_root_types batch current_package a \<noteq> None \<or> (current_package, a) \<in> bs_colliding_aliases batch)"

text \<open>\<^verbatim>\<open>[input, output].into_iter().flatten()\<close> over the methods of a file's services, in order.\<close>

definition method_types :: "method_proto \<Rightarrow> string list" where
  "method_types m = List.map_filter id [mp_input_type m, mp_output_type m]"

definition file_types :: "file_proto \<Rightarrow> string list" where
  "file_types file = concat (map (\<lambda>s. concat (map method_types (sp_method s))) (fp_service file))"

text \<open>The types the protobuf library declares at the root of each package's module.\<close>

definition root_producer :: "string \<Rightarrow> string \<Rightarrow> string \<Rightarrow> string \<Rightarrow> string" where
  "root_producer kind package name file_name =
     (if package = [] then kind @ '' '' @ name @ '' in '' @ file_name
      else kind @ '' '' @ package @ ''.'' @ name @ '' in '' @ file_name)"

definition view_suffixes :: "resolver \<Rightarrow> string list" where
  "view_suffixes rv = (if rv_lazy_views rv then [''View'', ''OwnedView'', ''LazyView''] else [''View'', ''OwnedView''])"

definition claim_view ::
    "string \<Rightarrow> string \<Rightarrow> string \<Rightarrow> (string \<times> string \<Rightarrow> string option option) \<Rightarrow>
     (string \<times> string \<Rightarrow> string option option)" where
  "claim_view package name producer views =
     (case views (package, name) of
        Some _ \<Rightarrow> views((package, name) \<mapsto> None)
      | None \<Rightarrow> views((package, name) \<mapsto> Some producer))"

definition declare_root ::
    "resolver \<Rightarrow> file_proto \<Rightarrow> string \<times> string option \<times> string list \<Rightarrow>
     idents_by_package \<times> (string \<times> string \<Rightarrow> string option option) \<Rightarrow>
     idents_by_package \<times> (string \<times> string \<Rightarrow> string option option)" where
  "declare_root rv file item st =
     (let (kind, name_opt, suffixes) = item; (root_types, views) = st;
          package = or_empty (fp_package file); name = or_empty name_opt;
          rust_name = rv_type_name_prefix rv @ name;
          producer = root_producer kind package name (or_empty (fp_name file));
          views = fold (\<lambda>suffix. claim_view package (rust_name @ suffix) producer) suffixes views
      in (root_types(package := (root_types package)(rust_name \<mapsto> producer)), views))"

definition buffa_root_types :: "file_proto list \<Rightarrow> string list \<Rightarrow> resolver \<Rightarrow> idents_by_package" where
  "buffa_root_types proto_file file_to_generate rv =
     (if rv_require_extern rv then (\<lambda>_. Map.empty)
      else
        (let files = filter (\<lambda>f. case fp_name f of Some n \<Rightarrow> n \<in> set file_to_generate | None \<Rightarrow> False) proto_file;
             declared = (\<lambda>file. map (\<lambda>m. (''message'', msg_name m, view_suffixes rv)) (fp_message_type file) @
                                map (\<lambda>e. (''enum'', e, [])) (fp_enum_type file));
             (root_types, views) =
               fold (\<lambda>file. fold (declare_root rv file) (declared file)) files (\<lambda>_. Map.empty, Map.empty)
         in (\<lambda>package name.
               case root_types package name of
                 Some p \<Rightarrow> Some p
               | None \<Rightarrow> (case views (package, name) of Some (Some p) \<Rightarrow> Some p | _ \<Rightarrow> None))))"

text \<open>The pre-pass over every file to generate that finds the aliases two types would share.\<close>

definition note_alias ::
    "cg_libs \<Rightarrow> string \<Rightarrow> string \<Rightarrow> (string \<times> string \<Rightarrow> string option) \<times> (string \<times> string) set \<Rightarrow>
     (string \<times> string \<Rightarrow> string option) \<times> (string \<times> string) set" where
  "note_alias l package fqn st =
     (let (first_seen, colliding) = st; key = (package, owned_view_alias_ident l fqn) in
      case first_seen key of
        Some prev \<Rightarrow> if prev \<noteq> fqn then (first_seen, insert key colliding) else (first_seen, colliding)
      | None \<Rightarrow> (first_seen(key \<mapsto> fqn), colliding))"

definition note_service ::
    "cg_libs \<Rightarrow> string \<Rightarrow> service_proto \<Rightarrow> (string \<times> string \<Rightarrow> string option) \<times> (string \<times> string) set \<Rightarrow>
     (string \<times> string \<Rightarrow> string option) \<times> (string \<times> string) set" where
  "note_service l package service st =
     (let (first_seen, colliding) = st;
          colliding = colliding \<union> (\<lambda>i. (package, i)) ` set (si_types (service_idents_new l (or_empty (sp_name service))))
      in fold (note_alias l package) (concat (map method_types (sp_method service))) (first_seen, colliding))"

definition find_file :: "file_proto list \<Rightarrow> string \<Rightarrow> file_proto option" where
  "find_file proto_file file_name = List.find (\<lambda>f. fp_name f = Some file_name) proto_file"

definition collect_alias_collisions :: "cg_libs \<Rightarrow> file_proto list \<Rightarrow> string list \<Rightarrow> (string \<times> string) set" where
  "collect_alias_collisions l proto_file file_to_generate =
     snd (fold (\<lambda>file_name st.
       case find_file proto_file file_name of
         None \<Rightarrow> st
       | Some file \<Rightarrow> fold (note_service l (or_empty (fp_package file))) (fp_service file) st)
       file_to_generate (Map.empty, {}))"

section \<open>Items\<close>

text \<open>A service's own items with its \<^verbatim>\<open>Spec\<close> constants, and the three kinds of items around them.\<close>

datatype item =
    OwnedViewAlias string string
  | EncodableItem string string string
  | ServiceItem string service_idents "(string \<times> spec) list"

definition generate_owned_view_aliases ::
    "cg_libs \<Rightarrow> file_proto \<Rightarrow> resolver \<Rightarrow> batch_state \<Rightarrow> (item list \<times> batch_state, string) result" where
  "generate_owned_view_aliases l file rv batch =
     (let package = or_empty (fp_package file) in
      fold (\<lambda>fqn acc. result_bind acc (\<lambda>(out, batch).
        if alias_collides l batch package fqn then Ok (out, batch)
        else if (package, fqn) \<in> bs_alias_seen batch then Ok (out, batch)
        else
          result_bind (rust_view_type rv fqn package) (\<lambda>view.
            Ok (out @ [OwnedViewAlias (owned_view_alias_ident l fqn) view],
                batch\<lparr>bs_alias_seen := insert (package, fqn) (bs_alias_seen batch)\<rparr>))))
        (file_types file) (Ok ([], batch)))"

definition encodable_impl_pair ::
    "string \<Rightarrow> string \<Rightarrow> resolver \<Rightarrow> batch_state \<Rightarrow> (item option \<times> batch_state, string) result" where
  "encodable_impl_pair fqn package rv batch =
     (if fqn \<in> bs_encodable_seen batch then Ok (None, batch)
      else
        (let batch = batch\<lparr>bs_encodable_seen := insert fqn (bs_encodable_seen batch)\<rparr> in
         result_bind (resolve_path rv fqn package) (\<lambda>path.
           if starts_with path ''::'' then Ok (None, batch)
           else
             result_bind (rust_type rv fqn package) (\<lambda>owned.
             result_bind (rust_view_type rv fqn package) (\<lambda>view.
               Ok (Some (EncodableItem fqn owned view), batch))))))"

definition push_encodable ::
    "string \<Rightarrow> resolver \<Rightarrow> string \<Rightarrow> (item list \<times> batch_state, string) result \<Rightarrow> (item list \<times> batch_state, string) result" where
  "push_encodable package rv fqn acc =
     result_bind acc (\<lambda>(out, batch).
     result_bind (encodable_impl_pair fqn package rv batch) (\<lambda>(impls, batch).
       Ok (case impls of Some i \<Rightarrow> out @ [i] | None \<Rightarrow> out, batch)))"

definition generate_encodable_view_impls ::
    "file_proto \<Rightarrow> resolver \<Rightarrow> batch_state \<Rightarrow> (item list \<times> batch_state, string) result" where
  "generate_encodable_view_impls file rv batch =
     fold (push_encodable (or_empty (fp_package file)) rv)
       (concat (map (\<lambda>s. map (\<lambda>m. or_empty (mp_output_type m)) (sp_method s)) (fp_service file))) (Ok ([], batch))"

text \<open>
  The recursion over nested messages: a message before the messages nested in it, map entries
  left out with everything below them.
\<close>

fun message_fqns :: "string \<Rightarrow> message_proto \<Rightarrow> string list" where
  "message_fqns fqn_prefix (MessageProto name map_entry nested) =
     (if map_entry = Some True then []
      else
        (let fqn = fqn_prefix @ ''.'' @ or_empty name in fqn # concat (map (message_fqns fqn) nested)))"

definition generate_all_message_encodable_impls ::
    "file_proto \<Rightarrow> resolver \<Rightarrow> batch_state \<Rightarrow> (item list \<times> batch_state, string) result" where
  "generate_all_message_encodable_impls file rv batch =
     (let package = or_empty (fp_package file);
          fqn_prefix = (if package = [] then [] else ''.'' @ package)
      in fold (push_encodable package rv) (concat (map (message_fqns fqn_prefix) (fp_message_type file))) (Ok ([], batch)))"

section \<open>Clashes of service items\<close>

fun check_method_names ::
    "cg_libs \<Rightarrow> string \<Rightarrow> method_proto list \<Rightarrow> (string \<Rightarrow> string option) \<Rightarrow> (unit, string) result" where
  "check_method_names l service_name [] seen = Ok ()"
| "check_method_names l service_name (m # ms) seen =
     (let proto_name = or_empty (mp_name m);
          snake = cg_snake l proto_name;
          idents = [snake, snake @ ''_with_options'']
      in case List.find (\<lambda>i. seen i \<noteq> None) idents of
           Some ident \<Rightarrow>
             Err (''service '' @ service_name @ '': RPC methods '' @ cg_debug l (the (seen ident)) @ '' and '' @
               cg_debug l proto_name @ '' both generate Rust identifier `'' @ ident @ ''`; rename one in the proto'')
         | None \<Rightarrow>
             check_method_names l service_name ms (fold (\<lambda>i seen. seen(i \<mapsto> proto_name)) idents seen))"

definition check_method_collisions :: "cg_libs \<Rightarrow> string \<Rightarrow> service_proto \<Rightarrow> (unit, string) result" where
  "check_method_collisions l service_name service = check_method_names l service_name (sp_method service) Map.empty"

text \<open>The loop that claims the identifiers of a module for their producers.\<close>

fun claim_idents ::
    "string \<Rightarrow> (string \<times> string) list \<Rightarrow> (string \<Rightarrow> string option) \<Rightarrow> (string \<Rightarrow> string option, string) result" where
  "claim_idents file_name [] module_map = Ok module_map"
| "claim_idents file_name ((ident, producer) # items) module_map =
     (case module_map ident of
        Some prev \<Rightarrow>
          if prev = producer
          then Err (producer @ '' was generated twice; is '' @ file_name @ '' listed more than once in the files to generate?'')
          else Err (prev @ '' and '' @ producer @ '' both generate Rust identifier `'' @ ident @ ''`; rename one in the proto'')
      | None \<Rightarrow> claim_idents file_name items (module_map(ident \<mapsto> producer)))"

definition module_items :: "cg_libs \<Rightarrow> file_proto \<Rightarrow> string \<Rightarrow> service_proto \<Rightarrow> service_idents \<Rightarrow> (string \<times> string) list" where
  "module_items l file full_service_name service idents =
     (let file_name = or_empty (fp_name file) in
      map (\<lambda>ident. (ident, ''service '' @ full_service_name @ '' in '' @ file_name)) (si_iter idents) @
      map (\<lambda>m. (method_spec_const_ident l service (or_empty (mp_name m)),
                 ''method '' @ full_service_name @ ''.'' @ or_empty (mp_name m) @ '' in '' @ file_name)) (sp_method service))"

definition check_module_collisions ::
    "cg_libs \<Rightarrow> file_proto \<Rightarrow> string \<Rightarrow> service_proto \<Rightarrow> service_idents \<Rightarrow> batch_state \<Rightarrow> (batch_state, string) result" where
  "check_module_collisions l file full_service_name service idents batch =
     (let file_name = or_empty (fp_name file); package = or_empty (fp_package file) in
      case List.find (\<lambda>i. bs_root_types batch package i \<noteq> None) (si_types idents) of
        Some ident \<Rightarrow>
          Err (the (bs_root_types batch package ident) @ '' and service '' @ full_service_name @ '' in '' @ file_name @
            '' both generate Rust identifier `'' @ ident @ ''`; rename one in the proto, or set `type_name_prefix` in the buffa config'')
      | None \<Rightarrow>
          result_map (\<lambda>module_map. batch\<lparr>bs_module_idents := (bs_module_idents batch)(package := module_map)\<rparr>)
            (claim_idents file_name (module_items l file full_service_name service idents) (bs_module_idents batch package)))"

section \<open>Services\<close>

definition proto_stream_type :: "method_proto \<Rightarrow> stream_type" where
  "proto_stream_type m =
     (case (mp_client_streaming m = Some True, mp_server_streaming m = Some True) of
        (True, True) \<Rightarrow> StBidiStream
      | (True, False) \<Rightarrow> StClientStream
      | (False, True) \<Rightarrow> StServerStream
      | (False, False) \<Rightarrow> StUnary)"

definition proto_idempotency :: "method_proto \<Rightarrow> idempotency_level" where
  "proto_idempotency m =
     (case mp_idempotency m of
        Some IoNoSideEffects \<Rightarrow> NoSideEffects
      | Some IoIdempotent \<Rightarrow> Idempotent
      | _ \<Rightarrow> LevelUnknown)"

text \<open>The value each emitted constant has: \<^verbatim>\<open>Spec::server(...).with_idempotency_level(...)\<close>.\<close>

definition generate_spec_consts :: "cg_libs \<Rightarrow> string \<Rightarrow> service_proto \<Rightarrow> (string \<times> spec) list" where
  "generate_spec_consts l full_service_name service =
     map (\<lambda>m.
       (let method_name = or_empty (mp_name m) in
        (method_spec_const_ident l service method_name,
         with_idempotency_level (proto_idempotency m)
           \<lparr>procedure = ''/'' @ full_service_name @ ''/'' @ method_name, spec_stream_type = proto_stream_type m,
            spec_origin_of = OriginServer, spec_idempotency_level = LevelUnknown\<rparr>)))
       (sp_method service)"

definition full_service_name :: "string \<Rightarrow> string \<Rightarrow> string" where
  "full_service_name package service_name =
     (if package = [] then service_name else package @ ''.'' @ service_name)"

text \<open>
  \<open>emit_bodies\<close> stands for the templates of the service's items: they may fail to resolve a type
  but declare no further item at module scope.
\<close>

definition generate_service ::
    "cg_libs \<Rightarrow> (file_proto \<Rightarrow> service_proto \<Rightarrow> (unit, string) result) \<Rightarrow> file_proto \<Rightarrow> service_proto \<Rightarrow>
     batch_state \<Rightarrow> (item \<times> batch_state, string) result" where
  "generate_service l emit_bodies file service batch =
     (let service_name = or_empty (sp_name service);
          full = full_service_name (or_empty (fp_package file)) service_name;
          idents = service_idents_new l service_name
      in
      result_bind (check_method_collisions l service_name service) (\<lambda>_.
      result_bind (check_module_collisions l file full service idents batch) (\<lambda>batch.
      result_bind (emit_bodies file service) (\<lambda>_.
        Ok (ServiceItem full idents (generate_spec_consts l full service), batch)))))"

definition push_service ::
    "cg_libs \<Rightarrow> (file_proto \<Rightarrow> service_proto \<Rightarrow> (unit, string) result) \<Rightarrow> file_proto \<Rightarrow> service_proto \<Rightarrow>
     (item list \<times> batch_state, string) result \<Rightarrow> (item list \<times> batch_state, string) result" where
  "push_service l emit_bodies file service acc =
     result_bind acc (\<lambda>(out, batch).
     result_bind (generate_service l emit_bodies file service batch) (\<lambda>(i, batch). Ok (out @ [i], batch)))"

definition generate_connect_services ::
    "cg_libs \<Rightarrow> (file_proto \<Rightarrow> service_proto \<Rightarrow> (unit, string) result) \<Rightarrow> file_proto \<Rightarrow> resolver \<Rightarrow> batch_state \<Rightarrow>
     (item list \<times> batch_state, string) result" where
  "generate_connect_services l emit_bodies file rv batch =
     result_bind (generate_owned_view_aliases l file rv batch) (\<lambda>(aliases, batch).
     result_bind (generate_encodable_view_impls file rv batch) (\<lambda>(impls, batch).
     result_bind (if bs_all_message_encodable_impls batch then generate_all_message_encodable_impls file rv batch
                  else Ok ([], batch)) (\<lambda>(all_impls, batch).
     result_bind (fold (push_service l emit_bodies file) (fp_service file) (Ok ([], batch))) (\<lambda>(services, batch).
       Ok (aliases @ impls @ all_impls @ services, batch)))))"

section \<open>Files\<close>

datatype file_kind = Companion | PackageMod | OtherKind

record generated_file =
  gf_name :: string
  gf_package :: string
  gf_kind :: file_kind
  gf_content :: string

datatype encodable_impls = Outputs | AllMessages

record buffa_config =
  bc_extern_paths :: "(string \<times> string) list"
  bc_file_per_package :: bool
  bc_strict_utf8_mapping :: bool
  bc_generate_json :: bool
  bc_emit_register_fn :: bool
  bc_generate_views :: bool

record cg_options =
  op_buffa :: buffa_config
  op_gate_client_feature :: bool
  op_client_feature_name :: string
  op_encodable_impls :: encodable_impls

definition options_default :: "buffa_config \<Rightarrow> cg_options" where
  "options_default buffa_default =
     \<lparr>op_buffa = buffa_default\<lparr>bc_generate_json := True\<rparr>, op_gate_client_feature = False,
      op_client_feature_name = ''client'', op_encodable_impls = Outputs\<rparr>"

definition to_buffa_config :: "cg_options \<Rightarrow> buffa_config" where
  "to_buffa_config o' = (op_buffa o')\<lparr>bc_generate_views := True\<rparr>"

definition trim_both :: "string \<Rightarrow> string" where
  "trim_both s = trim_end (trim_start s)"

definition options_client_feature_name :: "cg_libs \<Rightarrow> cg_options \<Rightarrow> (string, string) result" where
  "options_client_feature_name l o' =
     (let name = trim_both (op_client_feature_name o') in
      if name = [] then
        (if op_gate_client_feature o' then Err ''client feature name must not be empty'' else Ok ''client'')
      else if \<not> cg_valid_feature l name then
        Err (''client feature name '' @ cg_debug l name @
          '' is not a valid Cargo feature name (must start with an alphanumeric or `_` and contain only alphanumerics, `_`, `-`, `+`, `.`)'')
      else Ok name)"

text \<open>
  The loop over the files to generate. \<open>render\<close> formats the tokens; the client feature's name
  only reaches the templates.
\<close>

fun emit_files_loop ::
    "cg_libs \<Rightarrow> (file_proto \<Rightarrow> service_proto \<Rightarrow> (unit, string) result) \<Rightarrow> (item list \<Rightarrow> (string, string) result) \<Rightarrow>
     file_proto list \<Rightarrow> resolver \<Rightarrow> string list \<Rightarrow> batch_state \<Rightarrow> generated_file list \<Rightarrow>
     (generated_file list, string) result" where
  "emit_files_loop l emit_bodies render proto_file rv [] batch out = Ok out"
| "emit_files_loop l emit_bodies render proto_file rv (file_name # rest) batch out =
     (case find_file proto_file file_name of
        None \<Rightarrow> emit_files_loop l emit_bodies render proto_file rv rest batch out
      | Some file \<Rightarrow>
          if fp_service file \<noteq> [] \<or> (bs_all_message_encodable_impls batch \<and> fp_message_type file \<noteq> [])
          then
            (case generate_connect_services l emit_bodies file rv batch of
               Err e \<Rightarrow> Err e
             | Ok (items, batch) \<Rightarrow>
                 if items = [] then emit_files_loop l emit_bodies render proto_file rv rest batch out
                 else
                   (case render items of
                      Err e \<Rightarrow> Err e
                    | Ok code \<Rightarrow>
                        emit_files_loop l emit_bodies render proto_file rv rest batch
                          (out @ [\<lparr>gf_name = cg_stem l file_name @ ''.__connect.rs'',
                             gf_package = or_empty (fp_package file), gf_kind = Companion, gf_content = code\<rparr>])))
          else emit_files_loop l emit_bodies render proto_file rv rest batch out)"

definition batch_start :: "cg_libs \<Rightarrow> file_proto list \<Rightarrow> string list \<Rightarrow> resolver \<Rightarrow> cg_options \<Rightarrow> batch_state" where
  "batch_start l proto_file file_to_generate rv o' =
     \<lparr>bs_encodable_seen = {}, bs_alias_seen = {},
      bs_colliding_aliases = collect_alias_collisions l proto_file file_to_generate,
      bs_module_idents = (\<lambda>_. Map.empty), bs_root_types = buffa_root_types proto_file file_to_generate rv,
      bs_all_message_encodable_impls = (op_encodable_impls o' = AllMessages)\<rparr>"

definition emit_service_files ::
    "cg_libs \<Rightarrow> (file_proto \<Rightarrow> service_proto \<Rightarrow> (unit, string) result) \<Rightarrow> (item list \<Rightarrow> (string, string) result) \<Rightarrow>
     file_proto list \<Rightarrow> string list \<Rightarrow> resolver \<Rightarrow> cg_options \<Rightarrow> (generated_file list, string) result" where
  "emit_service_files l emit_bodies render proto_file file_to_generate rv o' =
     emit_files_loop l emit_bodies render proto_file rv file_to_generate
       (batch_start l proto_file file_to_generate rv o') []"

text \<open>The unified layout inlines each companion into the first module file of its package.\<close>

fun inline_one :: "generated_file \<Rightarrow> generated_file list \<Rightarrow> generated_file list" where
  "inline_one c [] = []"
| "inline_one c (f # fs) =
     (if gf_kind f = PackageMod \<and> gf_package f = gf_package c
      then f\<lparr>gf_content := gf_content f @ newline # gf_content c\<rparr> # fs
      else f # inline_one c fs)"

definition inline_companions_into_package_mods ::
    "generated_file list \<Rightarrow> generated_file list \<Rightarrow> generated_file list" where
  "inline_companions_into_package_mods files companions = fold inline_one companions files"

text \<open>The protobuf library's \<^verbatim>\<open>generate\<close> and \<^verbatim>\<open>apply_companions\<close> are parameters.\<close>

definition generate_files ::
    "cg_libs \<Rightarrow> (file_proto \<Rightarrow> service_proto \<Rightarrow> (unit, string) result) \<Rightarrow> (item list \<Rightarrow> (string, string) result) \<Rightarrow>
     (file_proto list \<Rightarrow> string list \<Rightarrow> buffa_config \<Rightarrow> (generated_file list, string) result) \<Rightarrow>
     (generated_file list \<Rightarrow> generated_file list \<Rightarrow> generated_file list) \<Rightarrow>
     (buffa_config \<Rightarrow> bool \<Rightarrow> resolver) \<Rightarrow> file_proto list \<Rightarrow> string list \<Rightarrow> cg_options \<Rightarrow>
     (generated_file list, string) result" where
  "generate_files l emit_bodies render buffa_generate apply_companions mk_resolver proto_file file_to_generate o' =
     (let config = to_buffa_config o' in
      case buffa_generate proto_file file_to_generate config of
        Err e \<Rightarrow> Err (''buffa-codegen failed: '' @ e)
      | Ok files \<Rightarrow>
          result_bind (options_client_feature_name l o') (\<lambda>_.
          result_bind (emit_service_files l emit_bodies render proto_file file_to_generate (mk_resolver config False) o')
            (\<lambda>service_files.
              Ok (if bc_file_per_package config then inline_companions_into_package_mods files service_files
                  else apply_companions files service_files))))"

text \<open>A \<^verbatim>\<open>BTreeMap\<close> is walked in the order of its keys.\<close>

definition packages_of :: "generated_file list \<Rightarrow> string list" where
  "packages_of files = sort (remdups (map gf_package files))"

definition generated_banner :: string where
  "generated_banner = ''// @generated by connectrpc-codegen. DO NOT EDIT.'' @ [newline]"

definition generate_services ::
    "cg_libs \<Rightarrow> (file_proto \<Rightarrow> service_proto \<Rightarrow> (unit, string) result) \<Rightarrow> (item list \<Rightarrow> (string, string) result) \<Rightarrow>
     (buffa_config \<Rightarrow> bool \<Rightarrow> resolver) \<Rightarrow> file_proto list \<Rightarrow> string list \<Rightarrow> cg_options \<Rightarrow>
     (generated_file list, string) result" where
  "generate_services l emit_bodies render mk_resolver proto_file file_to_generate o' =
     (let config = to_buffa_config o' in
      result_bind (options_client_feature_name l o') (\<lambda>_.
      result_bind (emit_service_files l emit_bodies render proto_file file_to_generate (mk_resolver config True) o')
        (\<lambda>files.
          Ok (if bc_file_per_package config then
                map (\<lambda>package. \<lparr>gf_name = cg_package_filename l package, gf_package = package, gf_kind = PackageMod,
                    gf_content = generated_banner @
                      concat (map (\<lambda>f. newline # gf_content f) (filter (\<lambda>f. gf_package f = package) files))\<rparr>)
                  (packages_of files)
              else
                files @
                map (\<lambda>package. \<lparr>gf_name = cg_package_mod_filename l package, gf_package = package, gf_kind = PackageMod,
                    gf_content = generated_banner @
                      concat (map (\<lambda>f. ''include!('' @ cg_debug l (gf_name f) @ '');'' @ [newline])
                        (filter (\<lambda>f. gf_package f = package) files))\<rparr>)
                  (packages_of files)))))"

section \<open>Plugin options\<close>

text \<open>The effect of one option of the parameter string.\<close>

definition apply_plugin_option :: "cg_libs \<Rightarrow> string \<Rightarrow> string \<Rightarrow> cg_options \<Rightarrow> (cg_options, string) result" where
  "apply_plugin_option l memory_limit_opt opt o' =
     (let push_extern = (\<lambda>p. o'\<lparr>op_buffa := (op_buffa o')\<lparr>bc_extern_paths := bc_extern_paths (op_buffa o') @ [p]\<rparr>\<rparr>);
          set_buffa = (\<lambda>f. o'\<lparr>op_buffa := f (op_buffa o')\<rparr>);
          bad_extern = (\<lambda>v. ''invalid extern_path format '' @ cg_debug l v @ '', expected extern_path=.proto.pkg=::rust::path'')
      in
      case strip_prefix ''buffa_module='' opt of
        Some v \<Rightarrow>
          (let rust = trim_both v in
           if rust = [] then Err ''buffa_module requires a non-empty path, e.g. buffa_module=crate::proto''
           else Ok (push_extern (''.'', rust)))
      | None \<Rightarrow>
     (case strip_prefix ''extern_path='' opt of
        Some v \<Rightarrow>
          (case split_once (CHR ''='') v of
             None \<Rightarrow> Err (bad_extern v)
           | Some (proto, rust) \<Rightarrow>
               (let proto = trim_both proto; rust = trim_both rust in
                if proto = [] \<or> rust = [] then Err (bad_extern v @ '' (both sides non-empty)'')
                else Ok (push_extern (if starts_with proto ''.'' then proto else CHR ''.'' # proto, rust))))
      | None \<Rightarrow>
     (case strip_prefix ''gate_client_feature='' opt of
        Some v \<Rightarrow>
          (let feature = trim_both v in
           if feature = [] then Err ''gate_client_feature requires a non-empty feature name''
           else Ok (o'\<lparr>op_gate_client_feature := True, op_client_feature_name := feature\<rparr>))
      | None \<Rightarrow>
     (case strip_prefix ''encodable_impls='' opt of
        Some v \<Rightarrow>
          (let value' = trim_both v in
           if value' = ''all_messages'' then Ok (o'\<lparr>op_encodable_impls := AllMessages\<rparr>)
           else if value' = ''outputs'' then Ok (o'\<lparr>op_encodable_impls := Outputs\<rparr>)
           else Err (''invalid encodable_impls value '' @ cg_debug l value' @ '', expected `all_messages` or `outputs`''))
      | None \<Rightarrow>
          if (case split_once (CHR ''='') opt of Some (key, _) \<Rightarrow> trim_both key = memory_limit_opt | None \<Rightarrow> False)
          then Ok o'
          else if opt = ''file_per_package'' then Ok (set_buffa (\<lambda>b. b\<lparr>bc_file_per_package := True\<rparr>))
          else if opt = ''strict_utf8_mapping'' then Ok (set_buffa (\<lambda>b. b\<lparr>bc_strict_utf8_mapping := True\<rparr>))
          else if opt = ''no_json'' then Ok (set_buffa (\<lambda>b. b\<lparr>bc_generate_json := False\<rparr>))
          else if opt = ''no_register_fn'' then Ok (set_buffa (\<lambda>b. b\<lparr>bc_emit_register_fn := False\<rparr>))
          else if opt = ''gate_client_feature'' then Ok (o'\<lparr>op_gate_client_feature := True\<rparr>)
          else Err (''unknown plugin option: '' @ cg_debug l opt @ ''. Supported: buffa_module=<rust_path>, extern_path=<proto>=<rust>, encodable_impls=<all_messages|outputs>, '' @
            memory_limit_opt @ ''=<bytes|unlimited>, file_per_package, strict_utf8_mapping, no_json, no_register_fn, gate_client_feature, gate_client_feature=<name>'')))))"

definition parse_plugin_options ::
    "cg_libs \<Rightarrow> string \<Rightarrow> buffa_config \<Rightarrow> string option \<Rightarrow> (cg_options, string) result" where
  "parse_plugin_options l memory_limit_opt buffa_default parameter =
     (case parameter of
        None \<Rightarrow> Ok (options_default buffa_default)
      | Some param \<Rightarrow>
          fold (\<lambda>opt acc. result_bind acc (apply_plugin_option l memory_limit_opt opt))
            (filter (\<lambda>s. s \<noteq> []) (map trim_both (split_on (CHR '','') param)))
            (Ok (options_default buffa_default)))"

definition feature_flags :: nat where
  "feature_flags = 3"

text \<open>The plugin's entry point: the files of the response with its feature flags.\<close>

definition plugin_generate ::
    "cg_libs \<Rightarrow> (file_proto \<Rightarrow> service_proto \<Rightarrow> (unit, string) result) \<Rightarrow> (item list \<Rightarrow> (string, string) result) \<Rightarrow>
     (buffa_config \<Rightarrow> bool \<Rightarrow> resolver) \<Rightarrow> string \<Rightarrow> buffa_config \<Rightarrow> string option \<Rightarrow> file_proto list \<Rightarrow> string list \<Rightarrow>
     (nat \<times> (string \<times> string) list, string) result" where
  "plugin_generate l emit_bodies render mk_resolver memory_limit_opt buffa_default parameter proto_file file_to_generate =
     result_bind (parse_plugin_options l memory_limit_opt buffa_default parameter) (\<lambda>o'.
     result_bind (generate_services l emit_bodies render mk_resolver proto_file file_to_generate o') (\<lambda>generated.
       Ok (feature_flags, map (\<lambda>g. (gf_name g, gf_content g)) generated)))"

section \<open>Comments of services and methods\<close>

definition position :: "('a \<Rightarrow> bool) \<Rightarrow> 'a list \<Rightarrow> nat option" where
  "position P xs = (let n = length (takeWhile (\<lambda>x. \<not> P x) xs) in if n < length xs then Some n else None)"

definition get_service_comment :: "file_proto \<Rightarrow> service_proto \<Rightarrow> string option" where
  "get_service_comment file service =
     Option.bind (position (\<lambda>s. sp_name s = sp_name service) (fp_service file))
       (\<lambda>service_index. find_comment (fp_location file) [6, int service_index])"

fun find_method_index :: "nat \<Rightarrow> string option \<Rightarrow> string option \<Rightarrow> service_proto list \<Rightarrow> (nat \<times> nat) option" where
  "find_method_index si svc meth [] = None"
| "find_method_index si svc meth (s # ss) =
     (case (if sp_name s \<noteq> svc then None
            else map_option (\<lambda>mi. (si, mi)) (position (\<lambda>m. mp_name m = meth) (sp_method s))) of
        Some r \<Rightarrow> Some r
      | None \<Rightarrow> find_method_index (si + 1) svc meth ss)"

definition get_method_comment :: "file_proto \<Rightarrow> service_proto \<Rightarrow> method_proto \<Rightarrow> string option" where
  "get_method_comment file service m =
     Option.bind (find_method_index 0 (sp_name service) (mp_name m) (fp_service file))
       (\<lambda>(si, mi). find_comment (fp_location file) [6, int si, 2, int mi])"

end
