(* ===== verification/CodegenProps.thy ===== *)
theory CodegenProps
  imports Codegen "HOL-Library.Multiset"
begin

text \<open>
  Properties of the code generator: no two items it emits into a module share a name or one of
  the message types' names, and the one-file-per-package layout loses no emitted file.
\<close>

section \<open>The pre-pass finds every shared alias\<close>

definition noted_inv :: "cg_libs \<Rightarrow> (string \<times> string) set \<Rightarrow> (string \<times> string \<Rightarrow> string option) \<times> (string \<times> string) set \<Rightarrow> bool" where
  "noted_inv l noted st \<longleftrightarrow>
     (\<forall>(p, fqn) \<in> noted. \<exists>f0. fst st (p, owned_view_alias_ident l fqn) = Some f0 \<and>
        (f0 \<noteq> fqn \<longrightarrow> (p, owned_view_alias_ident l fqn) \<in> snd st))"

lemma noted_inv_shared:
  assumes "noted_inv l noted st" "(p, t1) \<in> noted" "(p, t2) \<in> noted" "t1 \<noteq> t2"
    "owned_view_alias_ident l t1 = owned_view_alias_ident l t2"
  shows "(p, owned_view_alias_ident l t1) \<in> snd st"
proof -
  obtain f1 f2 where
    "fst st (p, owned_view_alias_ident l t1) = Some f1" "f1 \<noteq> t1 \<longrightarrow> (p, owned_view_alias_ident l t1) \<in> snd st"
    "fst st (p, owned_view_alias_ident l t2) = Some f2" "f2 \<noteq> t2 \<longrightarrow> (p, owned_view_alias_ident l t2) \<in> snd st"
    using assms(1-3) unfolding noted_inv_def by blast
  with assms(4,5) show ?thesis by auto
qed

lemma note_alias_noted:
  assumes "noted_inv l noted st"
  shows "noted_inv l (insert (package, fqn) noted) (note_alias l package fqn st) \<and> snd st \<subseteq> snd (note_alias l package fqn st)"
proof -
  obtain fs col where st: "st = (fs, col)" by (cases st)
  let ?k = "(package, owned_view_alias_ident l fqn)"
  show ?thesis
  proof (cases "fs ?k")
    case None
    then show ?thesis using assms by (fastforce simp: st noted_inv_def note_alias_def Let_def)
  next
    case (Some prev)
    then show ?thesis using assms by (auto simp: st noted_inv_def note_alias_def Let_def)
  qed
qed

lemma note_aliases_noted:
  "noted_inv l noted st \<Longrightarrow> noted_inv l (noted \<union> (\<lambda>f. (package, f)) ` set fqns) (fold (note_alias l package) fqns st) \<and>
    snd st \<subseteq> snd (fold (note_alias l package) fqns st)"
proof (induction fqns arbitrary: noted st)
  case (Cons f fqns)
  note step = note_alias_noted [OF Cons.prems, of package f]
  have eq: "noted \<union> (\<lambda>f. (package, f)) ` set (f # fqns) = insert (package, f) noted \<union> (\<lambda>f. (package, f)) ` set fqns"
    by auto
  show ?case unfolding eq using Cons.IH [OF conjunct1 [OF step]] conjunct2 [OF step] by simp blast
qed simp

definition service_types :: "cg_libs \<Rightarrow> service_proto \<Rightarrow> string list" where
  "service_types l service = si_types (service_idents_new l (or_empty (sp_name service)))"

definition service_fqns :: "service_proto \<Rightarrow> string list" where
  "service_fqns s = concat (map method_types (sp_method s))"

lemma noted_inv_more: "noted_inv l noted (fs, col) \<Longrightarrow> noted_inv l noted (fs, col \<union> extra)"
  by (fastforce simp: noted_inv_def)

lemma note_service_noted:
  assumes "noted_inv l noted st"
  shows "noted_inv l (noted \<union> (\<lambda>f. (package, f)) ` set (service_fqns s)) (note_service l package s st) \<and>
    snd st \<union> (\<lambda>i. (package, i)) ` set (service_types l s) \<subseteq> snd (note_service l package s st)"
proof -
  obtain fs col where st: "st = (fs, col)" by (cases st)
  have "noted_inv l noted (fs, col \<union> (\<lambda>i. (package, i)) ` set (service_types l s))" using assms by (simp add: st noted_inv_more)
  from note_aliases_noted [OF this, of package "service_fqns s"] show ?thesis
    by (simp add: st note_service_def service_types_def service_fqns_def Let_def)
qed

lemma note_services_noted:
  "noted_inv l noted st \<Longrightarrow> noted_inv l (noted \<union> (\<lambda>f. (package, f)) ` (\<Union>s\<in>set ss. set (service_fqns s))) (fold (note_service l package) ss st) \<and>
    snd st \<union> (\<lambda>i. (package, i)) ` (\<Union>s\<in>set ss. set (service_types l s)) \<subseteq> snd (fold (note_service l package) ss st)"
proof (induction ss arbitrary: noted st)
  case (Cons s ss)
  note step = note_service_noted [OF Cons.prems, of package s]
  from Cons.IH [OF conjunct1 [OF step]] conjunct2 [OF step] show ?case
    by (simp add: image_Un Un_assoc) blast
qed simp

definition found_files :: "file_proto list \<Rightarrow> string list \<Rightarrow> file_proto list" where
  "found_files proto_file names = List.map_filter (find_file proto_file) names"

lemma set_file_types: "set (file_types file) = (\<Union>s\<in>set (fp_service file). set (service_fqns s))"
  by (auto simp: file_types_def service_fqns_def)

lemma collect_noted:
  "noted_inv l noted st \<Longrightarrow>
    noted_inv l (noted \<union> (\<Union>f\<in>set (found_files pf names). (\<lambda>t. (or_empty (fp_package f), t)) ` set (file_types f)))
      (fold (\<lambda>file_name st. case find_file pf file_name of None \<Rightarrow> st
         | Some file \<Rightarrow> fold (note_service l (or_empty (fp_package file))) (fp_service file) st) names st) \<and>
    snd st \<union> (\<Union>f\<in>set (found_files pf names). \<Union>s\<in>set (fp_service f). (\<lambda>i. (or_empty (fp_package f), i)) ` set (service_types l s))
      \<subseteq> snd (fold (\<lambda>file_name st. case find_file pf file_name of None \<Rightarrow> st
         | Some file \<Rightarrow> fold (note_service l (or_empty (fp_package file))) (fp_service file) st) names st)"
proof (induction names arbitrary: noted st)
  case (Cons n names)
  show ?case
  proof (cases "find_file pf n")
    case None
    with Cons show ?thesis by (simp add: found_files_def map_filter_simps)
  next
    case (Some f)
    note step = note_services_noted [OF Cons.prems, of "or_empty (fp_package f)" "fp_service f"]
    from Cons.IH [OF conjunct1 [OF step]] conjunct2 [OF step] Some show ?thesis
      by (simp add: found_files_def map_filter_simps set_file_types Un_assoc) blast
  qed
qed (simp add: found_files_def map_filter_simps)

lemma collect_alias_collisions_shared:
  assumes "f1 \<in> set (found_files pf names)" "f2 \<in> set (found_files pf names)"
    "or_empty (fp_package f1) = p" "or_empty (fp_package f2) = p"
    "t1 \<in> set (file_types f1)" "t2 \<in> set (file_types f2)" "t1 \<noteq> t2"
    "owned_view_alias_ident l t1 = owned_view_alias_ident l t2"
  shows "(p, owned_view_alias_ident l t1) \<in> collect_alias_collisions l pf names"
proof -
  let ?st = "fold (\<lambda>file_name st. case find_file pf file_name of None \<Rightarrow> st
      | Some file \<Rightarrow> fold (note_service l (or_empty (fp_package file))) (fp_service file) st) names (Map.empty, {})"
  let ?noted = "\<Union>f\<in>set (found_files pf names). (\<lambda>t. (or_empty (fp_package f), t)) ` set (file_types f)"
  have j: "noted_inv l ?noted ?st" using collect_noted [of l "{}" "(Map.empty, {})" pf names] by (simp add: noted_inv_def)
  have "(p, t1) \<in> ?noted" using assms(1,5) unfolding assms(3) [symmetric] by blast
  moreover have "(p, t2) \<in> ?noted" using assms(2,6) unfolding assms(4) [symmetric] by blast
  ultimately show ?thesis unfolding collect_alias_collisions_def by (rule noted_inv_shared [OF j _ _ assms(7,8)])
qed

lemma collect_alias_collisions_services:
  assumes "f \<in> set (found_files pf names)" "s \<in> set (fp_service f)" "i \<in> set (service_types l s)"
  shows "(or_empty (fp_package f), i) \<in> collect_alias_collisions l pf names"
  using conjunct2 [OF collect_noted [of l "{}" "(Map.empty, {})" pf names]] assms
  unfolding collect_alias_collisions_def noted_inv_def by blast

section \<open>Names of a module\<close>

fun alias_names :: "item \<Rightarrow> string list" where
  "alias_names (OwnedViewAlias a _) = [a]"
| "alias_names _ = []"

fun service_type_names :: "item \<Rightarrow> string list" where
  "service_type_names (ServiceItem _ idents _) = si_types idents"
| "service_type_names _ = []"

fun value_names :: "item \<Rightarrow> string list" where
  "value_names (ServiceItem _ idents specs) = si_service_name_const idents # map fst specs"
| "value_names _ = []"

fun impl_types :: "item \<Rightarrow> string list" where
  "impl_types (EncodableItem fqn _ _) = [fqn]"
| "impl_types _ = []"

definition item_names :: "item \<Rightarrow> string list" where
  "item_names i = service_type_names i @ value_names i"

definition type_names :: "item \<Rightarrow> string list" where
  "type_names i = alias_names i @ service_type_names i"

text \<open>The names a log of emitted items puts into a package's module.\<close>

definition names_in :: "(item \<Rightarrow> string list) \<Rightarrow> string \<Rightarrow> (string \<times> item) list \<Rightarrow> string list" where
  "names_in g package log = concat (map (\<lambda>(p, i). if p = package then g i else []) log)"

lemma names_in_simps [simp]:
  "names_in g package [] = []"
  "names_in g package (log @ [(p, i)]) = names_in g package log @ (if p = package then g i else [])"
  by (simp_all add: names_in_def)

definition batch_inv ::
    "cg_libs \<Rightarrow> file_proto list \<Rightarrow> string list \<Rightarrow> idents_by_package \<Rightarrow> batch_state \<Rightarrow> (string \<times> item) list \<Rightarrow> bool" where
  "batch_inv l pf to_gen roots batch log \<longleftrightarrow>
     bs_colliding_aliases batch = collect_alias_collisions l pf to_gen \<and> bs_root_types batch = roots \<and>
     (\<forall>(p, t)\<in>bs_alias_seen batch. \<exists>f\<in>set (found_files pf to_gen). or_empty (fp_package f) = p \<and> t \<in> set (file_types f)) \<and>
     (\<forall>p. distinct (names_in item_names p log) \<and>
        set (names_in item_names p log) \<subseteq> dom (bs_module_idents batch p)) \<and>
     (\<forall>p. distinct (names_in alias_names p log)) \<and>
     (\<forall>p. \<forall>a\<in>set (names_in alias_names p log). (p, a) \<notin> bs_colliding_aliases batch \<and> roots p a = None \<and>
        (\<exists>t. (p, t) \<in> bs_alias_seen batch \<and> a = owned_view_alias_ident l t)) \<and>
     (\<forall>p. \<forall>a\<in>set (names_in service_type_names p log). (p, a) \<in> bs_colliding_aliases batch \<and> roots p a = None) \<and>
     distinct (concat (map (impl_types \<circ> snd) log)) \<and>
     set (concat (map (impl_types \<circ> snd) log)) \<subseteq> bs_encodable_seen batch"

lemma fold_result_inv:
  assumes "\<And>x st st'. x \<in> set xs \<Longrightarrow> P st \<Longrightarrow> step x st = Ok st' \<Longrightarrow> P st'"
  shows "fold (\<lambda>x acc. result_bind acc (step x)) xs (Ok st) = Ok st' \<Longrightarrow> P st \<Longrightarrow> P st'"
  using assms
proof (induction xs arbitrary: st)
  case (Cons x xs)
  have err: "fold (\<lambda>x acc. result_bind acc (step x)) ys (Err e) = Err e" for ys e by (induction ys) simp_all
  show ?case
  proof (cases "step x st")
    case (Ok st1)
    show ?thesis
    proof (rule Cons.IH)
      show "fold (\<lambda>x acc. result_bind acc (step x)) xs (result.Ok st1) = result.Ok st'"
        using Cons.prems(1) Ok by simp
      show "P st1" by (rule Cons.prems(3) [OF _ Cons.prems(2) Ok]) simp
    next
      fix y s1 s2 assume "y \<in> set xs" "P s1" "step y s1 = result.Ok s2"
      then show "P s2" by (intro Cons.prems(3) [of y s1 s2]) simp_all
    qed
  next
    case (Err e)
    then show ?thesis using Cons.prems(1) err by simp
  qed
qed simp


section \<open>Every step keeps the invariant\<close>

lemma batch_inv_aliasD:
  "batch_inv l pf to_gen roots batch log \<Longrightarrow> a \<in> set (names_in alias_names p log) \<Longrightarrow>
    (p, a) \<notin> bs_colliding_aliases batch \<and> roots p a = None \<and>
    (\<exists>t. (p, t) \<in> bs_alias_seen batch \<and> a = owned_view_alias_ident l t)"
  unfolding batch_inv_def by (elim conjE) (drule spec [of _ p], drule bspec, assumption+)

lemma batch_inv_seenD:
  "batch_inv l pf to_gen roots batch log \<Longrightarrow> (p, t) \<in> bs_alias_seen batch \<Longrightarrow>
    \<exists>f\<in>set (found_files pf to_gen). or_empty (fp_package f) = p \<and> t \<in> set (file_types f)"
  by (auto simp: batch_inv_def)

lemma batch_inv_alias:
  assumes inv: "batch_inv l pf to_gen roots batch log" and f: "f \<in> set (found_files pf to_gen)"
    "or_empty (fp_package f) = package" "t \<in> set (file_types f)"
    and new: "\<not> alias_collides l batch package t" "(package, t) \<notin> bs_alias_seen batch"
  shows "batch_inv l pf to_gen roots (batch\<lparr>bs_alias_seen := insert (package, t) (bs_alias_seen batch)\<rparr>)
    (log @ [(package, OwnedViewAlias (owned_view_alias_ident l t) view)])"
proof -
  let ?a = "owned_view_alias_ident l t"
  let ?batch = "batch\<lparr>bs_alias_seen := insert (package, t) (bs_alias_seen batch)\<rparr>"
  let ?log = "log @ [(package, OwnedViewAlias (owned_view_alias_ident l t) view)]"
  have free: "(package, ?a) \<notin> bs_colliding_aliases batch" "roots package ?a = None"
    using new(1) inv by (auto simp: alias_collides_def batch_inv_def Let_def)
  have "?a \<notin> set (names_in alias_names package log)"
  proof
    assume "?a \<in> set (names_in alias_names package log)"
    then obtain t' where t': "(package, t') \<in> bs_alias_seen batch" "?a = owned_view_alias_ident l t'"
      using batch_inv_aliasD [OF inv] by blast
    from batch_inv_seenD [OF inv t'(1)] obtain f' where "f' \<in> set (found_files pf to_gen)" "or_empty (fp_package f') = package" "t' \<in> set (file_types f')" by blast
    with f t' new(2) have "(package, ?a) \<in> collect_alias_collisions l pf to_gen"
      by (intro collect_alias_collisions_shared [of f pf to_gen f' package t t']) auto
    with free(1) inv show False by (simp add: batch_inv_def)
  qed
  then have distinct: "distinct (names_in alias_names p ?log)" for p
    using inv by (auto simp: batch_inv_def)
  have names: "(p, a) \<notin> bs_colliding_aliases batch \<and> roots p a = None \<and>
      (\<exists>t'. (p, t') \<in> insert (package, t) (bs_alias_seen batch) \<and> a = owned_view_alias_ident l t')"
    if a: "a \<in> set (names_in alias_names p ?log)" for p a
  proof (cases "a \<in> set (names_in alias_names p log)")
    case True
    from batch_inv_aliasD [OF inv True] show ?thesis by blast
  next
    case False
    with a have "p = package" "a = ?a" by (auto split: if_splits)
    with free show ?thesis by auto
  qed
  have seen: "\<forall>(p, t')\<in>insert (package, t) (bs_alias_seen batch).
      \<exists>f\<in>set (found_files pf to_gen). or_empty (fp_package f) = p \<and> t' \<in> set (file_types f)"
    using inv f by (auto simp: batch_inv_def)
  have same: "names_in item_names p ?log = names_in item_names p log"
    "names_in service_type_names p ?log = names_in service_type_names p log"
    "concat (map (impl_types \<circ> snd) ?log) = concat (map (impl_types \<circ> snd) log)" for p
    by (simp_all add: item_names_def)
  have "\<forall>p. \<forall>a\<in>set (names_in alias_names p ?log). (p, a) \<notin> bs_colliding_aliases batch \<and> roots p a = None \<and>
      (\<exists>t'. (p, t') \<in> insert (package, t) (bs_alias_seen batch) \<and> a = owned_view_alias_ident l t')"
    using names by blast
  moreover have sel: "bs_colliding_aliases ?batch = bs_colliding_aliases batch" "bs_root_types ?batch = bs_root_types batch"
    "bs_alias_seen ?batch = insert (package, t) (bs_alias_seen batch)" "bs_module_idents ?batch = bs_module_idents batch"
    "bs_encodable_seen ?batch = bs_encodable_seen batch" by simp_all
  moreover have "\<forall>p. distinct (names_in alias_names p ?log)" using distinct by blast
  ultimately show ?thesis using inv seen unfolding batch_inv_def same sel
    by - (elim conjE, intro conjI; assumption)
qed

lemma batch_inv_encodable:
  assumes inv: "batch_inv l pf to_gen roots batch log" and new: "fqn \<notin> bs_encodable_seen batch"
  shows "batch_inv l pf to_gen roots (batch\<lparr>bs_encodable_seen := insert fqn (bs_encodable_seen batch)\<rparr>) log"
    and "batch_inv l pf to_gen roots (batch\<lparr>bs_encodable_seen := insert fqn (bs_encodable_seen batch)\<rparr>)
      (log @ [(package, EncodableItem fqn owned view)])"
  using inv new unfolding batch_inv_def by (auto simp: item_names_def)

lemma claim_idents_Ok:
  "claim_idents fn items m = Ok m' \<Longrightarrow>
    distinct (map fst items) \<and> set (map fst items) \<inter> dom m = {} \<and> dom m' = dom m \<union> set (map fst items)"
  by (induction fn items m rule: claim_idents.induct) (auto split: option.splits if_splits)

lemma module_items_names:
  "map fst (module_items l file full service idents) = si_iter idents @ map fst (generate_spec_consts l full service)"
  by (simp add: module_items_def generate_spec_consts_def Let_def comp_def)

lemma find_None_all: "List.find P xs = None \<Longrightarrow> x \<in> set xs \<Longrightarrow> \<not> P x"
  by (simp add: find_None_iff)

lemma batch_inv_names:
  assumes inv: "batch_inv l pf to_gen roots batch log"
    and ns: "distinct (item_names i)" "set (item_names i) \<inter> dom (bs_module_idents batch package) = {}"
      "dom m' = dom (bs_module_idents batch package) \<union> set (item_names i)"
    and quiet: "alias_names i = []" "impl_types i = []"
    and types: "\<forall>t\<in>set (service_type_names i). (package, t) \<in> bs_colliding_aliases batch \<and> roots package t = None"
  shows "batch_inv l pf to_gen roots (batch\<lparr>bs_module_idents := (bs_module_idents batch)(package := m')\<rparr>) (log @ [(package, i)])"
proof -
  let ?batch = "batch\<lparr>bs_module_idents := (bs_module_idents batch)(package := m')\<rparr>"
  let ?log = "log @ [(package, i)]"
  have "distinct (names_in item_names p ?log) \<and>
      set (names_in item_names p ?log) \<subseteq> dom (((bs_module_idents batch)(package := m')) p)" for p
  proof -
    have "distinct (names_in item_names p log)" "set (names_in item_names p log) \<subseteq> dom (bs_module_idents batch p)"
      using inv by (simp_all add: batch_inv_def)
    with ns show ?thesis by (cases "p = package") auto
  qed
  then have "\<forall>p. distinct (names_in item_names p ?log) \<and>
      set (names_in item_names p ?log) \<subseteq> dom (((bs_module_idents batch)(package := m')) p)" by blast
  moreover have same: "names_in alias_names p ?log = names_in alias_names p log"
    "concat (map (impl_types \<circ> snd) ?log) = concat (map (impl_types \<circ> snd) log)" for p
    by (simp_all add: quiet)
  moreover have "\<forall>p. \<forall>a\<in>set (names_in service_type_names p ?log).
      (p, a) \<in> bs_colliding_aliases batch \<and> roots p a = None"
    using inv types by (auto simp: batch_inv_def)
  moreover have sel: "bs_colliding_aliases ?batch = bs_colliding_aliases batch" "bs_root_types ?batch = bs_root_types batch"
    "bs_alias_seen ?batch = bs_alias_seen batch" "bs_module_idents ?batch = (bs_module_idents batch)(package := m')"
    "bs_encodable_seen ?batch = bs_encodable_seen batch" by simp_all
  ultimately show ?thesis using inv unfolding batch_inv_def same sel
    by - (elim conjE, intro conjI; assumption)
qed

lemma batch_inv_service:
  assumes inv: "batch_inv l pf to_gen roots batch log" and f: "f \<in> set (found_files pf to_gen)"
    "or_empty (fp_package f) = package" "s \<in> set (fp_service f)"
    and gen: "generate_service l emit_bodies f s batch = Ok (i, batch')"
  shows "batch_inv l pf to_gen roots batch' (log @ [(package, i)])"
proof -
  let ?idents = "service_idents_new l (or_empty (sp_name s))"
  let ?full = "full_service_name package (or_empty (sp_name s))"
  from gen f(2) have check: "check_module_collisions l f ?full s ?idents batch = Ok batch'"
    and i: "i = ServiceItem ?full ?idents (generate_spec_consts l ?full s)"
    by (auto simp: generate_service_def Let_def result_bind_Ok_iff)
  from check f(2) obtain m' where none: "List.find (\<lambda>i. bs_root_types batch package i \<noteq> None) (si_types ?idents) = None"
    and claim: "claim_idents (or_empty (fp_name f)) (module_items l f ?full s ?idents) (bs_module_idents batch package) = Ok m'"
    and batch': "batch' = batch\<lparr>bs_module_idents := (bs_module_idents batch)(package := m')\<rparr>"
    unfolding check_module_collisions_def Let_def by (auto simp: result_map_Ok_iff split: option.splits)
  note names = claim_idents_Ok [OF claim, unfolded module_items_names]
  have types: "(package, t) \<in> bs_colliding_aliases batch \<and> roots package t = None" if "t \<in> set (si_types ?idents)" for t
    using collect_alias_collisions_services [OF f(1,3), of t l] that f(2) find_None_all [OF none that] inv
    by (simp add: service_types_def batch_inv_def)
  have item: "item_names i = si_iter ?idents @ map fst (generate_spec_consts l ?full s)"
    by (simp add: i si_iter_def item_names_def)
  show ?thesis unfolding batch'
    by (rule batch_inv_names [OF inv]) (use names types in \<open>simp_all add: item, simp_all add: i\<close>)
qed


text \<open>A run of pushes that starts from an empty output, over the log it extends.\<close>

definition run_inv ::
    "cg_libs \<Rightarrow> file_proto list \<Rightarrow> string list \<Rightarrow> idents_by_package \<Rightarrow> (string \<times> item) list \<Rightarrow> string \<Rightarrow>
     item list \<times> batch_state \<Rightarrow> bool" where
  "run_inv l pf to_gen roots log package st \<longleftrightarrow>
     batch_inv l pf to_gen roots (snd st) (log @ map (\<lambda>i. (package, i)) (fst st))"

lemma aliases_inv:
  assumes f: "f \<in> set (found_files pf to_gen)" "or_empty (fp_package f) = package"
    and inv: "batch_inv l pf to_gen roots batch log" and ok: "generate_owned_view_aliases l f rv batch = Ok (items, batch')"
  shows "batch_inv l pf to_gen roots batch' (log @ map (\<lambda>i. (package, i)) items)"
proof -
  have "run_inv l pf to_gen roots log package (items, batch')"
  proof (rule fold_result_inv [OF _ ok [unfolded generate_owned_view_aliases_def Let_def f(2)]])
    fix t :: string and st st' :: "item list \<times> batch_state"
    assume t: "t \<in> set (file_types f)" and st: "run_inv l pf to_gen roots log package st"
      and step: "(case st of (out, batch) \<Rightarrow>
          if alias_collides l batch package t then Ok (out, batch)
          else if (package, t) \<in> bs_alias_seen batch then Ok (out, batch)
          else result_bind (rust_view_type rv t package) (\<lambda>view. Ok (out @ [OwnedViewAlias (owned_view_alias_ident l t) view],
                 batch\<lparr>bs_alias_seen := insert (package, t) (bs_alias_seen batch)\<rparr>))) = Ok st'"
    obtain out b where b: "st = (out, b)" by (cases st)
    show "run_inv l pf to_gen roots log package st'"
    proof (cases "alias_collides l b package t \<or> (package, t) \<in> bs_alias_seen b")
      case True
      with step b st show ?thesis by (auto split: if_splits)
    next
      case False
      with step b obtain view where "st' = (out @ [OwnedViewAlias (owned_view_alias_ident l t) view],
          b\<lparr>bs_alias_seen := insert (package, t) (bs_alias_seen b)\<rparr>)" by (auto simp: result_bind_Ok_iff)
      with batch_inv_alias [of l pf to_gen roots b "log @ map (\<lambda>i. (package, i)) out" f package t view] st f t False b
      show ?thesis by (simp add: run_inv_def)
    qed
  next
    show "run_inv l pf to_gen roots log package ([], batch)" using inv by (simp add: run_inv_def)
  qed
  then show ?thesis by (simp add: run_inv_def)
qed

lemma encodable_step_inv:
  assumes st: "run_inv l pf to_gen roots log package (out, b)"
    and step: "result_bind (encodable_impl_pair t package rv b)
      (\<lambda>(impls, batch). Ok (case impls of Some i \<Rightarrow> out @ [i] | None \<Rightarrow> out, batch)) = Ok st'"
  shows "run_inv l pf to_gen roots log package st'"
proof (cases "t \<in> bs_encodable_seen b")
  case True
  with step st show ?thesis by (simp add: encodable_impl_pair_def)
next
  case False
  note inv = batch_inv_encodable [OF st [unfolded run_inv_def, simplified] False]
  let ?b = "b\<lparr>bs_encodable_seen := insert t (bs_encodable_seen b)\<rparr>"
  from step False consider "st' = (out, ?b)" | owned view where "st' = (out @ [EncodableItem t owned view], ?b)"
    by (auto simp: encodable_impl_pair_def result_bind_Ok_iff Let_def split: if_splits)
  then show ?thesis using inv by cases (simp_all add: run_inv_def)
qed

lemma encodables_inv:
  assumes inv: "batch_inv l pf to_gen roots batch log" and ok: "fold (push_encodable package rv) ts (Ok ([], batch)) = Ok (items, batch')"
  shows "batch_inv l pf to_gen roots batch' (log @ map (\<lambda>i. (package, i)) items)"
proof -
  have "push_encodable package rv = (\<lambda>t acc. result_bind acc (\<lambda>(out, batch).
      result_bind (encodable_impl_pair t package rv batch)
        (\<lambda>(impls, batch). Ok (case impls of Some i \<Rightarrow> out @ [i] | None \<Rightarrow> out, batch))))"
    by (intro ext) (simp add: push_encodable_def)
  note run = ok [unfolded this]
  have "run_inv l pf to_gen roots log package (items, batch')"
    by (rule fold_result_inv [OF _ run]) (use inv in \<open>auto simp: run_inv_def [of _ _ _ _ _ _ "([], batch)"] intro: encodable_step_inv\<close>)
  then show ?thesis by (simp add: run_inv_def)
qed

lemma services_inv:
  assumes f: "f \<in> set (found_files pf to_gen)" "or_empty (fp_package f) = package"
    and inv: "batch_inv l pf to_gen roots batch log"
    and ok: "fold (push_service l emit_bodies f) (fp_service f) (Ok ([], batch)) = Ok (items, batch')"
  shows "batch_inv l pf to_gen roots batch' (log @ map (\<lambda>i. (package, i)) items)"
proof -
  have "push_service l emit_bodies f = (\<lambda>s acc. result_bind acc (\<lambda>(out, batch).
      result_bind (generate_service l emit_bodies f s batch) (\<lambda>(i, batch). Ok (out @ [i], batch))))"
    by (intro ext) (simp add: push_service_def)
  note run = ok [unfolded this]
  have "run_inv l pf to_gen roots log package (items, batch')"
  proof (rule fold_result_inv [OF _ run])
    fix s st st'
    assume s: "s \<in> set (fp_service f)" and st: "run_inv l pf to_gen roots log package st"
      and step: "(case st of (out, batch) \<Rightarrow>
        result_bind (generate_service l emit_bodies f s batch) (\<lambda>(i, batch). Ok (out @ [i], batch))) = Ok st'"
    obtain out b where b: "st = (out, b)" by (cases st)
    with step obtain i b' where gen: "generate_service l emit_bodies f s b = Ok (i, b')" and st': "st' = (out @ [i], b')"
      by (auto simp: result_bind_Ok_iff)
    have "batch_inv l pf to_gen roots b (log @ map (\<lambda>i. (package, i)) out)" using st by (simp add: run_inv_def b)
    from batch_inv_service [OF this f s gen] show "run_inv l pf to_gen roots log package st'"
      by (simp add: run_inv_def st')
  next
    show "run_inv l pf to_gen roots log package ([], batch)" using inv by (simp add: run_inv_def)
  qed
  then show ?thesis by (simp add: run_inv_def)
qed

lemma connect_services_inv:
  assumes f: "f \<in> set (found_files pf to_gen)" "or_empty (fp_package f) = package"
    and inv: "batch_inv l pf to_gen roots batch log"
    and ok: "generate_connect_services l emit_bodies f rv batch = Ok (items, batch')"
  shows "batch_inv l pf to_gen roots batch' (log @ map (\<lambda>i. (package, i)) items)"
proof -
  from ok obtain i1 b1 i2 b2 i3 b3 i4 where
    1: "generate_owned_view_aliases l f rv batch = Ok (i1, b1)" and
    2: "generate_encodable_view_impls f rv b1 = Ok (i2, b2)" and
    3: "(if bs_all_message_encodable_impls b2 then generate_all_message_encodable_impls f rv b2 else Ok ([], b2)) = Ok (i3, b3)" and
    4: "fold (push_service l emit_bodies f) (fp_service f) (Ok ([], b3)) = Ok (i4, batch')" and
    items: "items = i1 @ i2 @ i3 @ i4"
    by (auto simp: generate_connect_services_def result_bind_Ok_iff)
  note s1 = aliases_inv [OF f inv 1]
  note s2 = encodables_inv [OF s1 2 [unfolded generate_encodable_view_impls_def f(2)]]
  have s3: "batch_inv l pf to_gen roots b3 (((log @ map (\<lambda>i. (package, i)) i1) @ map (\<lambda>i. (package, i)) i2) @ map (\<lambda>i. (package, i)) i3)"
  proof (cases "bs_all_message_encodable_impls b2")
    case True
    from encodables_inv [OF s2 3 [unfolded generate_all_message_encodable_impls_def f(2) Let_def if_P [OF True]]] show ?thesis .
  qed (use 3 s2 in simp)
  from services_inv [OF f s3 4] show ?thesis by (simp add: items)
qed

section \<open>A whole batch\<close>

lemma emit_files_loop_inv:
  assumes "emit_files_loop l emit_bodies render pf rv names batch out = Ok files" "set names \<subseteq> set to_gen"
    "batch_inv l pf to_gen roots batch (concat (map2 (\<lambda>f items. map (\<lambda>i. (gf_package f, i)) items) out itemss))"
    "list_all2 (\<lambda>f items. render items = Ok (gf_content f)) out itemss"
  shows "\<exists>batch' itemss'. list_all2 (\<lambda>f items. render items = Ok (gf_content f)) files itemss' \<and>
    batch_inv l pf to_gen roots batch' (concat (map2 (\<lambda>f items. map (\<lambda>i. (gf_package f, i)) items) files itemss'))"
  using assms
proof (induction names arbitrary: batch out itemss)
  case Nil
  then show ?case by auto
next
  case (Cons n names)
  let ?log = "\<lambda>out itemss. concat (map2 (\<lambda>f items. map (\<lambda>i. (gf_package f, i)) items) out itemss)"
  show ?case
  proof (cases "find_file pf n")
    case None
    with Cons show ?thesis by simp
  next
    case (Some pfile)
    have found: "pfile \<in> set (found_files pf to_gen)"
      using Some Cons.prems(2) unfolding found_files_def map_filter_def by force
    show ?thesis
    proof (cases "fp_service pfile \<noteq> [] \<or> (bs_all_message_encodable_impls batch \<and> fp_message_type pfile \<noteq> [])")
      case False
      then have "emit_files_loop l emit_bodies render pf rv names batch out = Ok files"
        using Cons.prems(1) Some by (simp split: if_splits)
      from Cons.IH [OF this _ Cons.prems(3,4)] Cons.prems(2) show ?thesis by simp
    next
      case True
      with Cons.prems(1) Some obtain items batch1 where
        gen: "generate_connect_services l emit_bodies pfile rv batch = Ok (items, batch1)"
        by (auto split: result.splits)
      note inv = connect_services_inv [OF found refl Cons.prems(3) gen]
      show ?thesis
      proof (cases "items = []")
        case True': True
        with Cons.prems(1) Some True gen have "emit_files_loop l emit_bodies render pf rv names batch1 out = Ok files" by simp
        from Cons.IH [OF this _ _ Cons.prems(4)] Cons.prems(2) inv True' show ?thesis by simp
      next
        case False
        with Cons.prems(1) Some True gen obtain code where code: "render items = Ok code"
          by (auto split: result.splits)
        let ?f = "\<lparr>gf_name = cg_stem l n @ ''.__connect.rs'', gf_package = or_empty (fp_package pfile),
          gf_kind = Companion, gf_content = code\<rparr>"
        have loop: "emit_files_loop l emit_bodies render pf rv names batch1 (out @ [?f]) = Ok files"
          using Cons.prems(1) Some True gen False code by simp
        have len: "length out = length itemss" using Cons.prems(4) by (rule list_all2_lengthD)
        have "list_all2 (\<lambda>f items. render items = Ok (gf_content f)) (out @ [?f]) (itemss @ [items])"
          using Cons.prems(4) code by (simp add: list_all2_appendI)
        moreover have "?log (out @ [?f]) (itemss @ [items]) = ?log out itemss @ map (\<lambda>i. (or_empty (fp_package pfile), i)) items"
          by (simp add: len)
        ultimately show ?thesis using Cons.IH [OF loop, of "itemss @ [items]"] Cons.prems(2) inv by simp
      qed
    qed
  qed
qed


lemma names_in_split:
  assumes "\<And>i. f i = g i @ h i"
  shows "distinct (names_in f p log) \<longleftrightarrow> distinct (names_in g p log @ names_in h p log)"
proof -
  have "mset (names_in f p log) = mset (names_in g p log @ names_in h p log)"
    by (induction log) (auto simp: names_in_def assms)
  then show ?thesis by (rule mset_eq_imp_distinct_iff)
qed

lemma set_names_in_split:
  assumes "\<And>i. f i = g i @ h i"
  shows "set (names_in f p log) = set (names_in g p log) \<union> set (names_in h p log)"
  by (induction log) (auto simp: names_in_def assms)

lemma batch_inv_start:
  "batch_inv l pf to_gen (buffa_root_types pf to_gen rv) (batch_start l pf to_gen rv o') []"
  by (simp add: batch_inv_def batch_start_def)

text \<open>What the invariant says of a finished log.\<close>

lemma batch_inv_names_distinct:
  assumes inv: "batch_inv l pf to_gen roots batch log"
  shows "distinct (names_in type_names p log) \<and> distinct (names_in value_names p log) \<and>
    (\<forall>t\<in>set (names_in type_names p log). roots p t = None) \<and> distinct (concat (map (impl_types \<circ> snd) log))"
proof -
  have items: "distinct (names_in service_type_names p log @ names_in value_names p log)"
    using inv names_in_split [of item_names service_type_names value_names p log]
    by (simp add: batch_inv_def item_names_def)
  have aliases: "distinct (names_in alias_names p log)" using inv by (simp add: batch_inv_def)
  have "set (names_in alias_names p log) \<inter> set (names_in service_type_names p log) = {}"
    using inv by (fastforce simp: batch_inv_def)
  with items aliases have "distinct (names_in type_names p log)"
    using names_in_split [of type_names alias_names service_type_names p log] by (simp add: type_names_def)
  moreover have "\<forall>t\<in>set (names_in type_names p log). roots p t = None"
    using inv set_names_in_split [of type_names alias_names service_type_names p log]
    by (auto simp: batch_inv_def type_names_def)
  ultimately show ?thesis using items inv by (simp add: batch_inv_def)
qed

text \<open>The items of a batch's files, each under the package whose module includes the file.\<close>

definition batch_items :: "generated_file list \<Rightarrow> item list list \<Rightarrow> (string \<times> item) list" where
  "batch_items files itemss = concat (map2 (\<lambda>f items. map (\<lambda>i. (gf_package f, i)) items) files itemss)"

text \<open>
  C11. A batch the generator accepts compiles as far as names go: over all files of the batch
  together, the items in any package's module declare pairwise distinct types (traits, clients,
  servers, markers and view aliases), pairwise distinct constants, no type the protobuf library
  declares at that module's root, and no output type gets two \<^verbatim>\<open>Encodable\<close> implementations. This
  holds whatever the case conversions, the type resolver, the templates and the formatter do:
  a clash that cannot be avoided by leaving an alias out is an error instead.
\<close>

theorem emitted_names_distinct:
  assumes "emit_service_files l emit_bodies render pf to_gen rv o' = Ok files"
  shows "\<exists>itemss. list_all2 (\<lambda>f items. render items = Ok (gf_content f)) files itemss \<and>
    (\<forall>package. distinct (names_in type_names package (batch_items files itemss)) \<and>
       distinct (names_in value_names package (batch_items files itemss)) \<and>
       (\<forall>t\<in>set (names_in type_names package (batch_items files itemss)). buffa_root_types pf to_gen rv package t = None)) \<and>
    distinct (concat (map (impl_types \<circ> snd) (batch_items files itemss)))"
proof -
  from emit_files_loop_inv [OF assms [unfolded emit_service_files_def] subset_refl, of "buffa_root_types pf to_gen rv" "[]"]
  obtain batch' itemss where itemss: "list_all2 (\<lambda>f items. render items = Ok (gf_content f)) files itemss"
    and "batch_inv l pf to_gen (buffa_root_types pf to_gen rv) batch' (batch_items files itemss)"
    by (auto simp: batch_inv_start batch_items_def)
  note facts = batch_inv_names_distinct [OF this(2)]
  then show ?thesis using itemss by blast
qed

text \<open>The layout with one file per package keeps every emitted file, in its package's output.\<close>

lemma generate_services_per_package:
  assumes "bc_file_per_package (op_buffa o')" "options_client_feature_name l o' = Ok feature"
    and "emit_service_files l emit_bodies render pf to_gen (mk_resolver (to_buffa_config o') True) o' = Ok files"
  shows "\<exists>out. generate_services l emit_bodies render mk_resolver pf to_gen o' = Ok out \<and>
    sorted (map gf_package out) \<and> distinct (map gf_package out) \<and>
    (\<forall>f\<in>set files. \<exists>g\<in>set out. gf_package g = gf_package f \<and> (\<exists>pre post. gf_content g = pre @ gf_content f @ post))"
proof -
  let ?file = "\<lambda>package. \<lparr>gf_name = cg_package_filename l package, gf_package = package, gf_kind = PackageMod,
      gf_content = generated_banner @ concat (map (\<lambda>f. newline # gf_content f) (filter (\<lambda>f. gf_package f = package) files))\<rparr>"
  let ?out = "map ?file (packages_of files)"
  have "generate_services l emit_bodies render mk_resolver pf to_gen o' = Ok ?out"
    using assms by (simp add: generate_services_def to_buffa_config_def Let_def)
  moreover have "map gf_package ?out = packages_of files" by (simp add: comp_def)
  moreover have "\<exists>g\<in>set ?out. gf_package g = gf_package f \<and> (\<exists>pre post. gf_content g = pre @ gf_content f @ post)" if "f \<in> set files" for f
  proof (rule bexI [of _ "?file (gf_package f)"])
    have "f \<in> set (filter (\<lambda>g. gf_package g = gf_package f) files)" using that by simp
    then obtain before after where "filter (\<lambda>g. gf_package g = gf_package f) files = before @ f # after"
      by (blast dest: split_list)
    then have "gf_content (?file (gf_package f)) =
        (generated_banner @ concat (map (\<lambda>f. newline # gf_content f) before) @ [newline]) @ gf_content f @
          concat (map (\<lambda>f. newline # gf_content f) after)" by simp
    then show "gf_package (?file (gf_package f)) = gf_package f \<and>
        (\<exists>pre post. gf_content (?file (gf_package f)) = pre @ gf_content f @ post)"
      unfolding generated_file.simps(2) by blast
  qed (use that in \<open>simp add: packages_of_def\<close>)
  ultimately show ?thesis by (intro exI [of _ ?out]) (simp add: packages_of_def comp_def)
qed

text \<open>
  The witness: two services over two files of one package; the type both import is aliased once,
  the one whose alias is a declared message is left without an alias.
\<close>

definition gen_libs :: cg_libs where
  "gen_libs = \<lparr>cg_snake = id, cg_camel = id, cg_upper = id, cg_debug = id, cg_valid_feature = (\<lambda>_. True),
     cg_stem = id, cg_package_filename = id, cg_package_mod_filename = id\<rparr>"

definition sample_resolver :: resolver where
  "sample_resolver = \<lparr>rv_relative = (\<lambda>t p. Some t), rv_split = (\<lambda>t p. Some ([], t)), rv_sentinel_mod = ''__buffa'',
     rv_require_extern = False, rv_lazy_views = False, rv_type_name_prefix = []\<rparr>"

definition sample_method :: "string \<Rightarrow> string \<Rightarrow> string \<Rightarrow> method_proto" where
  "sample_method n i out = \<lparr>mp_name = Some n, mp_input_type = Some i, mp_output_type = Some out,
     mp_client_streaming = None, mp_server_streaming = Some True, mp_idempotency = None\<rparr>"

definition gen_file :: "string \<Rightarrow> string \<Rightarrow> message_proto list \<Rightarrow> method_proto list \<Rightarrow> file_proto" where
  "gen_file n svc msgs ms = \<lparr>fp_name = Some n, fp_package = Some ''p'',
     fp_service = [\<lparr>sp_name = Some svc, sp_method = ms\<rparr>], fp_message_type = msgs, fp_enum_type = [], fp_location = []\<rparr>"

definition sample_render :: "item list \<Rightarrow> (string, string) result" where
  "sample_render items = Ok (concat (map (\<lambda>i. case i of OwnedViewAlias a v \<Rightarrow> a @ ''='' @ v @ '';''
     | EncodableItem t _ _ \<Rightarrow> ''impl '' @ t @ '';'' | ServiceItem s _ _ \<Rightarrow> ''service '' @ s @ '';'') items))"

definition gen_files :: "file_proto list" where
  "gen_files =
     [gen_file ''a'' ''A'' [MessageProto (Some ''M'') None [], MessageProto (Some ''OwnedNView'') None []] [sample_method ''Get'' ''.p.M'' ''.p.N''],
      gen_file ''b'' ''B'' [] [sample_method ''Get'' ''.p.M'' ''.p.N'']]"

definition sample_options :: cg_options where
  "sample_options = options_default \<lparr>bc_extern_paths = [], bc_file_per_package = False, bc_strict_utf8_mapping = False,
     bc_generate_json = True, bc_emit_register_fn = True, bc_generate_views = True\<rparr>"

definition sample_outcome :: "generated_file list" where
  "sample_outcome =
     [\<lparr>gf_name = ''a.__connect.rs'', gf_package = ''p'', gf_kind = Companion,
        gf_content = ''OwnedMView=__buffa::view::.p.MView;impl .p.N;service p.A;''\<rparr>,
      \<lparr>gf_name = ''b.__connect.rs'', gf_package = ''p'', gf_kind = Companion, gf_content = ''service p.B;''\<rparr>]"

lemma sample_emit:
  "emit_service_files gen_libs (\<lambda>_ _. Ok ()) sample_render gen_files [''a'', ''b''] sample_resolver sample_options = Ok sample_outcome"
  by code_simp

theorem emitted_names_distinct_witness:
  "\<exists>itemss. list_all2 (\<lambda>f items. sample_render items = Ok (gf_content f)) sample_outcome itemss \<and>
    distinct (names_in type_names ''p'' (batch_items sample_outcome itemss)) \<and>
    distinct (names_in value_names ''p'' (batch_items sample_outcome itemss)) \<and>
    distinct (concat (map (impl_types \<circ> snd) (batch_items sample_outcome itemss)))"
  using emitted_names_distinct [OF sample_emit] by blast

end
