(* ===== verification/GeneratedService.thy ===== *)
theory GeneratedService
  imports CodegenProps Get
begin

text \<open>
  What the templates of a service make of its methods (\<^verbatim>\<open>generate_service\<close>,
  \<^verbatim>\<open>generate_service_server\<close> and \<^verbatim>\<open>generate_client_method\<close> of
  \<^verbatim>\<open>connectrpc-codegen/src/codegen.rs\<close>): the registration on a \<^verbatim>\<open>Router\<close>, the monomorphic
  dispatcher, and the client's calls. The constants are found by their emitted names. A trait
  method between its decoding and encoding adaptors is an erased handler, a parameter.
\<close>

section \<open>The emitted operations\<close>

record ('ctx, 'pay, 'reqs, 'ures, 'sres) typed_service =
  ts_unary :: "string \<Rightarrow> ('ctx, 'pay, 'ures) erased_handler"
  ts_server_stream :: "string \<Rightarrow> ('ctx, bytes, 'sres) erased_handler"
  ts_client_stream :: "string \<Rightarrow> ('ctx, 'reqs, 'ures) erased_handler"
  ts_bidi_stream :: "string \<Rightarrow> ('ctx, 'reqs, 'sres) erased_handler"

abbreviation is_client_streaming :: "method_proto \<Rightarrow> bool" where
  "is_client_streaming m \<equiv> mp_client_streaming m = Some True"

abbreviation is_server_streaming :: "method_proto \<Rightarrow> bool" where
  "is_server_streaming m \<equiv> mp_server_streaming m = Some True"

abbreviation proto_method_name :: "method_proto \<Rightarrow> string" where
  "proto_method_name m \<equiv> or_empty (mp_name m)"

definition is_idempotent :: "method_proto \<Rightarrow> bool" where
  "is_idempotent m = (case mp_idempotency m of Some level \<Rightarrow> level = IoNoSideEffects | None \<Rightarrow> False)"

definition spec_const :: "cg_libs \<Rightarrow> (string \<times> spec) list \<Rightarrow> service_proto \<Rightarrow> method_proto \<Rightarrow> spec option" where
  "spec_const l specs service m = map_of specs (method_spec_const_ident l service (proto_method_name m))"

text \<open>One link of the chain of calls in \<^verbatim>\<open>register\<close>, and the chain.\<close>

definition register_method ::
    "bool \<Rightarrow> cg_libs \<Rightarrow> ('ctx, 'pay, 'reqs, 'ures, 'sres) typed_service \<Rightarrow> string \<Rightarrow> (string \<times> spec) list \<Rightarrow>
     service_proto \<Rightarrow> method_proto \<Rightarrow> ('ctx, 'pay, 'reqs, 'ures, 'sres) router \<Rightarrow>
     ('ctx, 'pay, 'reqs, 'ures, 'sres) router option" where
  "register_method debug l h full specs service m r =
     (let method_name = proto_method_name m; method_snake = cg_snake l method_name in
      Option.bind
        (if is_server_streaming m \<and> \<not> is_client_streaming m then
           route_view_server_stream id full method_name (ts_server_stream h method_snake) r
         else if is_client_streaming m \<and> \<not> is_server_streaming m then
           route_view_client_stream id full method_name (ts_client_stream h method_snake) r
         else if is_client_streaming m \<and> is_server_streaming m then
           route_view_bidi_stream id full method_name (ts_bidi_stream h method_snake) r
         else if is_idempotent m then
           route_view_idempotent id full method_name (ts_unary h method_snake) r
         else route_view id full method_name (ts_unary h method_snake) r)
        (\<lambda>r. Option.bind (spec_const l specs service m) (\<lambda>s. with_spec debug s r)))"

fun register_methods ::
    "bool \<Rightarrow> cg_libs \<Rightarrow> ('ctx, 'pay, 'reqs, 'ures, 'sres) typed_service \<Rightarrow> string \<Rightarrow> (string \<times> spec) list \<Rightarrow>
     service_proto \<Rightarrow> method_proto list \<Rightarrow> ('ctx, 'pay, 'reqs, 'ures, 'sres) router \<Rightarrow>
     ('ctx, 'pay, 'reqs, 'ures, 'sres) router option" where
  "register_methods debug l h full specs service [] r = Some r"
| "register_methods debug l h full specs service (m # ms) r =
     Option.bind (register_method debug l h full specs service m r) (register_methods debug l h full specs service ms)"

definition register_service ::
    "bool \<Rightarrow> cg_libs \<Rightarrow> ('ctx, 'pay, 'reqs, 'ures, 'sres) typed_service \<Rightarrow> string \<Rightarrow> (string \<times> spec) list \<Rightarrow>
     service_proto \<Rightarrow> ('ctx, 'pay, 'reqs, 'ures, 'sres) router \<Rightarrow> ('ctx, 'pay, 'reqs, 'ures, 'sres) router option" where
  "register_service debug l h full specs service r =
     register_methods debug l h full specs service (sp_method service) r"

text \<open>
  The monomorphic dispatcher: \<open>path.strip_prefix("pkg.Service/")\<close>, then a match on the method's
  name over the arms of the operation.
\<close>

definition match_method :: "string \<Rightarrow> method_proto list \<Rightarrow> string \<Rightarrow> method_proto option" where
  "match_method full arms path =
     (case strip_prefix (full @ ''/'') path of
        None \<Rightarrow> None
      | Some name \<Rightarrow> List.find (\<lambda>m. proto_method_name m = name) arms)"

definition server_desc :: "method_proto \<Rightarrow> method_descriptor" where
  "server_desc m =
     (if is_client_streaming m \<and> is_server_streaming m then desc_bidi_streaming
      else if is_client_streaming m then desc_client_streaming
      else if is_server_streaming m then desc_server_streaming
      else desc_unary (is_idempotent m))"

definition server_lookup ::
    "cg_libs \<Rightarrow> string \<Rightarrow> (string \<times> spec) list \<Rightarrow> service_proto \<Rightarrow> string \<Rightarrow> method_descriptor option" where
  "server_lookup l full specs service path =
     (case match_method full (sp_method service) path of
        Some m \<Rightarrow> map_option (\<lambda>s. desc_with_spec s (server_desc m)) (spec_const l specs service m)
      | None \<Rightarrow> None)"

definition server_call_unary ::
    "cg_libs \<Rightarrow> ('ctx, 'pay, 'reqs, 'ures, 'sres) typed_service \<Rightarrow> string \<Rightarrow> service_proto \<Rightarrow>
     string \<Rightarrow> ('ctx, 'pay, 'ures) erased_handler" where
  "server_call_unary l h full service path ctx request format =
     (case match_method full (filter (\<lambda>m. \<not> is_client_streaming m \<and> \<not> is_server_streaming m) (sp_method service)) path of
        Some m \<Rightarrow> ts_unary h (cg_snake l (proto_method_name m)) ctx request format
      | None \<Rightarrow> unimplemented_unary path)"

definition server_call_server_streaming ::
    "cg_libs \<Rightarrow> ('ctx, 'pay, 'reqs, 'ures, 'sres) typed_service \<Rightarrow> string \<Rightarrow> service_proto \<Rightarrow>
     string \<Rightarrow> ('ctx, bytes, 'sres) erased_handler" where
  "server_call_server_streaming l h full service path ctx request format =
     (case match_method full (filter (\<lambda>m. \<not> is_client_streaming m \<and> is_server_streaming m) (sp_method service)) path of
        Some m \<Rightarrow> ts_server_stream h (cg_snake l (proto_method_name m)) ctx request format
      | None \<Rightarrow> unimplemented_streaming path)"

definition server_call_client_streaming ::
    "cg_libs \<Rightarrow> ('ctx, 'pay, 'reqs, 'ures, 'sres) typed_service \<Rightarrow> string \<Rightarrow> service_proto \<Rightarrow>
     string \<Rightarrow> ('ctx, 'reqs, 'ures) erased_handler" where
  "server_call_client_streaming l h full service path ctx requests format =
     (case match_method full (filter (\<lambda>m. is_client_streaming m \<and> \<not> is_server_streaming m) (sp_method service)) path of
        Some m \<Rightarrow> ts_client_stream h (cg_snake l (proto_method_name m)) ctx requests format
      | None \<Rightarrow> unimplemented_unary path)"

definition server_call_bidi_streaming ::
    "cg_libs \<Rightarrow> ('ctx, 'pay, 'reqs, 'ures, 'sres) typed_service \<Rightarrow> string \<Rightarrow> service_proto \<Rightarrow>
     string \<Rightarrow> ('ctx, 'reqs, 'sres) erased_handler" where
  "server_call_bidi_streaming l h full service path ctx requests format =
     (case match_method full (filter (\<lambda>m. is_client_streaming m \<and> is_server_streaming m) (sp_method service)) path of
        Some m \<Rightarrow> ts_bidi_stream h (cg_snake l (proto_method_name m)) ctx requests format
      | None \<Rightarrow> unimplemented_streaming path)"

definition generated_server ::
    "cg_libs \<Rightarrow> ('ctx, 'pay, 'reqs, 'ures, 'sres) typed_service \<Rightarrow> string \<Rightarrow> (string \<times> spec) list \<Rightarrow> service_proto \<Rightarrow>
     ('ctx, 'pay, 'reqs, 'ures, 'sres) dispatcher" where
  "generated_server l h full specs service =
     \<lparr>d_lookup = server_lookup l full specs service, d_call_unary = server_call_unary l h full service,
      d_call_server_streaming = server_call_server_streaming l h full service,
      d_call_client_streaming = server_call_client_streaming l h full service,
      d_call_bidi_streaming = server_call_bidi_streaming l h full service\<rparr>"

text \<open>What a generated client method passes on: the entry point it calls and the spec.\<close>

definition client_method_call ::
    "cg_libs \<Rightarrow> (string \<times> spec) list \<Rightarrow> service_proto \<Rightarrow> method_proto \<Rightarrow> (string \<times> spec) option" where
  "client_method_call l specs service m =
     map_option (\<lambda>s.
       (if is_client_streaming m \<and> \<not> is_server_streaming m then ''call_client_stream''
        else if is_client_streaming m \<and> is_server_streaming m then ''call_bidi_stream''
        else if is_server_streaming m then ''call_server_stream''
        else ''call_unary'',
        with_origin OriginClient s))
       (spec_const l specs service m)"

section \<open>An accepted service\<close>

definition method_spec :: "string \<Rightarrow> method_proto \<Rightarrow> spec" where
  "method_spec full m = with_idempotency_level (proto_idempotency m)
     \<lparr>procedure = ''/'' @ full @ ''/'' @ proto_method_name m, spec_stream_type = proto_stream_type m,
      spec_origin_of = OriginServer, spec_idempotency_level = LevelUnknown\<rparr>"

lemma generate_service_accepts:
  assumes "generate_service l emit_bodies f service batch = Ok (ServiceItem full idents specs, batch')"
  shows "specs = generate_spec_consts l full service \<and> distinct (map proto_method_name (sp_method service)) \<and>
    (\<forall>m\<in>set (sp_method service). spec_const l specs service m = Some (method_spec full m))"
proof -
  from assms have specs: "specs = generate_spec_consts l full service"
    and check: "check_module_collisions l f full service (service_idents_new l (or_empty (sp_name service))) batch = Ok batch'"
    by (auto simp: generate_service_def Let_def result_bind_Ok_iff)
  from check obtain m' where
    "claim_idents (or_empty (fp_name f)) (module_items l f full service (service_idents_new l (or_empty (sp_name service))))
       (bs_module_idents batch (or_empty (fp_package f))) = Ok m'"
    unfolding check_module_collisions_def Let_def by (auto simp: result_map_Ok_iff split: option.splits)
  from claim_idents_Ok [OF this] have names: "distinct (map fst specs)" by (simp add: module_items_names specs)
  have specs_map: "specs = map (\<lambda>m. (method_spec_const_ident l service (proto_method_name m), method_spec full m)) (sp_method service)"
    by (simp add: specs generate_spec_consts_def method_spec_def Let_def)
  have "map fst specs = map (method_spec_const_ident l service) (map proto_method_name (sp_method service))"
    by (simp add: specs_map)
  with names have "distinct (map (method_spec_const_ident l service) (map proto_method_name (sp_method service)))" by argo
  then have "distinct (map proto_method_name (sp_method service))" by (rule distinct_map [THEN iffD1, THEN conjunct1])
  moreover have "spec_const l specs service m = Some (method_spec full m)" if "m \<in> set (sp_method service)" for m
    unfolding spec_const_def by (rule map_of_is_SomeI [OF names]) (use that in \<open>auto simp: specs_map\<close>)
  ultimately show ?thesis using specs by blast
qed

section \<open>Both dispatchers\<close>

definition generated_route ::
    "cg_libs \<Rightarrow> ('ctx, 'pay, 'reqs, 'ures, 'sres) typed_service \<Rightarrow> method_proto \<Rightarrow> ('ctx, 'pay, 'reqs, 'ures, 'sres) rpc_method" where
  "generated_route l h m =
     (let method_snake = cg_snake l (proto_method_name m) in
      case proto_stream_type m of
        StUnary \<Rightarrow> MUnary (ts_unary h method_snake) (is_idempotent m)
      | StServerStream \<Rightarrow> MStreaming (ts_server_stream h method_snake) ServerStreaming
      | StClientStream \<Rightarrow> MClientStreaming (ts_client_stream h method_snake)
      | StBidiStream \<Rightarrow> MBidiStreaming (ts_bidi_stream h method_snake))"

lemma strip_slash_method_spec: "strip_slash (procedure (method_spec full m)) = method_path full (proto_method_name m)"
  by (simp add: strip_slash_def method_spec_def with_idempotency_level_def method_path_def)

lemma idempotent_iff_no_side_effects:
  "is_idempotent m \<longleftrightarrow> spec_idempotency_level (method_spec full m) = NoSideEffects"
  by (auto simp: is_idempotent_def method_spec_def with_idempotency_level_def proto_idempotency_def
      split: option.splits idempotency_option.splits)

lemma register_method_adds:
  assumes "r_allow_overrides r \<or> map_of (r_methods r) (method_path full (proto_method_name m)) = None"
    and "spec_const l specs service m = Some (method_spec full m)"
  shows "\<exists>r'. register_method debug l h full specs service m r = Some r' \<and> r_allow_overrides r' = r_allow_overrides r \<and>
    map_of (r_methods r') = (map_of (r_methods r))(method_path full (proto_method_name m) \<mapsto>
      \<lparr>rm_method = generated_route l h m, rm_spec = Some (method_spec full m), rm_limits = None\<rparr>)"
  using assms idempotent_iff_no_side_effects [of m full]
  by (cases "is_client_streaming m"; cases "is_server_streaming m"; cases "is_idempotent m")
    (auto simp: register_method_def Let_def route_view_server_stream_def route_view_client_stream_def
      route_view_bidi_stream_def route_view_idempotent_def route_view_def route_view_internal_def insert_method_def
      contains_key_def with_spec_def strip_slash_method_spec update_conv' from_method_def generated_route_def proto_stream_type_def)


lemma method_path_inject [simp]: "method_path full a = method_path full b \<longleftrightarrow> a = b"
  by (simp add: method_path_def)

text \<open>The route of a path after registering: the service's method with that path, else what was there.\<close>

abbreviation path_method :: "string \<Rightarrow> method_proto list \<Rightarrow> string \<Rightarrow> method_proto option" where
  "path_method full ms path \<equiv> List.find (\<lambda>m. method_path full (proto_method_name m) = path) ms"

lemma find_None_notin: "List.find (\<lambda>m. proto_method_name m = n) ms = None \<longleftrightarrow> n \<notin> proto_method_name ` set ms"
  by (auto simp: find_None_iff)

lemma register_methods_adds:
  assumes "\<forall>m\<in>set ms. r_allow_overrides r \<or> map_of (r_methods r) (method_path full (proto_method_name m)) = None"
    and "\<forall>m\<in>set ms. spec_const l specs service m = Some (method_spec full m)" and "distinct (map proto_method_name ms)"
  shows "\<exists>r'. register_methods debug l h full specs service ms r = Some r' \<and> (\<forall>path. map_of (r_methods r') path =
    (case path_method full ms path of
       Some m \<Rightarrow> Some \<lparr>rm_method = generated_route l h m, rm_spec = Some (method_spec full m), rm_limits = None\<rparr>
     | None \<Rightarrow> map_of (r_methods r) path))"
  using assms
proof (induction ms arbitrary: r)
  case (Cons m ms)
  let ?k = "method_path full (proto_method_name m)"
  let ?route = "\<lparr>rm_method = generated_route l h m, rm_spec = Some (method_spec full m), rm_limits = None\<rparr>"
  have "r_allow_overrides r \<or> map_of (r_methods r) ?k = None" "spec_const l specs service m = Some (method_spec full m)"
    using Cons.prems(1,2) by auto
  from register_method_adds [OF this, of debug h] obtain r1 where r1: "register_method debug l h full specs service m r = Some r1"
    "r_allow_overrides r1 = r_allow_overrides r" "map_of (r_methods r1) = (map_of (r_methods r))(?k \<mapsto> ?route)" by blast
  have new: "proto_method_name m \<notin> proto_method_name ` set ms" using Cons.prems(3) by simp
  then have "\<forall>m'\<in>set ms. r_allow_overrides r1 \<or> map_of (r_methods r1) (method_path full (proto_method_name m')) = None"
    using Cons.prems(1) r1(2,3) by (auto simp: image_iff)
  from Cons.IH [OF this] Cons.prems(2,3) obtain r' where r':
    "register_methods debug l h full specs service ms r1 = Some r'"
    "\<And>path. map_of (r_methods r') path = (case path_method full ms path of
       Some m \<Rightarrow> Some \<lparr>rm_method = generated_route l h m, rm_spec = Some (method_spec full m), rm_limits = None\<rparr>
     | None \<Rightarrow> map_of (r_methods r1) path)" by auto
  have "map_of (r_methods r') path = (case path_method full (m # ms) path of
       Some m \<Rightarrow> Some \<lparr>rm_method = generated_route l h m, rm_spec = Some (method_spec full m), rm_limits = None\<rparr>
     | None \<Rightarrow> map_of (r_methods r) path)" for path
    using new find_None_notin [of "proto_method_name m" ms] by (cases "?k = path") (auto simp: r'(2) r1(3) split: option.splits)
  then show ?case using r1(1) r'(1) by auto
qed simp

lemma match_method_eq: "match_method full ms path = path_method full ms path"
proof (cases "strip_prefix (full @ ''/'') path")
  case None
  then have "method_path full n \<noteq> path" for n
    using strip_prefix_append [of "full @ ''/''" n] by (auto simp: method_path_def)
  with None show ?thesis by (simp add: match_method_def find_None_iff eq_commute [of None])
next
  case (Some name)
  then have "path = method_path full name" by (simp add: strip_prefix_Some_iff method_path_def)
  with Some show ?thesis by (simp add: match_method_def)
qed

lemma find_distinct_key: "distinct (map key xs) \<Longrightarrow> x \<in> set xs \<Longrightarrow> List.find (\<lambda>y. key y = key x) xs = Some x"
  by (induction xs) auto

text \<open>With distinct names, an arm is found among the arms of one kind iff the method found has the kind.\<close>

lemma path_method_filter:
  "distinct (map proto_method_name ms) \<Longrightarrow> path_method full (filter P ms) path =
    (case path_method full ms path of Some m \<Rightarrow> if P m then Some m else None | None \<Rightarrow> None)"
proof (induction ms)
  case (Cons m ms)
  have "path_method full ms (method_path full (proto_method_name m)) = None"
    using Cons.prems by (simp add: find_None_notin)
  with Cons show ?case by (auto split: option.splits)
qed simp


text \<open>The witness: a service with an idempotent unary and a server-streaming method.\<close>

definition sample_proto_service :: service_proto where
  "sample_proto_service = \<lparr>sp_name = Some ''A'',
     sp_method = [sample_method ''Watch'' ''.p.M'' ''.p.N'',
       \<lparr>mp_name = Some ''Get'', mp_input_type = Some ''.p.M'', mp_output_type = Some ''.p.N'', mp_client_streaming = None,
        mp_server_streaming = Some False, mp_idempotency = Some IoNoSideEffects\<rparr>]\<rparr>"

definition sample_specs :: "(string \<times> spec) list" where
  "sample_specs =
     [(''A_Watch_SPEC'', \<lparr>procedure = ''/p.A/Watch'', spec_stream_type = StServerStream, spec_origin_of = OriginServer,
         spec_idempotency_level = LevelUnknown\<rparr>),
      (''A_Get_SPEC'', \<lparr>procedure = ''/p.A/Get'', spec_stream_type = StUnary, spec_origin_of = OriginServer,
         spec_idempotency_level = NoSideEffects\<rparr>)]"

definition sample_typed :: "(unit, bytes, bytes list, bytes, bytes list) typed_service" where
  "sample_typed = \<lparr>ts_unary = (\<lambda>_. sample_handler), ts_server_stream = (\<lambda>_ ctx q format. Ok [q]),
     ts_client_stream = (\<lambda>_ ctx qs format. Ok (concat qs)), ts_bidi_stream = (\<lambda>_ ctx qs format. Ok qs)\<rparr>"

definition sample_batch :: batch_state where
  "sample_batch = batch_start gen_libs gen_files [] sample_resolver sample_options"

lemma sample_generated:
  obtains idents batch' where
    "generate_service gen_libs (\<lambda>_ _. Ok ()) (hd gen_files) sample_proto_service sample_batch =
       Ok (ServiceItem ''p.A'' idents sample_specs, batch')"
proof -
  have "case generate_service gen_libs (\<lambda>_ _. Ok ()) (hd gen_files) sample_proto_service sample_batch of
      Ok (ServiceItem full idents specs, batch') \<Rightarrow> full = ''p.A'' \<and> specs = sample_specs | _ \<Rightarrow> False"
    by code_simp
  then show thesis using that by (auto split: result.splits item.splits)
qed


section \<open>The generated client\<close>

text \<open>
  C13. A generated client method reaches the generated server's method: the spec it passes is
  accepted by the entry point it calls, its procedure is a path the server looks up, the kind
  found there is the one the entry point speaks, the server's own spec is of the same method and
  idempotency, and the server allows GET exactly for the unary methods the client may send as one.
\<close>

theorem generated_client_reaches_server:
  fixes h :: "('ctx, 'pay, 'reqs, 'ures, 'sres) typed_service"
  assumes "generate_service l emit_bodies f service batch = Ok (ServiceItem full idents specs, batch')"
    and "m \<in> set (sp_method service)"
  shows "\<exists>s s' d. client_method_call l specs service m = Some (entry_point_for (spec_stream_type s), s) \<and>
    check_client_spec u s (spec_stream_type s) (entry_point_for (spec_stream_type s)) = Ok () \<and>
    d_lookup (generated_server l h full specs service) (strip_slash (procedure s)) = Some d \<and>
    md_kind d = kind_from_stream_type (spec_stream_type s) \<and> md_spec d = Some s' \<and> same_method s s' \<and>
    spec_idempotency_level s = spec_idempotency_level s' \<and>
    (md_idempotent d \<longleftrightarrow> md_kind d = Unary \<and> spec_idempotency_level s = NoSideEffects)"
proof -
  note ok = generate_service_accepts [OF assms(1)]
  let ?s = "with_origin OriginClient (method_spec full m)"
  have const: "spec_const l specs service m = Some (method_spec full m)" using ok assms(2) by blast
  have path: "strip_slash (procedure ?s) = method_path full (proto_method_name m)"
    by (simp add: with_origin_def strip_slash_method_spec)
  have found: "path_method full (sp_method service) (method_path full (proto_method_name m)) = Some m"
    using find_distinct_key [of "\<lambda>m. proto_method_name m" "sp_method service" m] ok assms(2) by simp
  have entry: "client_method_call l specs service m = Some (entry_point_for (spec_stream_type ?s), ?s)"
    by (auto simp: client_method_call_def const with_origin_def method_spec_def with_idempotency_level_def proto_stream_type_def split: bool.splits)
  have wf: "check_client_spec u ?s (spec_stream_type ?s) (entry_point_for (spec_stream_type ?s)) = Ok ()"
    by (simp add: check_client_spec_Ok_iff with_origin_def method_spec_def with_idempotency_level_def procedure_is_well_formed_def)
  have looked: "d_lookup (generated_server l h full specs service) (strip_slash (procedure ?s)) =
      Some (desc_with_spec (method_spec full m) (server_desc m))"
    by (simp add: path generated_server_def server_lookup_def match_method_eq found [simplified] const)
  have kind: "md_kind (desc_with_spec (method_spec full m) (server_desc m)) = kind_from_stream_type (spec_stream_type ?s) \<and>
      md_spec (desc_with_spec (method_spec full m) (server_desc m)) = Some (method_spec full m) \<and>
      (md_idempotent (desc_with_spec (method_spec full m) (server_desc m)) \<longleftrightarrow>
        md_kind (desc_with_spec (method_spec full m) (server_desc m)) = Unary \<and> spec_idempotency_level ?s = NoSideEffects)"
    using idempotent_iff_no_side_effects [of m full]
    by (auto simp: desc_with_spec_def server_desc_def desc_unary_def desc_bidi_streaming_def desc_client_streaming_def
        desc_server_streaming_def with_idempotent_def from_kind_def with_origin_def method_spec_def with_idempotency_level_def
        proto_stream_type_def split: bool.splits)
  have same: "same_method ?s (method_spec full m)" "spec_idempotency_level ?s = spec_idempotency_level (method_spec full m)"
    by (simp_all add: same_method_def with_origin_def)
  from entry wf looked kind same show ?thesis by blast
qed

theorem generated_client_reaches_server_witness:
  "\<exists>s s' d. client_method_call gen_libs sample_specs sample_proto_service (hd (sp_method sample_proto_service)) =
       Some (entry_point_for (spec_stream_type s), s) \<and>
    check_client_spec sample_uri_ops s (spec_stream_type s) (entry_point_for (spec_stream_type s)) = Ok () \<and>
    d_lookup (generated_server gen_libs sample_typed ''p.A'' sample_specs sample_proto_service) (strip_slash (procedure s)) = Some d \<and>
    md_kind d = kind_from_stream_type (spec_stream_type s) \<and> md_spec d = Some s' \<and> same_method s s'"
proof -
  obtain idents batch' where "generate_service gen_libs (\<lambda>_ _. Ok ()) (hd gen_files) sample_proto_service sample_batch =
      Ok (ServiceItem ''p.A'' idents sample_specs, batch')" by (rule sample_generated)
  moreover have "hd (sp_method sample_proto_service) \<in> set (sp_method sample_proto_service)" by (simp add: sample_proto_service_def)
  ultimately show ?thesis using generated_client_reaches_server [where u = sample_uri_ops and h = sample_typed] by blast
qed

end
