(* ===== verification/Spec2Isabelle.thy ===== *)
theory Spec2Isabelle
  imports Prelude Headers ErrorModel Protocol Compression Body Incremental Envelope Timeout Deadline
    MethodSpec Router Health GrpcStatus Trailers EnvelopeStream
    Payload Interceptor ClientConfig Get
    ResponseStream RequestStream Service ServiceProps
    ClientUnary ClientProps ClientStream StreamProps ClientDuplex DuplexProps
    Reflection ReflectionProps Comments CommentSafety
    Codegen CodegenProps GeneratedService
begin

text \<open>
  \<^bold>\<open>A verification development of connect-rust\<close>, the ConnectRPC library for Rust: one RPC call
  model over three wire protocols (Connect, gRPC, gRPC-Web), with a tower service on the server
  side, tower transports on the client side, the health and server reflection services built
  on top, and a code generator that emits clients and servers for the services of proto files.

  \<^bold>\<open>The program.\<close> A client call merges its options with the configuration, builds an HTTP request
  (\<^verbatim>\<open>client/mod.rs\<close>) whose body is the message, compressed and framed in envelopes
  (\<^verbatim>\<open>envelope.rs\<close>, \<^verbatim>\<open>compression.rs\<close>), and hands it to a transport. The service (\<^verbatim>\<open>service.rs\<close>)
  detects the protocol from the head (\<^verbatim>\<open>protocol.rs\<close>), moderates the deadline (\<^verbatim>\<open>deadline.rs\<close>),
  reads the request messages, runs the interceptor chain (\<^verbatim>\<open>interceptor.rs\<close>) around the
  dispatcher (\<^verbatim>\<open>dispatcher.rs\<close>, \<^verbatim>\<open>router.rs\<close>), and encodes the answer: a unary body, or a batched
  envelope stream closed by protocol-specific trailers (\<^verbatim>\<open>grpc_status.rs\<close>). The client reads the
  response back into messages, headers, trailers or an error (\<^verbatim>\<open>error.rs\<close>).

  \<^bold>\<open>The theories\<close>, in the order the code layers them; paths are under \<^verbatim>\<open>src/\<close>.
  \<^item> \<^verbatim>\<open>Prelude\<close>, \<^verbatim>\<open>Headers\<close>: results, byte strings, text, durations and saturating arithmetic of the
    standard library, and the header multimap of the \<^verbatim>\<open>http\<close> crate as an association list in
    insertion order.
  \<^item> \<^verbatim>\<open>ErrorModel\<close> (\<^verbatim>\<open>connectrpc/src/error.rs\<close>): codes, details, \<^verbatim>\<open>ConnectError\<close>; code names and gRPC
    numbers as exact vocabularies (locale \<open>exact_wire_code\<close>).
  \<^item> \<^verbatim>\<open>Protocol\<close>, \<^verbatim>\<open>Compression\<close>, \<^verbatim>\<open>Body\<close> (\<^verbatim>\<open>protocol.rs\<close>, \<^verbatim>\<open>codec.rs\<close>, \<^verbatim>\<open>compression.rs\<close>, \<^verbatim>\<open>response.rs\<close>):
    content types and detection, registry, negotiation and bounded decompression, segmented bodies.
  \<^item> \<^verbatim>\<open>Incremental\<close>, \<^verbatim>\<open>Envelope\<close>, \<^verbatim>\<open>EnvelopeStream\<close> (\<^verbatim>\<open>envelope.rs\<close>): the locales \<open>frame_decoder\<close> and
    \<open>incremental_decoder\<close> state what a reader promises, and are interpreted on the contiguous
    decoder, the assembler and the request decoder.
  \<^item> \<^verbatim>\<open>Timeout\<close>, \<^verbatim>\<open>Deadline\<close> (\<^verbatim>\<open>service.rs\<close>, \<^verbatim>\<open>client/mod.rs\<close>, \<^verbatim>\<open>deadline.rs\<close>): the timeout headers, the
    policy and the deadline stream as a poll function.
  \<^item> \<^verbatim>\<open>MethodSpec\<close>, \<^verbatim>\<open>Router\<close>, \<^verbatim>\<open>Health\<close> (\<^verbatim>\<open>spec.rs\<close>, \<^verbatim>\<open>router.rs\<close>, \<^verbatim>\<open>dispatcher.rs\<close>, \<^verbatim>\<open>connectrpc-health\<close>):
    registration, merging, dispatch and chaining; the health checker and its routes.
  \<^item> \<^verbatim>\<open>Reflection\<close>, \<^verbatim>\<open>ReflectionProps\<close> (\<^verbatim>\<open>connectrpc-reflection\<close>): the framing walk of a descriptor set, the
    reflector with its queries and import closure (a partial function shown to return), the
    service's responses and its routes.
  \<^item> \<^verbatim>\<open>GrpcStatus\<close>, \<^verbatim>\<open>Trailers\<close> (\<^verbatim>\<open>grpc_status.rs\<close>, \<^verbatim>\<open>service.rs\<close>, \<^verbatim>\<open>client/mod.rs\<close>): the status message, the
    trailers both sides write and read, echoed headers, end-of-stream metadata.
  \<^item> \<^verbatim>\<open>Payload\<close>, \<^verbatim>\<open>Interceptor\<close> (\<^verbatim>\<open>payload.rs\<close>, \<^verbatim>\<open>response.rs\<close>, \<^verbatim>\<open>interceptor.rs\<close>): lazily decoded payloads
    with their caches, contexts, and the interceptor chain around the four dispatch paths.
  \<^item> \<^verbatim>\<open>ResponseStream\<close>, \<^verbatim>\<open>RequestStream\<close>, \<^verbatim>\<open>Service\<close> (\<^verbatim>\<open>service.rs\<close>): the batching response body, the
    request stream with its bounded drain, and \<^verbatim>\<open>ConnectRpcService::call\<close> with every handler.
  \<^item> \<^verbatim>\<open>ClientConfig\<close>, \<^verbatim>\<open>Get\<close>, \<^verbatim>\<open>ClientUnary\<close>, \<^verbatim>\<open>ClientStream\<close>, \<^verbatim>\<open>ClientDuplex\<close> (\<^verbatim>\<open>client/mod.rs\<close>): options
    and URIs, the cacheable GET, the unary call with its three parsers, the response stream, and
    the client- and bidirectional-streaming calls.
  \<^item> \<^verbatim>\<open>Comments\<close>, \<^verbatim>\<open>CommentSafety\<close> (\<^verbatim>\<open>connectrpc-codegen/src/comments.rs\<close>): the sanitizer of proto
    comments, and a reader of its output as rustdoc sees fences and indented code.
  \<^item> \<^verbatim>\<open>Codegen\<close>, \<^verbatim>\<open>CodegenProps\<close>, \<^verbatim>\<open>GeneratedService\<close> (\<^verbatim>\<open>connectrpc-codegen/src/codegen.rs\<close>): plugin
    options, the batch state with its name and collision checks, the layouts; what the emitted
    registration, dispatcher and client methods do with a service.
  \<^item> \<^verbatim>\<open>ServiceProps\<close>, \<^verbatim>\<open>ClientProps\<close>, \<^verbatim>\<open>StreamProps\<close>, \<^verbatim>\<open>DuplexProps\<close>: the compositions of client and
    service.

  \<^bold>\<open>What is shown.\<close> Calls compose end to end: a GET, a gRPC or gRPC-Web unary call, a response
  stream in any protocol and a request stream arrive as they were sent, with the handler's answer
  or error coming back. Readers refine a contiguous reference whatever the framing, response and
  request streams deliver everything and end, buffers and drains are bounded, encodings of
  timeouts, statuses, trailers and descriptor sets invert each other, routing and health refine
  abstract maps, the reflection closure is the reachable imports, generated names do not clash and
  the generated dispatchers agree with each other and with the generated client, sanitized comments are inert,
  caches and default interceptors are transparent, and the error paths give the errors stated.

  \<^bold>\<open>How code is represented.\<close> A pure function is a HOL function; mutable structures are records passed
  and returned; an asynchronous stream is a poll function on an explicit state, and a source
  outside the program is the script of its poll answers (\<open>Pending\<close> or an item, then the end),
  so theorems quantify over every readiness pattern. Errors are values of \<open>result\<close>, panics are
  \<open>None\<close>. \<open>usize\<close> and \<open>u64\<close> values are naturals with the 64-bit bounds and saturation written
  out, bytes and \<open>u32\<close> are words. Loops are structural recursion or functions with a measure;
  \<^verbatim>\<open>decode_stream\<close> uses the buffer length plus one as fuel, enough since every decoded item
  consumes a byte (\<open>decode_stream_enough\<close>); \<^verbatim>\<open>details_loop\<close> likewise, which returns on every input
  (\<open>status_decode_returns\<close>); \<^verbatim>\<open>request_poll_next\<close> and \<^verbatim>\<open>closure_loop\<close> are partial functions shown to
  return.

  \<^bold>\<open>Parameters.\<close> Code outside the repository is an argument: percent and base64 coding and header
  validation (\<open>text_ops\<close>, laws \<open>text_laws\<close>), the protobuf wire primitives (\<open>wire_ops\<close>, \<open>wire_laws\<close>),
  URI parsing (\<open>uri_ops\<close>), query coding (\<open>query_ops\<close>), message codecs (\<open>message_ops\<close>), tokio's watch
  and mpsc channels (\<open>watch_ops\<close>, \<open>chan_ops\<close>), the descriptor pool (\<open>pool_ops\<close>, \<open>pool_laws\<close>), JSON (\<open>service_libs\<close>, \<open>client_env\<close>), compression
  providers, clocks, timers, body collection and the transport (\<open>server_env\<close>, \<open>client_env\<close>), case
  conversion, type resolution and formatting of generated code (\<open>cg_libs\<close>, \<open>resolver\<close>).
  Every theorem with such laws has a witness on concrete functions.

  \<^bold>\<open>Not modelled.\<close> The network and process layer (\<^verbatim>\<open>server.rs\<close>, \<^verbatim>\<open>client/http2.rs\<close>, hyper, tower and axum
  adaptors), which moves bytes and owns sockets, tasks and TLS; the gzip and zstd codecs, which
  call foreign libraries; the typed handler adaptors and views, which are generic wrappers over
  the protobuf library; tracing. Of the code generator, the token text of its templates and the plugin's process I/O;
  build support (\<^verbatim>\<open>connectrpc-build\<close>) runs external programs. Generated code, conformance
  runners, benchmarks and examples are clients of what is modelled here.
\<close>

end
